(* ===== verification/Relay_Prelude.thy ===== *)
theory Relay_Prelude
  imports Main "HOL-Library.Word" "HOL-Library.Multiset"
begin

text \<open>
  Shared vocabulary of the development.  A Go function with the result \<open>(T, error)\<close> is a
  function into the sum \<open>'e + 'a\<close>: \<^const>\<open>Inl\<close> is the branch that returns a non-nil error,
  \<^const>\<open>Inr\<close> the branch that returns the value and \<open>nil\<close>.  The idiom
  \<^verbatim>\<open>x, err := f(); if err != nil { return err }\<close> is \<open>bindE\<close>, a loop that stops at the
  first error is \<open>mapE\<close>, and the collections below carry the generic facts about both.
\<close>

section \<open>Collections\<close>

named_theorems result_simps \<open>inversion of results built with bindE, guardE and mapE\<close>
named_theorems parser_defs \<open>definitions of the configuration parsers, unfolded together\<close>
named_theorems setting_simps \<open>what a typed setting reader returns\<close>

section \<open>Fallible computations\<close>

fun bindE :: "'e + 'a \<Rightarrow> ('a \<Rightarrow> 'e + 'b) \<Rightarrow> 'e + 'b" where
  "bindE (Inl e) f = Inl e"
| "bindE (Inr x) f = f x"

text \<open>\<^verbatim>\<open>if bad { return err }\<close> in front of the rest of the function.\<close>

definition guardE :: "bool \<Rightarrow> 'e \<Rightarrow> 'e + 'b \<Rightarrow> 'e + 'b" where
  "guardE bad err rest = (if bad then Inl err else rest)"

text \<open>A loop that appends one result per element and returns at the first error.\<close>

fun mapE :: "('a \<Rightarrow> 'e + 'b) \<Rightarrow> 'a list \<Rightarrow> 'e + 'b list" where
  "mapE f [] = Inr []"
| "mapE f (x # xs) = bindE (f x) (\<lambda>y. bindE (mapE f xs) (\<lambda>ys. Inr (y # ys)))"

definition is_ok :: "'e + 'a \<Rightarrow> bool" where
  "is_ok r \<longleftrightarrow> (case r of Inl _ \<Rightarrow> False | Inr _ \<Rightarrow> True)"

lemma is_ok_simps [simp]: "\<not> is_ok (Inl e)" "is_ok (Inr x)"
  by (simp_all add: is_ok_def)

lemma is_ok_iff: "is_ok r \<longleftrightarrow> (\<exists>x. r = Inr x)"
  by (cases r) auto

lemma bindE_Inr [result_simps]: "bindE m f = Inr y \<longleftrightarrow> (\<exists>x. m = Inr x \<and> f x = Inr y)"
  by (cases m) auto

lemma bindE_Inl [result_simps]:
  "bindE m f = Inl e \<longleftrightarrow> m = Inl e \<or> (\<exists>x. m = Inr x \<and> f x = Inl e)"
  by (cases m) auto

lemma guardE_Inr [result_simps]: "guardE c e r = Inr y \<longleftrightarrow> \<not> c \<and> r = Inr y"
  by (auto simp: guardE_def)

lemma guardE_Inl [result_simps]: "guardE c e r = Inl e' \<longleftrightarrow> (c \<and> e = e') \<or> (\<not> c \<and> r = Inl e')"
  by (auto simp: guardE_def)

lemma guardE_simps [simp]: "guardE False e r = r" "guardE True e r = Inl e"
  by (simp_all add: guardE_def)

lemma case_option_Inr [result_simps]:
  "(case m of None \<Rightarrow> Inl e | Some x \<Rightarrow> f x) = Inr y \<longleftrightarrow> (\<exists>x. m = Some x \<and> f x = Inr y)"
  by (cases m) auto

lemma case_option_Inl [result_simps]:
  "(case m of None \<Rightarrow> Inl e | Some x \<Rightarrow> f x) = Inl e' \<longleftrightarrow>
     (m = None \<and> e = e') \<or> (\<exists>x. m = Some x \<and> f x = Inl e')"
  by (cases m) auto

lemma is_ok_bindE [result_simps]: "is_ok (bindE m f) \<longleftrightarrow> (\<exists>x. m = Inr x \<and> is_ok (f x))"
  by (cases m) auto

lemma is_ok_guardE [result_simps]: "is_ok (guardE c e r) \<longleftrightarrow> \<not> c \<and> is_ok r"
  by (simp add: guardE_def)

lemma bindE_assoc: "bindE (bindE m f) g = bindE m (\<lambda>x. bindE (f x) g)"
  by (cases m) auto

lemma bindE_cong [fundef_cong, cong]:
  "m = m' \<Longrightarrow> (\<And>x. m' = Inr x \<Longrightarrow> f x = f' x) \<Longrightarrow> bindE m f = bindE m' f'"
  by (cases m') auto

lemma bindE_if: "bindE (if c then m else n) f = (if c then bindE m f else bindE n f)"
  by simp

lemma mapE_Inr [result_simps]:
  "mapE f xs = Inr ys \<longleftrightarrow> list_all2 (\<lambda>x y. f x = Inr y) xs ys"
  by (induction xs arbitrary: ys) (auto simp: result_simps list_all2_Cons1)

lemma mapE_InlD: "mapE f xs = Inl e \<Longrightarrow> \<exists>x\<in>set xs. f x = Inl e"
  by (induction xs) (auto simp: result_simps)

lemma mapE_is_ok [result_simps]: "is_ok (mapE f xs) \<longleftrightarrow> (\<forall>x\<in>set xs. is_ok (f x))"
  by (induction xs) (auto simp: result_simps is_ok_iff)

section \<open>Lists and association lists\<close>

text \<open>
  A Go map is an association list with distinct keys.  The order of the list is the order in
  which one \<^verbatim>\<open>range\<close> loop happens to visit the entries, which Go leaves open; every statement
  about a map is therefore made for an arbitrary list, and the facts that the visiting order
  cannot change are proved as invariance under permutation.
\<close>

lemma map_of_perm:
  assumes "distinct (map fst xs)" and "mset xs = mset ys"
  shows "map_of xs = map_of ys"
proof -
  have "set xs = set ys" using assms(2) by (rule mset_eq_setD)
  moreover have "distinct (map fst ys)"
    using assms by (metis mset_eq_imp_distinct_iff mset_map)
  ultimately show ?thesis using assms(1) by (metis map_of_eq_Some_iff ext option.exhaust)
qed

lemma map_of_filter_fst: "map_of (filter (\<lambda>(n, x). P n) xs) n = (if P n then map_of xs n else None)"
  by (induction xs) auto

lemma distinct_filter_keys: "distinct (map fst xs) \<Longrightarrow> distinct (map fst (filter P xs))"
  by (induction xs) auto

lemma take_append_drop_eq: "take n xs = ys \<Longrightarrow> xs = ys @ drop n xs"
  by (metis append_take_drop_id)

end
