(* ===== verification/Go_Text.thy ===== *)
theory Go_Text
  imports Relay_Prelude "HOL-Library.Char_ord"
begin

text \<open>
  The part of Go's \<^verbatim>\<open>strings\<close>, \<^verbatim>\<open>unicode\<close>, \<^verbatim>\<open>unicode/utf8\<close> and \<^verbatim>\<open>strconv\<close> packages that the program
  calls.  A Go string is an immutable sequence of bytes and a HOL \<^typ>\<open>char\<close> is a byte, so a Go
  string is a \<^typ>\<open>string\<close>, valid UTF-8 or not.  A rune is an \<^typ>\<open>int\<close>.  The two Unicode tables
  that no ASCII text consults (simple case folding and lower-casing of non-ASCII runes) are
  arguments of the functions that use them.
\<close>

section \<open>Bytes and character classes\<close>

abbreviation byte :: "char \<Rightarrow> int" where
  "byte c \<equiv> of_char c"

definition between :: "int \<Rightarrow> int \<Rightarrow> char \<Rightarrow> bool" where
  "between lo hi c \<longleftrightarrow> lo \<le> byte c \<and> byte c \<le> hi"

definition is_digit :: "char \<Rightarrow> bool" where
  "is_digit c \<longleftrightarrow> between 48 57 c"

definition is_upper :: "char \<Rightarrow> bool" where
  "is_upper c \<longleftrightarrow> between 65 90 c"

definition is_lower :: "char \<Rightarrow> bool" where
  "is_lower c \<longleftrightarrow> between 97 122 c"

definition is_alpha :: "char \<Rightarrow> bool" where
  "is_alpha c \<longleftrightarrow> is_upper c \<or> is_lower c"

definition is_alnum :: "char \<Rightarrow> bool" where
  "is_alnum c \<longleftrightarrow> is_alpha c \<or> is_digit c"

lemmas char_class_defs =
  between_def is_digit_def is_upper_def is_lower_def is_alpha_def is_alnum_def

lemma byte_range: "0 \<le> byte c" "byte c < 256"
proof -
  have eq: "byte c = int (of_char c)"
    by (rule of_nat_of_char [symmetric])
  have "of_char c < (256 :: nat)" by simp
  then show "byte c < 256" unfolding eq by linarith
  show "0 \<le> byte c" unfolding eq by simp
qed

lemma byte_inject [simp]: "byte c = byte d \<longleftrightarrow> c = d"
  by simp

section \<open>UTF-8\<close>

definition RuneError :: int where
  "RuneError = 65533"

definition continuation :: "char \<Rightarrow> bool" where
  "continuation c \<longleftrightarrow> between 128 191 c"

text \<open>\<^verbatim>\<open>utf8.DecodeRuneInString\<close>: the first rune and its width; an invalid encoding is one
  byte wide and decodes to \<^const>\<open>RuneError\<close>.\<close>

definition DecodeRune :: "string \<Rightarrow> int \<times> nat" where
  "DecodeRune s = (case s of
     [] \<Rightarrow> (RuneError, 0)
   | c0 # cs \<Rightarrow>
       (if byte c0 < 128 then (byte c0, 1)
        else if between 194 223 c0 then
          (case cs of
             c1 # _ \<Rightarrow> if continuation c1 then ((byte c0 - 192) * 64 + (byte c1 - 128), 2)
                      else (RuneError, 1)
           | _ \<Rightarrow> (RuneError, 1))
        else if between 224 239 c0 then
          (case cs of
             c1 # c2 # _ \<Rightarrow>
               if between (if byte c0 = 224 then 160 else 128)
                          (if byte c0 = 237 then 159 else 191) c1 \<and> continuation c2
               then ((byte c0 - 224) * 4096 + (byte c1 - 128) * 64 + (byte c2 - 128), 3)
               else (RuneError, 1)
           | _ \<Rightarrow> (RuneError, 1))
        else if between 240 244 c0 then
          (case cs of
             c1 # c2 # c3 # _ \<Rightarrow>
               if between (if byte c0 = 240 then 144 else 128)
                          (if byte c0 = 244 then 143 else 191) c1
                  \<and> continuation c2 \<and> continuation c3
               then ((byte c0 - 240) * 262144 + (byte c1 - 128) * 4096
                      + (byte c2 - 128) * 64 + (byte c3 - 128), 4)
               else (RuneError, 1)
           | _ \<Rightarrow> (RuneError, 1))
        else (RuneError, 1)))"

lemma DecodeRune_width: "s \<noteq> [] \<Longrightarrow> 0 < snd (DecodeRune s)"
  by (auto simp: DecodeRune_def split: list.splits)

lemma DecodeRune_ascii [simp]: "byte c < 128 \<Longrightarrow> DecodeRune (c # cs) = (byte c, 1)"
  by (simp add: DecodeRune_def)

text \<open>\<^verbatim>\<open>for _, r := range s\<close>.\<close>

function runes :: "string \<Rightarrow> int list" where
  "runes s = (if s = [] then [] else fst (DecodeRune s) # runes (drop (snd (DecodeRune s)) s))"
  by pat_completeness auto
termination
proof (relation "measure length")
  fix s :: string
  assume "s \<noteq> []"
  then have "0 < snd (DecodeRune s)" by (rule DecodeRune_width)
  then show "(drop (snd (DecodeRune s)) s, s) \<in> measure length"
    using \<open>s \<noteq> []\<close> by (cases s) auto
qed simp

declare runes.simps [simp del]

lemma runes_Nil [simp]: "runes [] = []"
  by (simp add: runes.simps)

lemma runes_ascii_Cons [simp]: "byte c < 128 \<Longrightarrow> runes (c # cs) = byte c # runes cs"
  by (subst runes.simps) simp

lemma runes_ascii: "\<forall>c\<in>set s. byte c < 128 \<Longrightarrow> runes s = map of_char s"
  by (induction s) auto

text \<open>\<^verbatim>\<open>utf8.Valid\<close>: no position decodes to a one-byte \<^const>\<open>RuneError\<close>.\<close>

function utf8_Valid :: "string \<Rightarrow> bool" where
  "utf8_Valid s =
     (if s = [] then True
      else if DecodeRune s = (RuneError, 1) then False
      else utf8_Valid (drop (snd (DecodeRune s)) s))"
  by pat_completeness auto
termination
proof (relation "measure length")
  fix s :: string
  assume "s \<noteq> []" "DecodeRune s \<noteq> (RuneError, 1)"
  then have "0 < snd (DecodeRune s)" by (intro DecodeRune_width)
  then show "(drop (snd (DecodeRune s)) s, s) \<in> measure length"
    using \<open>s \<noteq> []\<close> by (cases s) auto
qed simp

declare utf8_Valid.simps [simp del]

lemma utf8_Valid_Nil [simp]: "utf8_Valid []"
  by (simp add: utf8_Valid.simps)

lemma utf8_Valid_ascii_Cons [simp]: "byte c < 128 \<Longrightarrow> utf8_Valid (c # cs) \<longleftrightarrow> utf8_Valid cs"
  by (subst utf8_Valid.simps) (auto simp: RuneError_def)

lemma utf8_Valid_ascii: "\<forall>c\<in>set s. byte c < 128 \<Longrightarrow> utf8_Valid s"
  by (induction s) auto

text \<open>\<^verbatim>\<open>utf8.AppendRune\<close>: surrogates and runes out of range are written as \<^const>\<open>RuneError\<close>.\<close>

definition EncodeRune :: "int \<Rightarrow> string" where
  "EncodeRune r =
     (let r = (if r < 0 \<or> r > 1114111 \<or> (55296 \<le> r \<and> r \<le> 57343) then RuneError else r) in
      if r < 128 then [char_of r]
      else if r < 2048 then [char_of (192 + r div 64), char_of (128 + r mod 64)]
      else if r < 65536 then
        [char_of (224 + r div 4096), char_of (128 + r div 64 mod 64), char_of (128 + r mod 64)]
      else [char_of (240 + r div 262144), char_of (128 + r div 4096 mod 64),
            char_of (128 + r div 64 mod 64), char_of (128 + r mod 64)])"

text \<open>\<^verbatim>\<open>unicode.IsControl\<close> (the category Cc).\<close>

definition IsControl :: "int \<Rightarrow> bool" where
  "IsControl r \<longleftrightarrow> (0 \<le> r \<and> r < 32) \<or> (127 \<le> r \<and> r < 160)"

section \<open>strings\<close>

definition HasPrefix :: "string \<Rightarrow> string \<Rightarrow> bool" where
  "HasPrefix s p \<longleftrightarrow> take (length p) s = p"

definition HasSuffix :: "string \<Rightarrow> string \<Rightarrow> bool" where
  "HasSuffix s p \<longleftrightarrow> length p \<le> length s \<and> drop (length s - length p) s = p"

definition TrimSuffix :: "string \<Rightarrow> string \<Rightarrow> string" where
  "TrimSuffix s p = (if HasSuffix s p then take (length s - length p) s else s)"

lemma HasPrefix_iff: "HasPrefix s p \<longleftrightarrow> (\<exists>t. s = p @ t)"
  by (metis HasPrefix_def append_eq_conv_conj)

lemma HasSuffix_iff: "HasSuffix s p \<longleftrightarrow> (\<exists>t. s = t @ p)"
  by (auto simp: HasSuffix_def) (metis append_take_drop_id)

lemma TrimSuffix_append: "TrimSuffix (t @ p) p = t"
  by (simp add: TrimSuffix_def HasSuffix_def)

text \<open>
  \<^verbatim>\<open>strings.TrimSpace\<close> removes leading and trailing runes for which \<^verbatim>\<open>unicode.IsSpace\<close> holds.
  UTF-8 is prefix-free and self-synchronising, so the first (last) rune is a given space
  exactly when its encoding is a prefix (suffix) of the bytes.
\<close>

definition space_runes :: "int list" where
  "space_runes = [9, 10, 11, 12, 13, 32, 133, 160, 5760,
     8192, 8193, 8194, 8195, 8196, 8197, 8198, 8199, 8200, 8201, 8202,
     8232, 8233, 8239, 8287, 12288]"

definition leading_space :: "string \<Rightarrow> nat" where
  "leading_space s = (case DecodeRune s of (r, w) \<Rightarrow> if r \<in> set space_runes then w else 0)"

definition trailing_space :: "string \<Rightarrow> nat" where
  "trailing_space s =
     (case filter (\<lambda>e. HasSuffix s e) (map EncodeRune space_runes) of
        [] \<Rightarrow> 0 | e # _ \<Rightarrow> length e)"

function TrimLeftSpace :: "string \<Rightarrow> string" where
  "TrimLeftSpace s =
     (if s = [] \<or> leading_space s = 0 then s else TrimLeftSpace (drop (leading_space s) s))"
  by pat_completeness auto
termination by (relation "measure length") auto

function TrimRightSpace :: "string \<Rightarrow> string" where
  "TrimRightSpace s =
     (if s = [] \<or> trailing_space s = 0 then s
      else TrimRightSpace (take (length s - trailing_space s) s))"
  by pat_completeness auto
termination by (relation "measure length") auto

declare TrimLeftSpace.simps [simp del] TrimRightSpace.simps [simp del]

definition TrimSpace :: "string \<Rightarrow> string" where
  "TrimSpace s = TrimRightSpace (TrimLeftSpace s)"

lemma length_TrimLeftSpace: "length (TrimLeftSpace s) \<le> length s"
proof (induction s rule: TrimLeftSpace.induct)
  case (1 s)
  show ?case
  proof (cases "s = [] \<or> leading_space s = 0")
    case True
    then show ?thesis by (subst TrimLeftSpace.simps) simp
  next
    case False
    with 1 show ?thesis by (subst TrimLeftSpace.simps) simp
  qed
qed

lemma length_TrimRightSpace: "length (TrimRightSpace s) \<le> length s"
proof (induction s rule: TrimRightSpace.induct)
  case (1 s)
  show ?case
  proof (cases "s = [] \<or> trailing_space s = 0")
    case True
    then show ?thesis by (subst TrimRightSpace.simps) simp
  next
    case False
    with 1 show ?thesis by (subst TrimRightSpace.simps) simp
  qed
qed

lemma TrimLeftSpace_fixed: "TrimLeftSpace s = s \<longleftrightarrow> s = [] \<or> leading_space s = 0"
proof
  assume fixed: "TrimLeftSpace s = s"
  show "s = [] \<or> leading_space s = 0"
  proof (rule ccontr)
    assume *: "\<not> (s = [] \<or> leading_space s = 0)"
    then have "TrimLeftSpace s = TrimLeftSpace (drop (leading_space s) s)"
      by (subst TrimLeftSpace.simps) simp
    then have "length s \<le> length (drop (leading_space s) s)"
      using fixed length_TrimLeftSpace [of "drop (leading_space s) s"] by simp
    with * show False by (cases s) auto
  qed
qed (subst TrimLeftSpace.simps, simp)

lemma TrimRightSpace_fixed: "TrimRightSpace s = s \<longleftrightarrow> s = [] \<or> trailing_space s = 0"
proof
  assume fixed: "TrimRightSpace s = s"
  show "s = [] \<or> trailing_space s = 0"
  proof (rule ccontr)
    assume *: "\<not> (s = [] \<or> trailing_space s = 0)"
    then have "TrimRightSpace s = TrimRightSpace (take (length s - trailing_space s) s)"
      by (subst TrimRightSpace.simps) simp
    then have "length s \<le> length (take (length s - trailing_space s) s)"
      using fixed length_TrimRightSpace [of "take (length s - trailing_space s) s"] by simp
    with * show False by (cases s) auto
  qed
qed (subst TrimRightSpace.simps, simp)

text \<open>The only use the program makes of \<^verbatim>\<open>TrimSpace\<close> is the test whether it changes the text.\<close>

lemma TrimSpace_fixed:
  "TrimSpace s = s \<longleftrightarrow> s = [] \<or> (leading_space s = 0 \<and> trailing_space s = 0)"
proof
  assume *: "TrimSpace s = s"
  then have "length s \<le> length (TrimLeftSpace s)"
    using length_TrimRightSpace [of "TrimLeftSpace s"] by (simp add: TrimSpace_def)
  moreover have "length (TrimLeftSpace s) < length s" if "s \<noteq> []" "leading_space s \<noteq> 0"
  proof -
    have "length (TrimLeftSpace s) \<le> length s - leading_space s"
      using that length_TrimLeftSpace [of "drop (leading_space s) s"]
      by (simp add: TrimLeftSpace.simps [of s])
    also have "\<dots> < length s" using that by (cases s) auto
    finally show ?thesis .
  qed
  ultimately have "s = [] \<or> leading_space s = 0" by linarith
  then show "s = [] \<or> (leading_space s = 0 \<and> trailing_space s = 0)"
    using * by (auto simp: TrimSpace_def TrimLeftSpace_fixed [THEN iffD2] TrimRightSpace_fixed)
qed (auto simp: TrimSpace_def TrimLeftSpace_fixed [THEN iffD2] TrimRightSpace_fixed [THEN iffD2])

text \<open>\<^verbatim>\<open>strings.Split\<close> and \<^verbatim>\<open>strings.Cut\<close> with a one-byte separator.\<close>

fun Split :: "char \<Rightarrow> string \<Rightarrow> string list" where
  "Split c [] = [[]]"
| "Split c (x # xs) =
     (if x = c then [] # Split c xs
      else (case Split c xs of [] \<Rightarrow> [[x]] | y # ys \<Rightarrow> (x # y) # ys))"

fun Join :: "string list \<Rightarrow> string \<Rightarrow> string" where
  "Join [] sep = []"
| "Join [x] sep = x"
| "Join (x # y # ys) sep = x @ sep @ Join (y # ys) sep"

lemma Split_nonempty [simp]: "Split c s \<noteq> []"
  by (induction s) (auto split: list.splits)

lemma Join_Split: "Join (Split c s) [c] = s"
proof (induction s)
  case (Cons x xs)
  obtain y ys where "Split c xs = y # ys" by (cases "Split c xs") auto
  with Cons show ?case by (cases ys) auto
qed simp

lemma Split_no_sep: "p \<in> set (Split c s) \<Longrightarrow> c \<notin> set p"
  by (induction s arbitrary: p) (auto split: list.splits if_splits)

definition Cut :: "char \<Rightarrow> string \<Rightarrow> (string \<times> string) option" where
  "Cut c s = (if c \<in> set s then Some (takeWhile (\<lambda>x. x \<noteq> c) s, tl (dropWhile (\<lambda>x. x \<noteq> c) s))
              else None)"

lemma Cut_Some: "Cut c s = Some (a, b) \<longleftrightarrow> s = a @ c # b \<and> c \<notin> set a"
proof
  assume *: "Cut c s = Some (a, b)"
  then have "c \<in> set s" by (auto simp: Cut_def split: if_splits)
  then obtain u v where "s = u @ c # v" "c \<notin> set u" by (meson split_list_first)
  moreover from this have "\<forall>x\<in>set u. x \<noteq> c" by auto
  ultimately show "s = a @ c # b \<and> c \<notin> set a"
    using * by (simp add: Cut_def takeWhile_append dropWhile_append)
next
  assume *: "s = a @ c # b \<and> c \<notin> set a"
  then have "\<forall>x\<in>set a. x \<noteq> c" by auto
  with * show "Cut c s = Some (a, b)"
    by (simp add: Cut_def takeWhile_append dropWhile_append)
qed

text \<open>
  \<^verbatim>\<open>strings.EqualFold\<close>.  For two ASCII runes the comparison is by letter case; for any other
  pair Go walks the orbit of \<^verbatim>\<open>unicode.SimpleFold\<close>, which is the argument \<open>orbit\<close>.
\<close>

definition fold_pair :: "(int \<Rightarrow> int \<Rightarrow> bool) \<Rightarrow> int \<Rightarrow> int \<Rightarrow> bool" where
  "fold_pair orbit a b \<longleftrightarrow> a = b \<or>
     (if max a b < 128 then 65 \<le> min a b \<and> min a b \<le> 90 \<and> max a b = min a b + 32
      else orbit (min a b) (max a b))"

definition EqualFold :: "(int \<Rightarrow> int \<Rightarrow> bool) \<Rightarrow> string \<Rightarrow> string \<Rightarrow> bool" where
  "EqualFold orbit s t \<longleftrightarrow> list_all2 (fold_pair orbit) (runes s) (runes t)"

lemma EqualFold_refl [simp]: "EqualFold orbit s s"
  by (simp add: EqualFold_def fold_pair_def list.rel_refl)

lemma EqualFold_sym: "EqualFold orbit s t \<longleftrightarrow> EqualFold orbit t s"
proof -
  have "fold_pair orbit a b = fold_pair orbit b a" for a b
    by (auto simp: fold_pair_def max.commute min.commute)
  then show ?thesis
    unfolding EqualFold_def by (metis (mono_tags, lifting) list.rel_flip list.rel_mono_strong conversepI conversepD)
qed

section \<open>strconv\<close>

definition int64 :: "int \<Rightarrow> bool" where
  "int64 n \<longleftrightarrow> - 9223372036854775808 \<le> n \<and> n \<le> 9223372036854775807"

text \<open>Signed 64-bit arithmetic wraps around.\<close>

definition wrap64 :: "int \<Rightarrow> int" where
  "wrap64 n = (n + 9223372036854775808) mod 18446744073709551616 - 9223372036854775808"

lemma wrap64_id [simp]: "int64 n \<Longrightarrow> wrap64 n = n"
  by (simp add: wrap64_def int64_def)

lemma int64_wrap64 [simp]: "int64 (wrap64 n)"
  using pos_mod_bound [of 18446744073709551616 "n + 9223372036854775808"]
  by (simp add: wrap64_def int64_def)

lemma wrap64_word: "wrap64 n = sint (word_of_int n :: 64 word)"
  by (simp add: wrap64_def sint_sbintrunc' signed_take_bit_eq_take_bit_shift take_bit_eq_mod)

fun digits_value :: "int \<Rightarrow> string \<Rightarrow> int option" where
  "digits_value acc [] = Some acc"
| "digits_value acc (c # cs) =
     (if is_digit c then digits_value (acc * 10 + (byte c - 48)) cs else None)"

definition sign_split :: "string \<Rightarrow> bool \<times> string" where
  "sign_split s = (case s of
     [] \<Rightarrow> (False, [])
   | c # cs \<Rightarrow> if c = CHR ''-'' then (True, cs) else if c = CHR ''+'' then (False, cs) else (False, s))"

text \<open>\<^verbatim>\<open>strconv.ParseInt(s, 10, 64)\<close>, and \<^verbatim>\<open>strconv.Atoi\<close> where \<^verbatim>\<open>int\<close> has 64 bits.\<close>

definition ParseInt64 :: "string \<Rightarrow> int option" where
  "ParseInt64 s = (case sign_split s of (neg, ds) \<Rightarrow>
     if ds = [] then None
     else case digits_value 0 ds of
       None \<Rightarrow> None
     | Some n \<Rightarrow> let m = (if neg then - n else n) in if int64 m then Some m else None)"

abbreviation Atoi :: "string \<Rightarrow> int option" where
  "Atoi \<equiv> ParseInt64"

function fmt_uint :: "int \<Rightarrow> string" where
  "fmt_uint n = (if n < 10 then [char_of (48 + n)] else fmt_uint (n div 10) @ [char_of (48 + n mod 10)])"
  by pat_completeness auto
termination by (relation "measure nat") auto

declare fmt_uint.simps [simp del]

definition FormatInt :: "int \<Rightarrow> string" where
  "FormatInt n = (if n < 0 then CHR ''-'' # fmt_uint (- n) else fmt_uint n)"

abbreviation Itoa :: "int \<Rightarrow> string" where
  "Itoa \<equiv> FormatInt"

definition FormatBool :: "bool \<Rightarrow> string" where
  "FormatBool b = (if b then ''true'' else ''false'')"

lemma digits_value_append:
  "digits_value acc (xs @ ys) = Option.bind (digits_value acc xs) (\<lambda>a. digits_value a ys)"
  by (induction xs arbitrary: acc) auto

lemma byte_char_of: "0 \<le> n \<Longrightarrow> n < 256 \<Longrightarrow> byte (char_of n) = n"
  by (simp add: take_bit_eq_mod)

lemma is_digit_char_of: "0 \<le> (d::int) \<Longrightarrow> d < 10 \<Longrightarrow> is_digit (char_of (48 + d))"
  by (simp add: is_digit_def between_def byte_char_of del: of_char_of)

lemma digit_value_char_of:
  "0 \<le> (d::int) \<Longrightarrow> d < 10 \<Longrightarrow> digits_value acc [char_of (48 + d)] = Some (acc * 10 + d)"
  by (simp add: is_digit_char_of byte_char_of del: of_char_of)

lemma fmt_uint_digits: "0 \<le> n \<Longrightarrow> c \<in> set (fmt_uint n) \<Longrightarrow> is_digit c"
proof (induction n rule: fmt_uint.induct)
  case (1 n)
  show ?case
  proof (cases "n < 10")
    case True
    with 1 show ?thesis
      by (subst (asm) (2) fmt_uint.simps) (auto intro: is_digit_char_of)
  next
    case False
    with 1 show ?thesis
      by (subst (asm) (2) fmt_uint.simps) (auto intro: is_digit_char_of)
  qed
qed

lemma fmt_uint_nonempty [simp]: "fmt_uint n \<noteq> []"
  by (subst fmt_uint.simps) simp

lemma digits_value_fmt_uint: "0 \<le> n \<Longrightarrow> digits_value 0 (fmt_uint n) = Some n"
proof (induction n rule: fmt_uint.induct)
  case (1 n)
  show ?case
  proof (cases "n < 10")
    case True
    with "1.prems" show ?thesis
      using digit_value_char_of [of n 0] by (subst fmt_uint.simps) (simp del: digits_value.simps)
  next
    case False
    with 1 have "digits_value 0 (fmt_uint (n div 10)) = Some (n div 10)" by simp
    moreover have "digits_value (n div 10) [char_of (48 + n mod 10)] = Some (n div 10 * 10 + n mod 10)"
      by (rule digit_value_char_of) simp_all
    ultimately show ?thesis using False
      by (subst fmt_uint.simps) (simp add: digits_value_append del: digits_value.simps)
  qed
qed

lemma digit_not_sign: "is_digit c \<Longrightarrow> c \<noteq> CHR ''-'' \<and> c \<noteq> CHR ''+''"
  by (auto simp: is_digit_def between_def)

lemma sign_split_fmt_uint: "0 \<le> n \<Longrightarrow> sign_split (fmt_uint n) = (False, fmt_uint n)"
  using fmt_uint_digits [of n] digit_not_sign
  by (auto simp: sign_split_def split: list.splits)

theorem ParseInt64_FormatInt: "int64 n \<Longrightarrow> ParseInt64 (FormatInt n) = Some n"
  using sign_split_fmt_uint [of n] digits_value_fmt_uint [of n] digits_value_fmt_uint [of "- n"]
  by (auto simp: ParseInt64_def FormatInt_def sign_split_def Let_def)

lemma ParseInt64_int64: "ParseInt64 s = Some n \<Longrightarrow> int64 n"
  by (auto simp: ParseInt64_def Let_def split: prod.splits option.splits if_splits)

end
