(* ===== verification/Go_Duration.thy ===== *)
theory Go_Duration
  imports Go_Text
begin

text \<open>
  Go's \<^verbatim>\<open>time.Duration\<close>: a signed 64-bit count of nanoseconds, here an \<^typ>\<open>int\<close> in that range,
  with \<^verbatim>\<open>time.ParseDuration\<close> and \<^verbatim>\<open>Duration.String\<close>.  The configuration prints every default
  with \<^verbatim>\<open>String\<close> and parses it back, so the round trip of the two is what makes a default
  effective.  The fractional part of a component goes through \<^verbatim>\<open>float64\<close> in Go; the model rounds
  the two operations (one division, one product) to 53 bits, to nearest, ties to even.
\<close>

section \<open>Units\<close>

definition Nanosecond :: int where "Nanosecond = 1"
definition Microsecond :: int where "Microsecond = 1000"
definition Millisecond :: int where "Millisecond = 1000000"
definition Second :: int where "Second = 1000000000"
definition Minute :: int where "Minute = 60000000000"
definition Hour :: int where "Hour = 3600000000000"

lemmas time_units = Nanosecond_def Microsecond_def Millisecond_def Second_def Minute_def Hour_def

definition max_uint63 :: int where
  "max_uint63 = 9223372036854775808"

text \<open>\<^verbatim>\<open>unitMap\<close>; the two spellings of the micro sign are U+00B5 and U+03BC in UTF-8.\<close>

definition micro_sign :: string where
  "micro_sign = [char_of (194::int), char_of (181::int)]"

definition greek_mu :: string where
  "greek_mu = [char_of (206::int), char_of (188::int)]"

definition unit_of :: "string \<Rightarrow> int option" where
  "unit_of u =
     (if u = ''ns'' then Some Nanosecond
      else if u = ''us'' \<or> u = micro_sign @ ''s'' \<or> u = greek_mu @ ''s'' then Some Microsecond
      else if u = ''ms'' then Some Millisecond
      else if u = ''s'' then Some Second
      else if u = ''m'' then Some Minute
      else if u = ''h'' then Some Hour
      else None)"

section \<open>The float64 arithmetic of a fraction\<close>

function bit_len :: "int \<Rightarrow> nat" where
  "bit_len n = (if n \<le> 0 then 0 else Suc (bit_len (n div 2)))"
  by pat_completeness auto
termination by (relation "measure nat") auto

declare bit_len.simps [simp del]

definition half_even :: "int \<Rightarrow> int \<Rightarrow> int" where
  "half_even a b =
     (let q = a div b; r = a mod b in
      if 2 * r < b then q else if 2 * r > b then q + 1 else if even q then q else q + 1)"

text \<open>The double nearest to \<open>n / d\<close> (both positive), again as a quotient.\<close>

definition float64 :: "int \<Rightarrow> int \<Rightarrow> int \<times> int" where
  "float64 n d =
     (let e0 = int (bit_len n) - int (bit_len d) - 53;
          scaled = (\<lambda>e. (n * 2 ^ nat (- e), d * 2 ^ nat e));
          e = (case scaled e0 of (a, b) \<Rightarrow> if a div b \<ge> 2 ^ 53 then e0 + 1 else e0)
      in case scaled e of (a, b) \<Rightarrow> (half_even a b * 2 ^ nat e, 2 ^ nat (- e)))"

definition fraction_ns :: "int \<Rightarrow> int \<Rightarrow> int \<Rightarrow> int" where
  "fraction_ns f unit scale =
     (case (float64 f 1, float64 unit scale) of ((fn, fd), (un, ud)) \<Rightarrow>
        case float64 (fn * un) (fd * ud) of (pn, pd) \<Rightarrow> pn div pd)"

section \<open>ParseDuration\<close>

fun leadingInt :: "int \<Rightarrow> string \<Rightarrow> (int \<times> string) option" where
  "leadingInt x [] = Some (x, [])"
| "leadingInt x (c # cs) =
     (if \<not> is_digit c then Some (x, c # cs)
      else if x > max_uint63 div 10 then None
      else if x * 10 + (byte c - 48) > max_uint63 then None
      else leadingInt (x * 10 + (byte c - 48)) cs)"

fun leadingFraction :: "int \<Rightarrow> int \<Rightarrow> bool \<Rightarrow> string \<Rightarrow> int \<times> int \<times> string" where
  "leadingFraction x scale overflow [] = (x, scale, [])"
| "leadingFraction x scale overflow (c # cs) =
     (if \<not> is_digit c then (x, scale, c # cs)
      else if overflow \<or> x > (max_uint63 - 1) div 10 then leadingFraction x scale True cs
      else if x * 10 + (byte c - 48) > max_uint63 then leadingFraction x scale True cs
      else leadingFraction (x * 10 + (byte c - 48)) (scale * 10) False cs)"

definition unit_char :: "char \<Rightarrow> bool" where
  "unit_char c \<longleftrightarrow> c \<noteq> CHR ''.'' \<and> \<not> is_digit c"

text \<open>One iteration of the loop: a number with an optional fraction, then a unit.\<close>

definition number_part :: "string \<Rightarrow> (int \<times> int \<times> int \<times> string) option" where
  "number_part s =
     (if s = [] \<or> \<not> (hd s = CHR ''.'' \<or> is_digit (hd s)) then None
      else case leadingInt 0 s of
        None \<Rightarrow> None
      | Some (v, s1) \<Rightarrow>
          (case s1 of
             [] \<Rightarrow> if length s1 = length s then None else Some (v, 0, 1, s1)
           | c # s1' \<Rightarrow>
               if c = CHR ''.'' then
                 (case leadingFraction 0 1 False s1' of (f, scale, s2) \<Rightarrow>
                    if length s1 = length s \<and> length s2 = length s1' then None
                    else Some (v, f, scale, s2))
               else if length s1 = length s then None else Some (v, 0, 1, s1)))"

definition component :: "string \<Rightarrow> (int \<times> string) option" where
  "component s =
     (case number_part s of
        None \<Rightarrow> None
      | Some (v, f, scale, s2) \<Rightarrow>
          (let u = takeWhile unit_char s2 in
           if u = [] then None
           else case unit_of u of
             None \<Rightarrow> None
           | Some unit \<Rightarrow>
               if v > max_uint63 div unit then None
               else if f > 0 \<and> v * unit + fraction_ns f unit scale > max_uint63 then None
               else Some (if f > 0 then v * unit + fraction_ns f unit scale else v * unit,
                          dropWhile unit_char s2)))"

lemma leadingInt_length: "leadingInt x s = Some (v, t) \<Longrightarrow> length t \<le> length s"
  by (induction x s rule: leadingInt.induct) (auto split: if_splits)

lemma leadingFraction_length: "length (snd (snd (leadingFraction x sc ov s))) \<le> length s"
  by (induction x sc ov s rule: leadingFraction.induct) (auto split: if_splits)

lemma number_part_length:
  assumes "number_part s = Some (v, f, scale, t)"
  shows "length t \<le> length s"
proof -
  from assms obtain x s1 where s1: "leadingInt 0 s = Some (x, s1)"
    by (auto simp: number_part_def split: if_splits option.splits)
  have "length t \<le> length s1"
    using assms s1 leadingFraction_length [of 0 1 False "tl s1"]
    by (auto simp: number_part_def split: if_splits list.splits prod.splits)
  with leadingInt_length [OF s1] show ?thesis by linarith
qed

lemma component_shrinks:
  assumes "component s = Some (v, t)"
  shows "length t < length s"
proof -
  from assms obtain x f sc s2 where n: "number_part s = Some (x, f, sc, s2)"
    and u: "takeWhile unit_char s2 \<noteq> []" and t: "t = dropWhile unit_char s2"
    by (auto simp: component_def Let_def split: if_splits option.splits)
  have "length (takeWhile unit_char s2) + length t = length s2"
    unfolding t by (metis length_append takeWhile_dropWhile_id)
  with u number_part_length [OF n] show ?thesis by (cases "takeWhile unit_char s2") auto
qed

function ParseDuration_loop :: "int \<Rightarrow> string \<Rightarrow> int option" where
  "ParseDuration_loop d s =
     (if s = [] then Some d
      else case component s of
        None \<Rightarrow> None
      | Some (v, t) \<Rightarrow>
          if (d + v) mod 18446744073709551616 > max_uint63 then None
          else ParseDuration_loop ((d + v) mod 18446744073709551616) t)"
  by pat_completeness auto
termination
  by (relation "measure (\<lambda>(d, s). length s)") (auto dest: component_shrinks)

declare ParseDuration_loop.simps [simp del]

definition ParseDuration :: "string \<Rightarrow> int option" where
  "ParseDuration s =
     (case sign_split s of (neg, ds) \<Rightarrow>
        if ds = ''0'' then Some 0
        else if ds = [] then None
        else case ParseDuration_loop 0 ds of
          None \<Rightarrow> None
        | Some d \<Rightarrow> if neg then Some (- d) else if d > max_uint63 - 1 then None else Some d)"

section \<open>Duration.String\<close>

fun fmtFrac :: "nat \<Rightarrow> int \<Rightarrow> bool \<Rightarrow> string \<Rightarrow> string \<times> int" where
  "fmtFrac 0 v pr acc = (if pr then CHR ''.'' # acc else acc, v)"
| "fmtFrac (Suc prec) v pr acc =
     (let pr' = (pr \<or> v mod 10 \<noteq> 0) in
      fmtFrac prec (v div 10) pr' (if pr' then char_of (48 + v mod 10) # acc else acc))"

definition Duration_String :: "int \<Rightarrow> string" where
  "Duration_String d =
     (let u = \<bar>d\<bar>;
          body =
            (if u = 0 then ''0s''
             else if u < Microsecond then fmt_uint u @ ''ns''
             else if u < Millisecond then
               (case fmtFrac 3 u False (micro_sign @ ''s'') of (f, q) \<Rightarrow> fmt_uint q @ f)
             else if u < Second then
               (case fmtFrac 6 u False ''ms'' of (f, q) \<Rightarrow> fmt_uint q @ f)
             else
               (case fmtFrac 9 u False ''s'' of (f, q) \<Rightarrow>
                  (if q div 60 > 0
                   then (if q div 60 div 60 > 0 then fmt_uint (q div 60 div 60) @ ''h'' else [])
                        @ fmt_uint (q div 60 mod 60) @ ''m''
                   else []) @ fmt_uint (q mod 60) @ f))
      in if d < 0 then CHR ''-'' # body else body)"

section \<open>Round trip\<close>

lemma digits_value_mono: "digits_value a ds = Some n \<Longrightarrow> a \<ge> 0 \<Longrightarrow> a \<le> n"
proof (induction ds arbitrary: a)
  case (Cons c cs)
  then have c: "is_digit c" and r: "digits_value (a * 10 + (byte c - 48)) cs = Some n"
    by (auto split: if_splits)
  have "0 \<le> byte c - 48" using c by (simp add: is_digit_def between_def)
  then have "a \<le> a * 10 + (byte c - 48)" using Cons.prems by linarith
  moreover have "a * 10 + (byte c - 48) \<le> n"
    using Cons.IH [OF r] Cons.prems \<open>0 \<le> byte c - 48\<close> by simp
  ultimately show ?case by linarith
qed simp

definition stops_int :: "string \<Rightarrow> bool" where
  "stops_int t \<longleftrightarrow> (case t of [] \<Rightarrow> True | c # _ \<Rightarrow> \<not> is_digit c)"

lemma leadingInt_digits:
  assumes "digits_value a ds = Some n" and "0 \<le> a" and "n \<le> max_uint63" and "stops_int t"
  shows "leadingInt a (ds @ t) = Some (n, t)"
  using assms
proof (induction ds arbitrary: a)
  case Nil
  then show ?case by (cases t) (auto simp: stops_int_def)
next
  case (Cons c cs)
  then have c: "is_digit c" and r: "digits_value (a * 10 + (byte c - 48)) cs = Some n"
    by (auto split: if_splits)
  have c0: "0 \<le> byte c - 48" using c by (simp add: is_digit_def between_def)
  have le: "a * 10 + (byte c - 48) \<le> n"
    using digits_value_mono [OF r] Cons.prems(2) c0 by simp
  with c0 Cons.prems(3) have "a \<le> max_uint63 div 10" by (simp add: max_uint63_def)
  with c le r Cons.IH Cons.prems c0 show ?case by simp
qed

lemma leadingInt_fmt_uint:
  "0 \<le> n \<Longrightarrow> n \<le> max_uint63 \<Longrightarrow> stops_int t \<Longrightarrow> leadingInt 0 (fmt_uint n @ t) = Some (n, t)"
  by (rule leadingInt_digits [OF digits_value_fmt_uint]) auto

definition stops_unit :: "string \<Rightarrow> bool" where
  "stops_unit t \<longleftrightarrow> (case t of [] \<Rightarrow> True | c # _ \<Rightarrow> \<not> unit_char c)"

lemma takeWhile_unit:
  "\<forall>c\<in>set u. unit_char c \<Longrightarrow> stops_unit t \<Longrightarrow>
     takeWhile unit_char (u @ t) = u \<and> dropWhile unit_char (u @ t) = t"
  by (cases t) (auto simp: stops_unit_def takeWhile_append dropWhile_append)

text \<open>A printed number with a unit is read back, whatever component follows it.\<close>

lemma component_printed:
  assumes "0 \<le> n" and "n * k \<le> max_uint63" and "0 < k" and "unit_of u = Some k"
    and u: "u \<noteq> []" "\<forall>c\<in>set u. unit_char c" and t: "stops_unit t"
  shows "component (fmt_uint n @ u @ t) = Some (n * k, t)"
proof -
  have le: "n \<le> max_uint63 div k"
    using assms(2,3) zdiv_mono1 [of "n * k" max_uint63 k] by simp
  have "n * 1 \<le> n * k" using assms(1,3) by (intro mult_left_mono) auto
  then have "n \<le> max_uint63" using assms(2) by simp
  moreover have "stops_int (u @ t)"
    using u by (cases u) (auto simp: stops_int_def unit_char_def)
  ultimately have li: "leadingInt 0 (fmt_uint n @ u @ t) = Some (n, u @ t)"
    using assms(1) by (intro leadingInt_fmt_uint) auto
  have hd_digit: "is_digit (hd (fmt_uint n @ u @ t))"
    using fmt_uint_digits [OF assms(1)] by (cases "fmt_uint n") auto
  have "number_part (fmt_uint n @ u @ t) = Some (n, 0, 1, u @ t)"
    using li hd_digit u by (cases u) (auto simp: number_part_def unit_char_def)
  then show ?thesis
    using u takeWhile_unit [OF u(2) t] assms(4) le by (simp add: component_def Let_def)
qed

lemma stops_unit_printed: "0 \<le> n \<Longrightarrow> stops_unit (fmt_uint n @ t)"
  using fmt_uint_digits [of n]
  by (cases "fmt_uint n") (auto simp: stops_unit_def unit_char_def)

lemma fmtFrac_zero: "v mod 10 ^ prec = 0 \<Longrightarrow> fmtFrac prec v False acc = (acc, v div 10 ^ prec)"
proof (induction prec arbitrary: v)
  case (Suc n)
  from Suc.prems have dvd: "10 * 10 ^ n dvd v" by (simp add: mod_eq_0_iff_dvd)
  then have "10 dvd v" by (rule dvd_mult_left)
  then have "v mod 10 = 0" by simp
  moreover obtain w where "v = 10 * 10 ^ n * w" using dvd by (elim dvdE)
  then have "v div 10 = 10 ^ n * w" by simp
  then have "v div 10 mod 10 ^ n = 0" by simp
  ultimately show ?case
    using Suc.IH [of "v div 10"] by (simp add: zdiv_zmult2_eq)
qed simp

lemma ParseDuration_loop_step:
  assumes "0 \<le> n" "0 \<le> d" "d + n * k \<le> max_uint63" "0 < k" "unit_of u = Some k"
    and "u \<noteq> []" "\<forall>c\<in>set u. unit_char c" "stops_unit t"
  shows "ParseDuration_loop d (fmt_uint n @ u @ t) = ParseDuration_loop (d + n * k) t"
proof -
  have "0 \<le> n * k" using assms(1,4) by simp
  then have "component (fmt_uint n @ u @ t) = Some (n * k, t)"
    using assms by (intro component_printed) auto
  moreover have "(d + n * k) mod 18446744073709551616 = d + n * k"
    using \<open>0 \<le> n * k\<close> assms(2,3) by (simp add: max_uint63_def)
  ultimately show ?thesis
    using assms(3) by (simp add: ParseDuration_loop.simps [of d "fmt_uint n @ u @ t"])
qed

lemma loop_Nil [simp]: "ParseDuration_loop d [] = Some d"
  by (simp add: ParseDuration_loop.simps)

lemma stops_unit_Nil [simp]: "stops_unit []"
  by (simp add: stops_unit_def)

lemma unit_strings:
  "unit_of ''s'' = Some Second" "unit_of ''m'' = Some Minute" "unit_of ''h'' = Some Hour"
  "unit_of ''ms'' = Some Millisecond"
  by (simp_all add: unit_of_def micro_sign_def greek_mu_def)

lemma unit_chars: "unit_char CHR ''s''" "unit_char CHR ''m''" "unit_char CHR ''h''"
  by (simp_all add: unit_char_def is_digit_def between_def)

lemmas loop_second = ParseDuration_loop_step [of _ _ Second "''s''", simplified unit_strings unit_chars]
lemmas loop_minute = ParseDuration_loop_step [of _ _ Minute "''m''", simplified unit_strings unit_chars]
lemmas loop_hour = ParseDuration_loop_step [of _ _ Hour "''h''", simplified unit_strings unit_chars]
lemmas loop_milli = ParseDuration_loop_step [of _ _ Millisecond "''ms''", simplified unit_strings unit_chars]

text \<open>The durations the program uses as defaults: whole seconds, or whole milliseconds below one.\<close>

definition plain_duration :: "int \<Rightarrow> bool" where
  "plain_duration d \<longleftrightarrow> 0 \<le> d \<and> d < max_uint63 \<and>
     (d mod Second = 0 \<or> (d < Second \<and> d mod Millisecond = 0))"

lemma sign_split_printed: "0 \<le> n \<Longrightarrow> sign_split (fmt_uint n @ t) = (False, fmt_uint n @ t)"
  using fmt_uint_digits [of n] digit_not_sign
  by (cases "fmt_uint n") (auto simp: sign_split_def)

lemma ParseDuration_printed:
  assumes "0 \<le> n" and "t \<noteq> []" and "ParseDuration_loop 0 (fmt_uint n @ t) = Some d"
    and "d < max_uint63"
  shows "ParseDuration (fmt_uint n @ t) = Some d"
proof -
  have "fmt_uint n @ t \<noteq> ''0''"
    using assms(2) by (cases "fmt_uint n") auto
  then show ?thesis
    using assms sign_split_printed [of n t] by (simp add: ParseDuration_def)
qed

lemma String_zero: "Duration_String 0 = fmt_uint 0 @ ''s'' @ []"
  by (simp add: Duration_String_def fmt_uint.simps char_of_def)

lemma String_millis:
  assumes "Millisecond \<le> d" "d < Second" "d mod Millisecond = 0"
  shows "Duration_String d = fmt_uint (d div Millisecond) @ ''ms'' @ []"
  using assms fmtFrac_zero [of d 6 "''ms''"] by (simp add: Duration_String_def time_units)

lemma String_seconds:
  assumes "Second \<le> d" "d mod Second = 0"
  defines "q \<equiv> d div Second"
  shows "Duration_String d =
     (if 0 < q div 60 div 60 then fmt_uint (q div 60 div 60) @ ''h'' @ fmt_uint (q div 60 mod 60) @ ''m''
        @ fmt_uint (q mod 60) @ ''s'' @ []
      else if 0 < q div 60 then fmt_uint (q div 60 mod 60) @ ''m'' @ fmt_uint (q mod 60) @ ''s'' @ []
      else fmt_uint (q mod 60) @ ''s'' @ [])"
proof -
  have "fmtFrac 9 d False ''s'' = (''s'', q)"
    using fmtFrac_zero [of d 9 "''s''"] assms(2) by (simp add: time_units q_def)
  moreover have "q div 60 > 0" if "q div 60 div 60 > 0" using that by linarith
  ultimately show ?thesis
    using assms(1) by (simp add: Duration_String_def time_units)
qed

theorem ParseDuration_String: "plain_duration d \<Longrightarrow> ParseDuration (Duration_String d) = Some d"
proof -
  assume plain: "plain_duration d"
  then have d0: "0 \<le> d" and dmax: "d < max_uint63" by (auto simp: plain_duration_def)
  consider "d = 0" | "Millisecond \<le> d" "d < Second" "d mod Millisecond = 0"
    | "Second \<le> d" "d mod Second = 0"
    using plain by (fastforce simp: plain_duration_def time_units)
  then show ?thesis
  proof cases
    case 1
    show ?thesis unfolding 1 String_zero
      by (rule ParseDuration_printed) (use loop_second [of 0 0 "[]"] in \<open>simp_all add: max_uint63_def time_units unit_chars\<close>)
  next
    case 2
    define n where "n = d div Millisecond"
    have d: "d = n * Millisecond"
      using 2(3) mult_div_mod_eq [of Millisecond d] by (simp add: n_def mult.commute)
    have "0 \<le> n" using d0 by (simp add: n_def time_units)
    then have "ParseDuration_loop 0 (fmt_uint n @ ''ms'' @ []) = Some d"
      using loop_milli [of n 0 "[]"] d dmax by (simp add: time_units unit_chars)
    with \<open>0 \<le> n\<close> show ?thesis unfolding String_millis [OF 2] n_def [symmetric]
      using dmax by (intro ParseDuration_printed) auto
  next
    case 3
    define q where "q = d div Second"
    have eq: "d = q * Second"
      using 3(2) mult_div_mod_eq [of Second d] by (simp add: q_def mult.commute)
    have q: "0 \<le> q" using d0 by (simp add: q_def time_units)
    define h m s where "h = q div 60 div 60" and "m = q div 60 mod 60" and "s = q mod 60"
    note hms = h_def m_def s_def
    have pos: "0 \<le> h" "0 \<le> m" "0 \<le> s" using q by (simp_all add: hms)
    have "h * 3600 + m * 60 + s = q" unfolding hms by presburger
    then have total: "h * Hour + m * Minute + s * Second = d"
      unfolding eq time_units by linarith
    with pos dmax have le: "h * Hour \<le> max_uint63" "h * Hour + m * Minute \<le> max_uint63"
      by (simp_all add: time_units)
    have sec: "ParseDuration_loop (h * Hour + m * Minute) (fmt_uint s @ ''s'' @ []) = Some d"
      using loop_second [of s "h * Hour + m * Minute" "[]"] pos total dmax
      by (simp add: time_units unit_chars)
    have mn: "ParseDuration_loop (h * Hour) (fmt_uint m @ ''m'' @ fmt_uint s @ ''s'' @ []) = Some d"
      using loop_minute [of m "h * Hour" "fmt_uint s @ ''s'' @ []"] sec pos le
        stops_unit_printed [of s "''s'' @ []"]
      by (simp add: time_units unit_chars)
    have hr: "ParseDuration_loop 0 (fmt_uint h @ ''h'' @ fmt_uint m @ ''m'' @ fmt_uint s @ ''s'' @ []) = Some d"
      using loop_hour [of h 0 "fmt_uint m @ ''m'' @ fmt_uint s @ ''s'' @ []"] mn pos le
        stops_unit_printed [of m "''m'' @ fmt_uint s @ ''s'' @ []"]
      by (simp add: time_units unit_chars)
    have mn': "ParseDuration_loop 0 (fmt_uint m @ ''m'' @ fmt_uint s @ ''s'' @ []) = Some d"
      if "\<not> 0 < h" using mn that pos by simp
    have sec': "ParseDuration_loop 0 (fmt_uint s @ ''s'' @ []) = Some d" if "\<not> 0 < q div 60"
    proof -
      have "q div 60 = 0" using that q by simp
      then show ?thesis using sec by (simp add: hms)
    qed
    show ?thesis
      unfolding String_seconds [OF 3] q_def [symmetric] hms [symmetric]
      using hr mn' sec' pos dmax by (auto intro!: ParseDuration_printed)
  qed
qed

end
