(* ===== verification/Settings.thy ===== *)
theory Settings
  imports Go_Duration
begin

text \<open>
  The settings layer of \<^verbatim>\<open>internal/config/config.go\<close>: the inventory that classifies every
  setting by secrecy and consuming process, the preflight that refuses unknown settings, the
  view of an environment that one process receives (\<^verbatim>\<open>internal/config/envfile.go\<close>), and the typed
  readers every parser is built from.  An environment, Go's \<^verbatim>\<open>map[string]string\<close>, is an
  association list; an error is its message.
\<close>

type_synonym env = "(string \<times> string) list"
type_synonym go_error = string

section \<open>Processes and the inventory\<close>

datatype process =
  ProcessGateway | ProcessControlPlane | ProcessWorker | ProcessBootstrap | ProcessDeployment

record SettingClass =
  class_Secret :: bool
  class_Consumers :: "process list"

definition inventory_identity :: "(string \<times> SettingClass) list" where
  "inventory_identity =
    [(''NEXUSRELAY_ENV'', \<lparr>class_Secret = False, class_Consumers = [ProcessGateway, ProcessControlPlane, ProcessWorker, ProcessBootstrap, ProcessDeployment]\<rparr>),
     (''NEXUSRELAY_VERSION'', \<lparr>class_Secret = False, class_Consumers = [ProcessGateway, ProcessControlPlane, ProcessWorker, ProcessBootstrap, ProcessDeployment]\<rparr>)]"

definition inventory_endpoints :: "(string \<times> SettingClass) list" where
  "inventory_endpoints =
    [(''PUBLIC_API_BASE_URL'', \<lparr>class_Secret = False, class_Consumers = [ProcessGateway, ProcessControlPlane, ProcessDeployment]\<rparr>),
     (''ADMIN_BASE_URL'', \<lparr>class_Secret = False, class_Consumers = [ProcessControlPlane, ProcessDeployment]\<rparr>),
     (''PUBLIC_API_HOST'', \<lparr>class_Secret = False, class_Consumers = [ProcessDeployment]\<rparr>),
     (''ADMIN_HOST'', \<lparr>class_Secret = False, class_Consumers = [ProcessDeployment]\<rparr>),
     (''ADMIN_EXPOSURE_MODE'', \<lparr>class_Secret = False, class_Consumers = [ProcessDeployment]\<rparr>),
     (''ADMIN_ORIGINS'', \<lparr>class_Secret = False, class_Consumers = [ProcessControlPlane, ProcessDeployment]\<rparr>),
     (''TRUSTED_PROXY_CIDRS'', \<lparr>class_Secret = False, class_Consumers = [ProcessGateway, ProcessControlPlane, ProcessDeployment]\<rparr>)]"

definition inventory_listener :: "(string \<times> SettingClass) list" where
  "inventory_listener =
    [(''HTTP_BIND_ADDRESS'', \<lparr>class_Secret = False, class_Consumers = [ProcessGateway, ProcessControlPlane, ProcessWorker, ProcessDeployment]\<rparr>),
     (''HTTP_PORT'', \<lparr>class_Secret = False, class_Consumers = [ProcessGateway, ProcessControlPlane, ProcessWorker, ProcessDeployment]\<rparr>),
     (''HTTPS_PORT'', \<lparr>class_Secret = False, class_Consumers = [ProcessDeployment]\<rparr>),
     (''TLS_MODE'', \<lparr>class_Secret = False, class_Consumers = [ProcessDeployment]\<rparr>),
     (''TLS_CERT_FILE'', \<lparr>class_Secret = False, class_Consumers = [ProcessDeployment]\<rparr>),
     (''TLS_KEY_FILE'', \<lparr>class_Secret = True, class_Consumers = [ProcessDeployment]\<rparr>),
     (''ACME_EMAIL'', \<lparr>class_Secret = False, class_Consumers = [ProcessDeployment]\<rparr>),
     (''ACME_DNS_PROVIDER'', \<lparr>class_Secret = False, class_Consumers = [ProcessDeployment]\<rparr>),
     (''ACME_DNS_API_TOKEN_FILE'', \<lparr>class_Secret = True, class_Consumers = [ProcessDeployment]\<rparr>)]"

definition inventory_database :: "(string \<times> SettingClass) list" where
  "inventory_database =
    [(''POSTGRES_DB'', \<lparr>class_Secret = False, class_Consumers = [ProcessDeployment]\<rparr>),
     (''POSTGRES_USER'', \<lparr>class_Secret = False, class_Consumers = [ProcessDeployment]\<rparr>),
     (''POSTGRES_PASSWORD_FILE'', \<lparr>class_Secret = True, class_Consumers = [ProcessDeployment]\<rparr>),
     (''DATABASE_HOST'', \<lparr>class_Secret = False, class_Consumers = [ProcessGateway, ProcessControlPlane, ProcessWorker, ProcessBootstrap]\<rparr>),
     (''DATABASE_PORT'', \<lparr>class_Secret = False, class_Consumers = [ProcessGateway, ProcessControlPlane, ProcessWorker, ProcessBootstrap]\<rparr>),
     (''DATABASE_NAME'', \<lparr>class_Secret = False, class_Consumers = [ProcessGateway, ProcessControlPlane, ProcessWorker, ProcessBootstrap, ProcessDeployment]\<rparr>),
     (''DATABASE_MIGRATION_USER'', \<lparr>class_Secret = False, class_Consumers = [ProcessDeployment]\<rparr>),
     (''DATABASE_MIGRATION_PASSWORD_FILE'', \<lparr>class_Secret = True, class_Consumers = [ProcessDeployment]\<rparr>),
     (''DATABASE_GATEWAY_USER'', \<lparr>class_Secret = False, class_Consumers = [ProcessGateway, ProcessDeployment]\<rparr>),
     (''DATABASE_GATEWAY_PASSWORD_FILE'', \<lparr>class_Secret = True, class_Consumers = [ProcessGateway, ProcessDeployment]\<rparr>),
     (''DATABASE_CONTROL_PLANE_USER'', \<lparr>class_Secret = False, class_Consumers = [ProcessControlPlane, ProcessBootstrap, ProcessDeployment]\<rparr>),
     (''DATABASE_CONTROL_PLANE_PASSWORD_FILE'', \<lparr>class_Secret = True, class_Consumers = [ProcessControlPlane, ProcessBootstrap, ProcessDeployment]\<rparr>),
     (''DATABASE_WORKER_USER'', \<lparr>class_Secret = False, class_Consumers = [ProcessWorker, ProcessDeployment]\<rparr>),
     (''DATABASE_WORKER_PASSWORD_FILE'', \<lparr>class_Secret = True, class_Consumers = [ProcessWorker, ProcessDeployment]\<rparr>),
     (''DATABASE_SSLMODE'', \<lparr>class_Secret = False, class_Consumers = [ProcessGateway, ProcessControlPlane, ProcessWorker, ProcessBootstrap, ProcessDeployment]\<rparr>),
     (''DATABASE_MIN_CONNECTIONS_GATEWAY'', \<lparr>class_Secret = False, class_Consumers = [ProcessGateway]\<rparr>),
     (''DATABASE_MAX_CONNECTIONS_GATEWAY'', \<lparr>class_Secret = False, class_Consumers = [ProcessGateway]\<rparr>),
     (''DATABASE_MIN_CONNECTIONS_CONTROL_PLANE'', \<lparr>class_Secret = False, class_Consumers = [ProcessControlPlane, ProcessBootstrap]\<rparr>),
     (''DATABASE_MAX_CONNECTIONS_CONTROL_PLANE'', \<lparr>class_Secret = False, class_Consumers = [ProcessControlPlane, ProcessBootstrap]\<rparr>),
     (''DATABASE_MIN_CONNECTIONS_WORKER'', \<lparr>class_Secret = False, class_Consumers = [ProcessWorker]\<rparr>),
     (''DATABASE_MAX_CONNECTIONS_WORKER'', \<lparr>class_Secret = False, class_Consumers = [ProcessWorker]\<rparr>),
     (''DATABASE_STATEMENT_TIMEOUT'', \<lparr>class_Secret = False, class_Consumers = [ProcessGateway, ProcessControlPlane, ProcessWorker, ProcessBootstrap]\<rparr>),
     (''DATABASE_TRANSACTION_TIMEOUT'', \<lparr>class_Secret = False, class_Consumers = [ProcessGateway, ProcessControlPlane, ProcessWorker, ProcessBootstrap]\<rparr>)]"

definition inventory_redis :: "(string \<times> SettingClass) list" where
  "inventory_redis =
    [(''REDIS_URL_FILE'', \<lparr>class_Secret = True, class_Consumers = [ProcessGateway, ProcessControlPlane, ProcessWorker, ProcessDeployment]\<rparr>),
     (''REDIS_PASSWORD_FILE'', \<lparr>class_Secret = True, class_Consumers = [ProcessDeployment]\<rparr>),
     (''REDIS_MAX_CONNECTIONS_GATEWAY'', \<lparr>class_Secret = False, class_Consumers = [ProcessGateway]\<rparr>),
     (''REDIS_MAX_CONNECTIONS_CONTROL_PLANE'', \<lparr>class_Secret = False, class_Consumers = [ProcessControlPlane]\<rparr>),
     (''REDIS_MAX_CONNECTIONS_WORKER'', \<lparr>class_Secret = False, class_Consumers = [ProcessWorker]\<rparr>)]"

definition inventory_dependency :: "(string \<times> SettingClass) list" where
  "inventory_dependency =
    [(''DEPENDENCY_STARTUP_TIMEOUT'', \<lparr>class_Secret = False, class_Consumers = [ProcessGateway, ProcessControlPlane, ProcessWorker]\<rparr>),
     (''DEPENDENCY_PROBE_TIMEOUT'', \<lparr>class_Secret = False, class_Consumers = [ProcessGateway, ProcessControlPlane, ProcessWorker]\<rparr>),
     (''DEPENDENCY_PROBE_INTERVAL'', \<lparr>class_Secret = False, class_Consumers = [ProcessGateway, ProcessControlPlane, ProcessWorker]\<rparr>),
     (''DEPENDENCY_RETRY_MIN_DELAY'', \<lparr>class_Secret = False, class_Consumers = [ProcessGateway, ProcessControlPlane, ProcessWorker]\<rparr>),
     (''DEPENDENCY_RETRY_MAX_DELAY'', \<lparr>class_Secret = False, class_Consumers = [ProcessGateway, ProcessControlPlane, ProcessWorker]\<rparr>)]"

definition inventory_keys :: "(string \<times> SettingClass) list" where
  "inventory_keys =
    [(''MASTER_KEYRING_FILE'', \<lparr>class_Secret = True, class_Consumers = [ProcessGateway, ProcessControlPlane, ProcessWorker]\<rparr>),
     (''API_KEY_PEPPER_RING_FILE'', \<lparr>class_Secret = True, class_Consumers = [ProcessGateway, ProcessControlPlane]\<rparr>),
     (''SESSION_SECRET_FILE'', \<lparr>class_Secret = True, class_Consumers = [ProcessControlPlane]\<rparr>),
     (''CSRF_SECRET_RING_FILE'', \<lparr>class_Secret = True, class_Consumers = [ProcessControlPlane]\<rparr>)]"

definition inventory_session :: "(string \<times> SettingClass) list" where
  "inventory_session =
    [(''SESSION_COOKIE_NAME'', \<lparr>class_Secret = False, class_Consumers = [ProcessControlPlane]\<rparr>),
     (''SESSION_IDLE_TTL'', \<lparr>class_Secret = False, class_Consumers = [ProcessControlPlane]\<rparr>),
     (''SESSION_ABSOLUTE_TTL'', \<lparr>class_Secret = False, class_Consumers = [ProcessControlPlane]\<rparr>),
     (''SESSION_LAST_SEEN_WRITE_INTERVAL'', \<lparr>class_Secret = False, class_Consumers = [ProcessControlPlane]\<rparr>),
     (''PASSWORD_ARGON2_MEMORY_KIB'', \<lparr>class_Secret = False, class_Consumers = [ProcessControlPlane, ProcessBootstrap]\<rparr>),
     (''PASSWORD_ARGON2_ITERATIONS'', \<lparr>class_Secret = False, class_Consumers = [ProcessControlPlane, ProcessBootstrap]\<rparr>),
     (''PASSWORD_ARGON2_PARALLELISM'', \<lparr>class_Secret = False, class_Consumers = [ProcessControlPlane, ProcessBootstrap]\<rparr>)]"

definition inventory_gateway :: "(string \<times> SettingClass) list" where
  "inventory_gateway =
    [(''REQUEST_BODY_MAX_BYTES'', \<lparr>class_Secret = False, class_Consumers = [ProcessGateway]\<rparr>),
     (''UPSTREAM_CONNECT_TIMEOUT'', \<lparr>class_Secret = False, class_Consumers = [ProcessGateway]\<rparr>),
     (''UPSTREAM_FIRST_BYTE_TIMEOUT'', \<lparr>class_Secret = False, class_Consumers = [ProcessGateway]\<rparr>),
     (''UPSTREAM_IDLE_TIMEOUT'', \<lparr>class_Secret = False, class_Consumers = [ProcessGateway]\<rparr>),
     (''UPSTREAM_TOTAL_TIMEOUT'', \<lparr>class_Secret = False, class_Consumers = [ProcessGateway, ProcessWorker]\<rparr>),
     (''SHUTDOWN_GRACE_PERIOD'', \<lparr>class_Secret = False, class_Consumers = [ProcessGateway, ProcessControlPlane, ProcessWorker, ProcessDeployment]\<rparr>),
     (''MAX_UPSTREAM_ATTEMPTS'', \<lparr>class_Secret = False, class_Consumers = [ProcessGateway]\<rparr>)]"

definition inventory_observability :: "(string \<times> SettingClass) list" where
  "inventory_observability =
    [(''LOG_LEVEL'', \<lparr>class_Secret = False, class_Consumers = [ProcessGateway, ProcessControlPlane, ProcessWorker, ProcessBootstrap]\<rparr>),
     (''LOG_FORMAT'', \<lparr>class_Secret = False, class_Consumers = [ProcessGateway, ProcessControlPlane, ProcessWorker, ProcessBootstrap]\<rparr>),
     (''METRICS_ENABLED'', \<lparr>class_Secret = False, class_Consumers = [ProcessGateway, ProcessControlPlane, ProcessWorker]\<rparr>),
     (''OTEL_ENABLED'', \<lparr>class_Secret = False, class_Consumers = [ProcessGateway, ProcessControlPlane, ProcessWorker]\<rparr>),
     (''OTEL_EXPORTER_OTLP_ENDPOINT'', \<lparr>class_Secret = False, class_Consumers = [ProcessGateway, ProcessControlPlane, ProcessWorker]\<rparr>)]"

definition inventory_worker :: "(string \<times> SettingClass) list" where
  "inventory_worker =
    [(''REQUEST_RETENTION_DAYS'', \<lparr>class_Secret = False, class_Consumers = [ProcessWorker]\<rparr>),
     (''AUDIT_RETENTION_DAYS'', \<lparr>class_Secret = False, class_Consumers = [ProcessWorker]\<rparr>),
     (''HEALTH_OBSERVATION_RETENTION_DAYS'', \<lparr>class_Secret = False, class_Consumers = [ProcessWorker]\<rparr>),
     (''PROCESSED_OUTBOX_RETENTION_DAYS'', \<lparr>class_Secret = False, class_Consumers = [ProcessWorker]\<rparr>),
     (''ANALYTICS_TARGET_LAG'', \<lparr>class_Secret = False, class_Consumers = [ProcessWorker]\<rparr>),
     (''STALE_REQUEST_RECONCILIATION_INTERVAL'', \<lparr>class_Secret = False, class_Consumers = [ProcessWorker]\<rparr>),
     (''WORKER_CONCURRENCY'', \<lparr>class_Secret = False, class_Consumers = [ProcessWorker]\<rparr>),
     (''OUTBOX_LEASE_DURATION'', \<lparr>class_Secret = False, class_Consumers = [ProcessWorker]\<rparr>),
     (''OUTBOX_RETRY_BASE_DELAY'', \<lparr>class_Secret = False, class_Consumers = [ProcessWorker]\<rparr>),
     (''OUTBOX_RETRY_MAX_DELAY'', \<lparr>class_Secret = False, class_Consumers = [ProcessWorker]\<rparr>),
     (''HEALTH_PROBE_INTERVAL'', \<lparr>class_Secret = False, class_Consumers = [ProcessWorker]\<rparr>),
     (''HEALTH_FAST_WINDOW'', \<lparr>class_Secret = False, class_Consumers = [ProcessWorker]\<rparr>),
     (''HEALTH_STABILIZING_WINDOW'', \<lparr>class_Secret = False, class_Consumers = [ProcessWorker]\<rparr>),
     (''HEALTH_MIN_SAMPLES'', \<lparr>class_Secret = False, class_Consumers = [ProcessWorker]\<rparr>),
     (''HEALTH_POLICY_VERSION'', \<lparr>class_Secret = False, class_Consumers = [ProcessWorker]\<rparr>),
     (''RETENTION_BATCH_SIZE'', \<lparr>class_Secret = False, class_Consumers = [ProcessWorker]\<rparr>)]"

definition inventory_health :: "(string \<times> SettingClass) list" where
  "inventory_health =
    [(''HEALTH_UNAVAILABLE_ENTRY_THRESHOLD_BPS'', \<lparr>class_Secret = False, class_Consumers = [ProcessWorker]\<rparr>),
     (''HEALTH_UNAVAILABLE_EXIT_THRESHOLD_BPS'', \<lparr>class_Secret = False, class_Consumers = [ProcessWorker]\<rparr>),
     (''HEALTH_CONSECUTIVE_FAILURES'', \<lparr>class_Secret = False, class_Consumers = [ProcessWorker]\<rparr>),
     (''HEALTH_CONSECUTIVE_SUCCESSES'', \<lparr>class_Secret = False, class_Consumers = [ProcessWorker]\<rparr>)]"

definition inventory_agent :: "(string \<times> SettingClass) list" where
  "inventory_agent =
    [(''AGENT_API_KEY_ENV'', \<lparr>class_Secret = False, class_Consumers = [ProcessControlPlane]\<rparr>),
     (''OPENCODE_PROVIDER_ID'', \<lparr>class_Secret = False, class_Consumers = [ProcessControlPlane]\<rparr>),
     (''OPENCODE_PROVIDER_NAME'', \<lparr>class_Secret = False, class_Consumers = [ProcessControlPlane]\<rparr>)]"

definition inventory_cloudflare :: "(string \<times> SettingClass) list" where
  "inventory_cloudflare =
    [(''ENABLE_CLOUDFLARE_TUNNEL'', \<lparr>class_Secret = False, class_Consumers = [ProcessDeployment]\<rparr>),
     (''CLOUDFLARE_TUNNEL_ID'', \<lparr>class_Secret = False, class_Consumers = [ProcessDeployment]\<rparr>),
     (''CLOUDFLARE_TUNNEL_CREDENTIALS_FILE'', \<lparr>class_Secret = True, class_Consumers = [ProcessDeployment]\<rparr>)]"

definition inventory_tailscale :: "(string \<times> SettingClass) list" where
  "inventory_tailscale =
    [(''ENABLE_TAILSCALE_PRIVATE_ADMIN'', \<lparr>class_Secret = False, class_Consumers = [ProcessDeployment]\<rparr>),
     (''TAILSCALE_AUTH_KEY_FILE'', \<lparr>class_Secret = True, class_Consumers = []\<rparr>),
     (''TAILSCALE_STATE_DIR'', \<lparr>class_Secret = False, class_Consumers = []\<rparr>),
     (''TAILSCALE_HOSTNAME'', \<lparr>class_Secret = False, class_Consumers = []\<rparr>),
     (''PRIVATE_INGRESS_SUBNET'', \<lparr>class_Secret = False, class_Consumers = []\<rparr>),
     (''PRIVATE_TRAEFIK_IP'', \<lparr>class_Secret = False, class_Consumers = []\<rparr>),
     (''PRIVATE_DNS_IP'', \<lparr>class_Secret = False, class_Consumers = []\<rparr>),
     (''TAILSCALE_ADVERTISE_ROUTES'', \<lparr>class_Secret = False, class_Consumers = []\<rparr>)]"

definition inventory_bootstrap :: "(string \<times> SettingClass) list" where
  "inventory_bootstrap =
    [(''BOOTSTRAP_OWNER_EMAIL'', \<lparr>class_Secret = False, class_Consumers = [ProcessBootstrap]\<rparr>),
     (''BOOTSTRAP_OWNER_NAME'', \<lparr>class_Secret = False, class_Consumers = [ProcessBootstrap]\<rparr>),
     (''BOOTSTRAP_ORGANIZATION_NAME'', \<lparr>class_Secret = False, class_Consumers = [ProcessBootstrap]\<rparr>),
     (''BOOTSTRAP_ORGANIZATION_SLUG'', \<lparr>class_Secret = False, class_Consumers = [ProcessBootstrap]\<rparr>),
     (''BOOTSTRAP_PASSWORD_FILE'', \<lparr>class_Secret = True, class_Consumers = [ProcessBootstrap]\<rparr>)]"

definition inventory :: "(string \<times> SettingClass) list" where
  "inventory =
     inventory_identity
     @ inventory_endpoints
     @ inventory_listener
     @ inventory_database
     @ inventory_redis
     @ inventory_dependency
     @ inventory_keys
     @ inventory_session
     @ inventory_gateway
     @ inventory_observability
     @ inventory_worker
     @ inventory_health
     @ inventory_agent
     @ inventory_cloudflare
     @ inventory_tailscale
     @ inventory_bootstrap"

definition unmistakableOwnedPrefixes :: "string list" where
  "unmistakableOwnedPrefixes = [''NEXUSRELAY_'', ''BOOTSTRAP_'']"

definition obsoleteSettings :: "string list" where
  "obsoleteSettings =
     [''CSRF_SECRET_FILE'', ''DATABASE_USER'', ''DATABASE_PASSWORD_FILE'',
      ''SHARED_DATABASE_PASSWORD_FILE'']"

text \<open>\<^verbatim>\<open>Inventory()\<close> hands out a copy whose consumer slices are fresh; values have no identity
  here, so the copy is the inventory rebuilt entry by entry.\<close>

definition Inventory :: "(string \<times> SettingClass) list" where
  "Inventory = map (\<lambda>(name, class).
     (name, class\<lparr>class_Consumers := [] @ class_Consumers class\<rparr>)) inventory"

definition known :: "string \<Rightarrow> bool" where
  "known name \<longleftrightarrow> map_of inventory name \<noteq> None"

definition consumed_by :: "process \<Rightarrow> string \<Rightarrow> bool" where
  "consumed_by process name =
     (case map_of inventory name of None \<Rightarrow> False | Some class \<Rightarrow> process \<in> set (class_Consumers class))"

section \<open>Preflight and process views\<close>

definition owned :: "string \<Rightarrow> bool" where
  "owned name \<longleftrightarrow> list_ex (\<lambda>prefix. HasPrefix name prefix) unmistakableOwnedPrefixes"

definition undocumented_error :: "string \<Rightarrow> go_error" where
  "undocumented_error name = name @ '' is not a documented NexusRelay setting''"

definition command_only_error :: "string \<Rightarrow> go_error" where
  "command_only_error name = name @ '' is command-only and is not accepted by long-running services''"

fun preflight_names :: "string list \<Rightarrow> go_error + unit" where
  "preflight_names [] = Inr ()"
| "preflight_names (name # names) =
     (if known name then preflight_names names
      else if name \<in> set obsoleteSettings then Inl (undocumented_error name)
      else if owned name then Inl (undocumented_error name)
      else preflight_names names)"

definition bootstrap_names :: "string list" where
  "bootstrap_names =
     [''BOOTSTRAP_OWNER_EMAIL'', ''BOOTSTRAP_OWNER_NAME'', ''BOOTSTRAP_ORGANIZATION_NAME'',
      ''BOOTSTRAP_ORGANIZATION_SLUG'', ''BOOTSTRAP_PASSWORD_FILE'']"

fun preflight_bootstrap :: "env \<Rightarrow> string list \<Rightarrow> go_error + unit" where
  "preflight_bootstrap v [] = Inr ()"
| "preflight_bootstrap v (name # names) =
     (if map_of v name \<noteq> None then Inl (command_only_error name) else preflight_bootstrap v names)"

definition preflight :: "env \<Rightarrow> process \<Rightarrow> go_error + unit" where
  "preflight v process =
     bindE (preflight_names (map fst v)) (\<lambda>_.
       if process = ProcessGateway \<or> process = ProcessControlPlane \<or> process = ProcessWorker
       then preflight_bootstrap v bootstrap_names
       else Inr ())"

definition ValuesForProcess :: "env \<Rightarrow> process \<Rightarrow> env" where
  "ValuesForProcess values process = filter (\<lambda>(name, x). consumed_by process name) values"

section \<open>Typed readers\<close>

definition value_of :: "env \<Rightarrow> string \<Rightarrow> string \<Rightarrow> string" where
  "value_of v name fallback = (case map_of v name of Some raw \<Rightarrow> raw | None \<Rightarrow> fallback)"

definition requiredPath :: "env \<Rightarrow> string \<Rightarrow> string \<Rightarrow> string" where
  "requiredPath v name fallback = value_of v name fallback"

definition cleanNonempty :: "string \<Rightarrow> string \<Rightarrow> go_error + unit" where
  "cleanNonempty name raw =
     (if raw = [] \<or> TrimSpace raw \<noteq> raw
      then Inl (name @ '' must be non-empty and contain no surrounding whitespace'')
      else Inr ())"

definition requiredText :: "env \<Rightarrow> string \<Rightarrow> go_error + string" where
  "requiredText v name =
     (case map_of v name of
        None \<Rightarrow> Inl (name @ '' is required'')
      | Some raw \<Rightarrow>
          if raw = [] then Inl (name @ '' is required'')
          else bindE (cleanNonempty name raw) (\<lambda>_. Inr raw))"

definition oneOf :: "string \<Rightarrow> string list \<Rightarrow> bool" where
  "oneOf x choices = list_ex (\<lambda>choice. x = choice) choices"

definition duration_error :: "string \<Rightarrow> int \<Rightarrow> int \<Rightarrow> go_error" where
  "duration_error name lo hi =
     name @ '' must be between '' @ Duration_String lo @ '' and '' @ Duration_String hi"

definition duration :: "env \<Rightarrow> string \<Rightarrow> int \<Rightarrow> int \<Rightarrow> int \<Rightarrow> go_error + int" where
  "duration v name fallback lo hi =
     (case ParseDuration (value_of v name (Duration_String fallback)) of
        None \<Rightarrow> Inl (duration_error name lo hi)
      | Some parsed \<Rightarrow>
          if parsed < lo \<or> parsed > hi then Inl (duration_error name lo hi) else Inr parsed)"

definition integer_error :: "string \<Rightarrow> int \<Rightarrow> int \<Rightarrow> go_error" where
  "integer_error name lo hi =
     name @ '' must be an integer from '' @ FormatInt lo @ '' through '' @ FormatInt hi"

definition integer :: "env \<Rightarrow> string \<Rightarrow> int \<Rightarrow> int \<Rightarrow> int \<Rightarrow> go_error + int" where
  "integer v name fallback lo hi =
     (case Atoi (value_of v name (Itoa fallback)) of
        None \<Rightarrow> Inl (integer_error name lo hi)
      | Some n \<Rightarrow> if n < lo \<or> n > hi then Inl (integer_error name lo hi) else Inr n)"

definition int64Value :: "env \<Rightarrow> string \<Rightarrow> int \<Rightarrow> int \<Rightarrow> int \<Rightarrow> go_error + int" where
  "int64Value v name fallback lo hi =
     (case ParseInt64 (value_of v name (FormatInt fallback)) of
        None \<Rightarrow> Inl (integer_error name lo hi)
      | Some n \<Rightarrow> if n < lo \<or> n > hi then Inl (integer_error name lo hi) else Inr n)"

definition boolean :: "env \<Rightarrow> string \<Rightarrow> bool \<Rightarrow> go_error + bool" where
  "boolean v name fallback =
     (let raw = value_of v name (FormatBool fallback) in
      if raw \<noteq> ''true'' \<and> raw \<noteq> ''false'' then Inl (name @ '' must be true or false'')
      else Inr (raw = ''true''))"

definition validateEnvironment :: "string \<Rightarrow> go_error + unit" where
  "validateEnvironment environment =
     (if \<not> oneOf environment [''development'', ''test'', ''production'']
      then Inl ''NEXUSRELAY_ENV must be development, test, or production''
      else Inr ())"

definition isProductionGrade :: "string \<Rightarrow> bool" where
  "isProductionGrade environment \<longleftrightarrow> environment = ''production''"

section \<open>What the readers return\<close>

lemma value_of_simps [simp]:
  "map_of v name = None \<Longrightarrow> value_of v name fallback = fallback"
  "map_of v name = Some raw \<Longrightarrow> value_of v name fallback = raw"
  by (simp_all add: value_of_def)

lemma oneOf_iff [simp]: "oneOf x choices \<longleftrightarrow> x \<in> set choices"
  by (induction choices) (auto simp: oneOf_def)

lemma cleanNonempty_ok [setting_simps]:
  "cleanNonempty name raw = Inr u \<longleftrightarrow> raw \<noteq> [] \<and> TrimSpace raw = raw"
  by (auto simp: cleanNonempty_def)

lemma validateEnvironment_ok [setting_simps]:
  "validateEnvironment e = Inr u \<longleftrightarrow> e \<in> {''development'', ''test'', ''production''}"
  by (auto simp: validateEnvironment_def)

lemma boolean_ok [setting_simps]:
  "boolean v name fallback = Inr b \<longleftrightarrow> value_of v name (FormatBool fallback) = FormatBool b"
  by (auto simp: boolean_def FormatBool_def Let_def split: if_splits)

text \<open>
  The three bounded readers keep one contract: the parser of the textual form and the printer
  of the default are inverse, the result is inside the interval, and the only error names the
  setting and the interval, never the text that was refused.
\<close>

locale bounded_setting =
  fixes read :: "env \<Rightarrow> string \<Rightarrow> int \<Rightarrow> int \<Rightarrow> int \<Rightarrow> go_error + int"
    and parse :: "string \<Rightarrow> int option"
    and print :: "int \<Rightarrow> string"
    and printable :: "int \<Rightarrow> bool"
    and message :: "string \<Rightarrow> int \<Rightarrow> int \<Rightarrow> go_error"
  assumes read_law: "read v name fallback lo hi =
      (case parse (value_of v name (print fallback)) of
         None \<Rightarrow> Inl (message name lo hi)
       | Some n \<Rightarrow> if n < lo \<or> n > hi then Inl (message name lo hi) else Inr n)"
    and print_law: "printable d \<Longrightarrow> parse (print d) = Some d"
begin

lemma in_bounds: "read v name fallback lo hi = Inr n \<Longrightarrow> lo \<le> n \<and> n \<le> hi"
  by (auto simp: read_law split: option.splits if_splits)

lemma accepts: "read v name fallback lo hi = Inr n \<longleftrightarrow>
    parse (value_of v name (print fallback)) = Some n \<and> lo \<le> n \<and> n \<le> hi"
  by (auto simp: read_law split: option.splits)

lemma rejects: "read v name fallback lo hi = Inl e \<Longrightarrow> e = message name lo hi"
  by (auto simp: read_law split: option.splits if_splits)

lemma default: "map_of v name = None \<Longrightarrow> printable fallback \<Longrightarrow> lo \<le> fallback \<Longrightarrow> fallback \<le> hi \<Longrightarrow>
    read v name fallback lo hi = Inr fallback"
  by (simp add: read_law print_law)

lemma local_read: "map_of v name = map_of w name \<Longrightarrow>
    read v name fallback lo hi = read w name fallback lo hi"
  by (simp add: read_law value_of_def)

end

interpretation integer_setting: bounded_setting integer ParseInt64 FormatInt int64 integer_error
  by unfold_locales (simp_all add: integer_def ParseInt64_FormatInt)

interpretation int64_setting: bounded_setting int64Value ParseInt64 FormatInt int64 integer_error
  by unfold_locales (simp_all add: int64Value_def ParseInt64_FormatInt)

interpretation duration_setting:
  bounded_setting duration ParseDuration Duration_String plain_duration duration_error
  by unfold_locales (simp_all add: duration_def ParseDuration_String)

lemmas bounded_accepts [setting_simps] =
  integer_setting.accepts int64_setting.accepts duration_setting.accepts

section \<open>Which settings a reader looks at\<close>

definition agree :: "string list \<Rightarrow> env \<Rightarrow> env \<Rightarrow> bool" where
  "agree names v w \<longleftrightarrow> (\<forall>name\<in>set names. map_of v name = map_of w name)"

lemma agree_append [simp]: "agree (ns @ ms) v w \<longleftrightarrow> agree ns v w \<and> agree ms v w"
  by (auto simp: agree_def)

lemma agree_Cons [simp]: "agree (n # ns) v w \<longleftrightarrow> map_of v n = map_of w n \<and> agree ns v w"
  by (auto simp: agree_def)

lemma agree_Nil [simp]: "agree [] v w"
  by (simp add: agree_def)

lemma value_of_local: "map_of v name = map_of w name \<Longrightarrow> value_of v name fb = value_of w name fb"
  by (simp add: value_of_def)

lemma requiredPath_local:
  "map_of v name = map_of w name \<Longrightarrow> requiredPath v name fb = requiredPath w name fb"
  by (simp add: requiredPath_def value_of_def)

lemma requiredText_local: "map_of v name = map_of w name \<Longrightarrow> requiredText v name = requiredText w name"
  by (simp add: requiredText_def)

lemma boolean_local: "map_of v name = map_of w name \<Longrightarrow> boolean v name fb = boolean w name fb"
  by (simp add: boolean_def value_of_def)

lemmas reader_local =
  value_of_local requiredPath_local requiredText_local boolean_local
  integer_setting.local_read int64_setting.local_read duration_setting.local_read

section \<open>Preflight\<close>

lemma preflight_names_ok:
  "is_ok (preflight_names names) \<longleftrightarrow>
     (\<forall>name\<in>set names. known name \<or> (name \<notin> set obsoleteSettings \<and> \<not> owned name))"
  by (induction names) auto

lemma preflight_names_error:
  "preflight_names names = Inl e \<Longrightarrow>
     \<exists>name\<in>set names. \<not> known name \<and> (name \<in> set obsoleteSettings \<or> owned name) \<and> e = undocumented_error name"
  by (induction names) (auto split: if_splits)

lemma preflight_bootstrap_ok:
  "is_ok (preflight_bootstrap v names) \<longleftrightarrow> (\<forall>name\<in>set names. map_of v name = None)"
  by (induction names) auto

lemma view_lookup:
  "map_of (ValuesForProcess v p) name = (if consumed_by p name then map_of v name else None)"
  by (simp add: ValuesForProcess_def map_of_filter_fst)

lemma consumed_known: "consumed_by p name \<Longrightarrow> known name"
  by (auto simp: consumed_by_def known_def split: option.splits)

lemma view_agree: "\<forall>name\<in>set names. consumed_by p name \<Longrightarrow> agree names (ValuesForProcess v p) v"
  by (simp add: agree_def view_lookup)

lemma view_idem: "ValuesForProcess (ValuesForProcess v p) p = ValuesForProcess v p"
  by (simp add: ValuesForProcess_def)

text \<open>
  Looking a concrete name up in the inventory: one group at a time, comparing character by
  character and stopping at the first difference.
\<close>

fun streq :: "string \<Rightarrow> string \<Rightarrow> bool" where
  "streq [] t = (t = [])"
| "streq (x # xs) t = (case t of [] \<Rightarrow> False | y # ys \<Rightarrow> if x = y then streq xs ys else False)"

lemma streq_iff: "streq s t \<longleftrightarrow> s = t"
  by (induction s t rule: streq.induct) (auto split: list.splits)

lemma upd_streq: "(m(k \<mapsto> v)) n = (if streq n k then Some v else m n)"
  by (simp add: streq_iff)

lemma map_of_append_case:
  "map_of (xs @ ys) n = (case map_of xs n of None \<Rightarrow> map_of ys n | Some x \<Rightarrow> Some x)"
  by (simp add: map_add_def)

lemmas inventory_groups =
  inventory_identity_def
  inventory_endpoints_def
  inventory_listener_def
  inventory_database_def
  inventory_redis_def
  inventory_dependency_def
  inventory_keys_def
  inventory_session_def
  inventory_gateway_def
  inventory_observability_def
  inventory_worker_def
  inventory_health_def
  inventory_agent_def
  inventory_cloudflare_def
  inventory_tailscale_def
  inventory_bootstrap_def

lemmas inventory_lookup =
  inventory_def [THEN arg_cong [where f = "\<lambda>xs. map_of xs n" for n], unfolded map_of_append_case]
  inventory_identity_def [THEN arg_cong [where f = "\<lambda>xs. map_of xs n" for n], unfolded map_of.simps fst_conv snd_conv upd_streq]
  inventory_endpoints_def [THEN arg_cong [where f = "\<lambda>xs. map_of xs n" for n], unfolded map_of.simps fst_conv snd_conv upd_streq]
  inventory_listener_def [THEN arg_cong [where f = "\<lambda>xs. map_of xs n" for n], unfolded map_of.simps fst_conv snd_conv upd_streq]
  inventory_database_def [THEN arg_cong [where f = "\<lambda>xs. map_of xs n" for n], unfolded map_of.simps fst_conv snd_conv upd_streq]
  inventory_redis_def [THEN arg_cong [where f = "\<lambda>xs. map_of xs n" for n], unfolded map_of.simps fst_conv snd_conv upd_streq]
  inventory_dependency_def [THEN arg_cong [where f = "\<lambda>xs. map_of xs n" for n], unfolded map_of.simps fst_conv snd_conv upd_streq]
  inventory_keys_def [THEN arg_cong [where f = "\<lambda>xs. map_of xs n" for n], unfolded map_of.simps fst_conv snd_conv upd_streq]
  inventory_session_def [THEN arg_cong [where f = "\<lambda>xs. map_of xs n" for n], unfolded map_of.simps fst_conv snd_conv upd_streq]
  inventory_gateway_def [THEN arg_cong [where f = "\<lambda>xs. map_of xs n" for n], unfolded map_of.simps fst_conv snd_conv upd_streq]
  inventory_observability_def [THEN arg_cong [where f = "\<lambda>xs. map_of xs n" for n], unfolded map_of.simps fst_conv snd_conv upd_streq]
  inventory_worker_def [THEN arg_cong [where f = "\<lambda>xs. map_of xs n" for n], unfolded map_of.simps fst_conv snd_conv upd_streq]
  inventory_health_def [THEN arg_cong [where f = "\<lambda>xs. map_of xs n" for n], unfolded map_of.simps fst_conv snd_conv upd_streq]
  inventory_agent_def [THEN arg_cong [where f = "\<lambda>xs. map_of xs n" for n], unfolded map_of.simps fst_conv snd_conv upd_streq]
  inventory_cloudflare_def [THEN arg_cong [where f = "\<lambda>xs. map_of xs n" for n], unfolded map_of.simps fst_conv snd_conv upd_streq]
  inventory_tailscale_def [THEN arg_cong [where f = "\<lambda>xs. map_of xs n" for n], unfolded map_of.simps fst_conv snd_conv upd_streq]
  inventory_bootstrap_def [THEN arg_cong [where f = "\<lambda>xs. map_of xs n" for n], unfolded map_of.simps fst_conv snd_conv upd_streq]

lemma bootstrap_not_serviced:
  assumes "p \<in> {ProcessGateway, ProcessControlPlane, ProcessWorker}"
  shows "\<forall>name\<in>set bootstrap_names. \<not> consumed_by p name"
  using assms by (auto simp: bootstrap_names_def consumed_by_def inventory_lookup)

end
