(* ===== verification/Go_Json.thy ===== *)
theory Go_Json
  imports Go_Text
begin

text \<open>
  The part of Go's \<^verbatim>\<open>encoding/json\<close> behind the key files: \<^verbatim>\<open>Decoder.Token\<close> and \<^verbatim>\<open>Decoder.More\<close> with
  the token state machine of the library, and \<^verbatim>\<open>Decoder.Decode\<close> as a parser into a tree.  A failed
  call is \<^const>\<open>None\<close>, except that the end of the input is told apart, because the program does so.
\<close>

datatype json =
    JNull
  | JBool bool
  | JNumber string
  | JString string
  | JArray "json list"
  | JObject "(string \<times> json) list"

section \<open>Scalars\<close>

definition json_space :: "char \<Rightarrow> bool" where
  "json_space c \<longleftrightarrow> byte c \<in> {32, 9, 13, 10}"

definition skip_space :: "string \<Rightarrow> string" where
  "skip_space s = dropWhile json_space s"

definition hex4 :: "string \<Rightarrow> (int \<times> string) option" where
  "hex4 s = (case s of
     a # b # c # d # rest \<Rightarrow>
       (let v = (\<lambda>x. if is_digit x then Some (byte x - 48)
                     else if between 97 102 x then Some (byte x - 87)
                     else if between 65 70 x then Some (byte x - 55) else None)
        in case (v a, v b, v c, v d) of
             (Some i, Some j, Some k, Some l) \<Rightarrow> Some (i * 4096 + j * 256 + k * 16 + l, rest)
           | _ \<Rightarrow> None)
   | _ \<Rightarrow> None)"

lemma hex4_length: "hex4 s = Some (n, t) \<Longrightarrow> length t < length s"
  by (auto simp: hex4_def Let_def split: list.splits option.splits if_splits)

definition simple_escape :: "char \<Rightarrow> char option" where
  "simple_escape c =
     (if byte c = 34 \<or> c = CHR 0x5C \<or> c = CHR ''/'' then Some c
      else if c = CHR ''b'' then Some (CHR 0x08)
      else if c = CHR ''f'' then Some (CHR 0x0C)
      else if c = CHR ''n'' then Some (CHR 0x0A)
      else if c = CHR ''r'' then Some (CHR 0x0D)
      else if c = CHR ''t'' then Some (CHR 0x09)
      else None)"

text \<open>
  One character of a string literal: the bytes it stands for and the rest.  A \<^verbatim>\<open>\uD800\<close>-style pair
  is combined, a lone surrogate becomes U+FFFD, and so does a byte that is not valid UTF-8.
\<close>

definition lex_unicode :: "string \<Rightarrow> (string \<times> string) option" where
  "lex_unicode rest =
     (case hex4 rest of
        None \<Rightarrow> None
      | Some (r, rest1) \<Rightarrow>
          (case (if 55296 \<le> r \<and> r < 56320 \<and> take 2 rest1 = [CHR 0x5C, CHR ''u'']
                 then hex4 (drop 2 rest1) else None) of
             Some (r2, rest2) \<Rightarrow>
               if 56320 \<le> r2 \<and> r2 < 57344
               then Some (EncodeRune ((r - 55296) * 1024 + (r2 - 56320) + 65536), rest2)
               else Some (EncodeRune RuneError, rest1)
           | None \<Rightarrow> Some (EncodeRune r, rest1)))"

definition lex_char :: "string \<Rightarrow> (string \<times> string) option" where
  "lex_char s = (case s of
     [] \<Rightarrow> None
   | c # cs \<Rightarrow>
       if byte c < 32 then None
       else if c = CHR 0x5C then
         (case cs of
            [] \<Rightarrow> None
          | e # rest \<Rightarrow>
              if e = CHR ''u'' then lex_unicode rest
              else (case simple_escape e of None \<Rightarrow> None | Some x \<Rightarrow> Some ([x], rest)))
       else if byte c < 128 then Some ([c], cs)
       else (case DecodeRune s of (r, w) \<Rightarrow> Some (EncodeRune r, drop w s)))"

lemma lex_unicode_length: "lex_unicode s = Some (t, u) \<Longrightarrow> length u < length s"
proof -
  assume *: "lex_unicode s = Some (t, u)"
  then obtain r rest1 where r: "hex4 s = Some (r, rest1)"
    by (auto simp: lex_unicode_def split: option.splits)
  have "length u \<le> length rest1"
  proof (cases "hex4 (drop 2 rest1)")
    case None
    with * r show ?thesis by (auto simp: lex_unicode_def split: if_splits)
  next
    case (Some x)
    then have "length (snd x) < length (drop 2 rest1)" by (cases x) (auto dest: hex4_length)
    with * r Some show ?thesis by (cases x) (auto simp: lex_unicode_def split: if_splits)
  qed
  with hex4_length [OF r] show ?thesis by linarith
qed

lemma lex_char_length: "lex_char s = Some (t, u) \<Longrightarrow> length u < length s"
proof -
  assume *: "lex_char s = Some (t, u)"
  then obtain c cs where s: "s = c # cs" by (cases s) (auto simp: lex_char_def)
  have "0 < snd (DecodeRune s)" using s by (intro DecodeRune_width) simp
  with * s show ?thesis
    by (auto simp: lex_char_def dest: lex_unicode_length split: if_splits list.splits option.splits prod.splits)
qed

text \<open>The text after an opening quote: the decoded string and what follows the closing quote.\<close>

function lex_string :: "string \<Rightarrow> (string \<times> string) option" where
  "lex_string s =
     (if s \<noteq> [] \<and> byte (hd s) = 34 then Some ([], tl s)
      else case lex_char s of
        None \<Rightarrow> None
      | Some (x, rest) \<Rightarrow> map_option (\<lambda>(t, u). (x @ t, u)) (lex_string rest))"
  by pat_completeness auto
termination by (relation "measure length") (auto dest: lex_char_length)

declare lex_string.simps [simp del]

lemma lex_string_length: "lex_string s = Some (t, u) \<Longrightarrow> length u < length s"
proof (induction s arbitrary: t u rule: lex_string.induct)
  case (1 s)
  show ?case
  proof (cases "s \<noteq> [] \<and> byte (hd s) = 34")
    case True
    with "1.prems" have "u = tl s" by (simp add: lex_string.simps [of s])
    with True show ?thesis by (cases s) auto
  next
    case False
    with "1.prems" obtain x rest t' where x: "lex_char s = Some (x, rest)"
      and r: "lex_string rest = Some (t', u)"
      by (auto simp: lex_string.simps [of s] split: option.splits)
    have "length u < length rest" using "1.IH" [OF False x refl r] .
    with lex_char_length [OF x] show ?thesis by linarith
  qed
qed

definition digits_of :: "string \<Rightarrow> string \<times> string" where
  "digits_of s = (takeWhile is_digit s, dropWhile is_digit s)"

text \<open>A number literal and the rest; a literal that stops inside its grammar is an error.\<close>

definition lex_frac :: "string \<Rightarrow> (string \<times> string) option" where
  "lex_frac s = (case s of
     c # cs \<Rightarrow>
       if c = CHR ''.'' then
         (case digits_of cs of (ds, rest) \<Rightarrow> if ds = [] then None else Some (c # ds, rest))
       else Some ([], s)
   | [] \<Rightarrow> Some ([], []))"

definition lex_exp :: "string \<Rightarrow> (string \<times> string) option" where
  "lex_exp s = (case s of
     c # cs \<Rightarrow>
       if c = CHR ''e'' \<or> c = CHR ''E'' then
         (let sign = takeWhile (\<lambda>x. x = CHR ''+'' \<or> x = CHR ''-'') (take 1 cs)
          in case digits_of (drop (length sign) cs) of (ds, rest) \<Rightarrow>
               if ds = [] then None else Some (c # sign @ ds, rest))
       else Some ([], s)
   | [] \<Rightarrow> Some ([], []))"

definition lex_whole :: "string \<Rightarrow> (string \<times> string) option" where
  "lex_whole s =
     (if HasPrefix s ''0'' then Some (''0'', tl s)
      else case digits_of s of (ds, rest) \<Rightarrow> if ds = [] then None else Some (ds, rest))"

definition lex_number :: "string \<Rightarrow> (string \<times> string) option" where
  "lex_number s =
     (case lex_whole (if HasPrefix s ''-'' then tl s else s) of
        None \<Rightarrow> None
      | Some (whole, rest) \<Rightarrow>
          (case lex_frac rest of
             None \<Rightarrow> None
           | Some (frac, rest1) \<Rightarrow>
               (case lex_exp rest1 of
                  None \<Rightarrow> None
                | Some (ex, rest2) \<Rightarrow>
                    Some ((if HasPrefix s ''-'' then ''-'' else []) @ whole @ frac @ ex, rest2))))"

text \<open>A scalar at the front of the input.\<close>

definition lex_scalar :: "string \<Rightarrow> (json \<times> string) option" where
  "lex_scalar s = (case s of
     [] \<Rightarrow> None
   | c # cs \<Rightarrow>
       if byte c = 34 then map_option (\<lambda>(t, u). (JString t, u)) (lex_string cs)
       else if HasPrefix s ''true'' then Some (JBool True, drop 4 s)
       else if HasPrefix s ''false'' then Some (JBool False, drop 5 s)
       else if HasPrefix s ''null'' then Some (JNull, drop 4 s)
       else if c = CHR ''-'' \<or> is_digit c then map_option (\<lambda>(t, u). (JNumber t, u)) (lex_number s)
       else None)"

section \<open>Numbers as float64\<close>

text \<open>
  Decoding a number into an interface goes through \<^verbatim>\<open>strconv.ParseFloat\<close>, which fails only when
  the value rounds to infinity: from \<open>2 ^ 1024 - 2 ^ 970\<close> on.
\<close>

definition number_parts :: "string \<Rightarrow> int \<times> int" where
  "number_parts s =
     (let u = (if HasPrefix s ''-'' then tl s else s);
          mant = takeWhile (\<lambda>c. c \<noteq> CHR ''e'' \<and> c \<noteq> CHR ''E'') u;
          ex = tl (dropWhile (\<lambda>c. c \<noteq> CHR ''e'' \<and> c \<noteq> CHR ''E'') u);
          whole = takeWhile is_digit mant;
          frac = tl (dropWhile is_digit mant);
          digits = (\<lambda>t. case digits_value 0 t of None \<Rightarrow> 0 | Some n \<Rightarrow> n);
          e = (case sign_split ex of (neg, ds) \<Rightarrow> if neg then - digits ds else digits ds)
      in (digits (whole @ frac), e - int (length frac)))"

definition float64_finite :: "string \<Rightarrow> bool" where
  "float64_finite s = (case number_parts s of (m, e) \<Rightarrow>
     m = 0 \<or> (if e \<ge> 0 then e \<le> 310 \<and> m * 10 ^ nat e < 2 ^ 1024 - 2 ^ 970
              else m < (2 ^ 1024 - 2 ^ 970) * 10 ^ nat (- e)))"

section \<open>Tokens\<close>

datatype token_state =
    tokenTopValue | tokenArrayStart | tokenArrayValue | tokenArrayComma
  | tokenObjectStart | tokenObjectKey | tokenObjectColon | tokenObjectValue | tokenObjectComma

record decoder =
  dec_input :: string
  dec_state :: token_state
  dec_stack :: "token_state list"

definition NewDecoder :: "string \<Rightarrow> decoder" where
  "NewDecoder contents = \<lparr>dec_input = contents, dec_state = tokenTopValue, dec_stack = []\<rparr>"

datatype token = Delim char | Scalar json

datatype 'a outcome = EOF | Failed | Got 'a

definition tokenValueAllowed :: "token_state \<Rightarrow> bool" where
  "tokenValueAllowed st \<longleftrightarrow> st \<in> {tokenTopValue, tokenArrayStart, tokenArrayValue, tokenObjectValue}"

definition tokenValueEnd :: "token_state \<Rightarrow> token_state" where
  "tokenValueEnd st =
     (if st = tokenArrayStart \<or> st = tokenArrayValue then tokenArrayComma
      else if st = tokenObjectValue then tokenObjectComma else st)"

definition open_composite :: "decoder \<Rightarrow> char \<Rightarrow> string \<Rightarrow> token_state \<Rightarrow> (token \<times> decoder) outcome" where
  "open_composite d c rest st =
     (if \<not> tokenValueAllowed (dec_state d) then Failed
      else Got (Delim c, \<lparr>dec_input = rest, dec_state = st, dec_stack = dec_state d # dec_stack d\<rparr>))"

definition close_composite :: "decoder \<Rightarrow> char \<Rightarrow> string \<Rightarrow> token_state set \<Rightarrow> (token \<times> decoder) outcome" where
  "close_composite d c rest sts =
     (if dec_state d \<notin> sts then Failed
      else case dec_stack d of
        [] \<Rightarrow> Failed
      | st # stack \<Rightarrow>
          Got (Delim c, \<lparr>dec_input = rest, dec_state = tokenValueEnd st, dec_stack = stack\<rparr>))"

definition scalar_token :: "decoder \<Rightarrow> string \<Rightarrow> (token \<times> decoder) outcome" where
  "scalar_token d s =
     (case lex_scalar s of
        None \<Rightarrow> Failed
      | Some (x, rest) \<Rightarrow>
          if (case x of JNumber n \<Rightarrow> \<not> float64_finite n | _ \<Rightarrow> False) then Failed
          else Got (Scalar x, d\<lparr>dec_input := rest, dec_state := tokenValueEnd (dec_state d)\<rparr>))"

text \<open>The two separators, in the states that expect them.\<close>

definition separator :: "token_state \<Rightarrow> char \<Rightarrow> token_state option" where
  "separator st c =
     (if c = CHR '':'' \<and> st = tokenObjectColon then Some tokenObjectValue
      else if c = CHR '','' \<and> st = tokenArrayComma then Some tokenArrayValue
      else if c = CHR '','' \<and> st = tokenObjectComma then Some tokenObjectKey
      else None)"

definition token_here :: "decoder \<Rightarrow> char \<Rightarrow> string \<Rightarrow> (token \<times> decoder) outcome" where
  "token_here d c cs =
     (if c = CHR ''['' then open_composite d c cs tokenArrayStart
      else if c = CHR '']'' then close_composite d c cs {tokenArrayStart, tokenArrayComma}
      else if c = CHR ''{'' then open_composite d c cs tokenObjectStart
      else if c = CHR ''}'' then close_composite d c cs {tokenObjectStart, tokenObjectComma}
      else if c = CHR '':'' \<or> c = CHR '','' then Failed
      else if byte c = 34 \<and> (dec_state d = tokenObjectStart \<or> dec_state d = tokenObjectKey) then
        (case lex_string cs of
           None \<Rightarrow> Failed
         | Some (name, rest) \<Rightarrow>
             Got (Scalar (JString name), d\<lparr>dec_input := rest, dec_state := tokenObjectColon\<rparr>))
      else if \<not> tokenValueAllowed (dec_state d) then Failed
      else scalar_token d (c # cs))"

lemma skip_space_le: "length (skip_space s) \<le> length s"
  by (simp add: skip_space_def length_dropWhile_le)

text \<open>\<^verbatim>\<open>Decoder.Token\<close>: separators are consumed on the way to the next token.\<close>

function Token :: "decoder \<Rightarrow> (token \<times> decoder) outcome" where
  "Token d = (case skip_space (dec_input d) of
     [] \<Rightarrow> EOF
   | c # cs \<Rightarrow>
       (case separator (dec_state d) c of
          Some st \<Rightarrow> Token (d\<lparr>dec_input := cs, dec_state := st\<rparr>)
        | None \<Rightarrow> token_here d c cs))"
  by pat_completeness auto
termination
proof (relation "measure (\<lambda>d. length (dec_input d))", goal_cases)
  case (2 d c cs st)
  then show ?case using skip_space_le [of "dec_input d"] by simp
qed simp

declare Token.simps [simp del]

definition More :: "decoder \<Rightarrow> bool" where
  "More d = (case skip_space (dec_input d) of
     [] \<Rightarrow> False
   | c # _ \<Rightarrow> c \<noteq> CHR '']'' \<and> c \<noteq> CHR ''}'')"

section \<open>Decode\<close>

text \<open>A whole value, by recursive descent; the first argument bounds the recursion.\<close>

fun parse_value :: "nat \<Rightarrow> string \<Rightarrow> (json \<times> string) option"
  and parse_items :: "nat \<Rightarrow> string \<Rightarrow> (json list \<times> string) option"
  and parse_members :: "nat \<Rightarrow> string \<Rightarrow> ((string \<times> json) list \<times> string) option" where
  "parse_value 0 s = None"
| "parse_value (Suc n) s = (case skip_space s of
     [] \<Rightarrow> None
   | c # cs \<Rightarrow>
       if c = CHR ''['' then
         (if HasPrefix (skip_space cs) '']'' then Some (JArray [], tl (skip_space cs))
          else map_option (\<lambda>(xs, t). (JArray xs, t)) (parse_items n cs))
       else if c = CHR ''{'' then
         (if HasPrefix (skip_space cs) ''}'' then Some (JObject [], tl (skip_space cs))
          else map_option (\<lambda>(xs, t). (JObject xs, t)) (parse_members n cs))
       else lex_scalar (c # cs))"
| "parse_items 0 s = None"
| "parse_items (Suc n) s = (case parse_value n s of
     None \<Rightarrow> None
   | Some (x, t) \<Rightarrow>
       (case skip_space t of
          [] \<Rightarrow> None
        | c # cs \<Rightarrow>
            if c = CHR '']'' then Some ([x], cs)
            else if c = CHR '','' then map_option (\<lambda>(xs, u). (x # xs, u)) (parse_items n cs)
            else None))"
| "parse_members 0 s = None"
| "parse_members (Suc n) s = (case skip_space s of
     [] \<Rightarrow> None
   | q # r \<Rightarrow>
       if byte q \<noteq> 34 then None
       else (case lex_string r of
         None \<Rightarrow> None
       | Some (name, t) \<Rightarrow>
           if \<not> HasPrefix (skip_space t) '':'' then None
           else (case parse_value n (tl (skip_space t)) of
             None \<Rightarrow> None
           | Some (x, u) \<Rightarrow>
               (case skip_space u of
                  [] \<Rightarrow> None
                | c # cs \<Rightarrow>
                    if c = CHR ''}'' then Some ([(name, x)], cs)
                    else if c = CHR '','' then map_option (\<lambda>(xs, w). ((name, x) # xs, w)) (parse_members n cs)
                    else None))))"

text \<open>\<^verbatim>\<open>Decoder.Decode\<close> up to the conversion into the destination.\<close>

definition Decode :: "string \<Rightarrow> (json \<times> string) outcome" where
  "Decode s =
     (if skip_space s = [] then EOF
      else case parse_value (2 * length s + 1) s of
        None \<Rightarrow> Failed
      | Some (x, rest) \<Rightarrow> Got (x, rest))"

section \<open>Every token consumes input\<close>

lemma dropWhile_le: "length (dropWhile P s) \<le> length s"
  by (rule length_dropWhile_le)

lemma lex_frac_length: "lex_frac s = Some (a, t) \<Longrightarrow> length t \<le> length s"
  using dropWhile_le [of is_digit "tl s"]
  by (auto simp: lex_frac_def digits_of_def split: list.splits if_splits)

lemma lex_exp_length: "lex_exp s = Some (a, t) \<Longrightarrow> length t \<le> length s"
proof -
  assume *: "lex_exp s = Some (a, t)"
  have "length (dropWhile is_digit (drop n (tl s))) \<le> length s" for n
    using dropWhile_le [of is_digit "drop n (tl s)"] by simp
  with * show ?thesis
    by (auto simp: lex_exp_def digits_of_def Let_def split: list.splits if_splits)
qed

lemma lex_whole_length: "lex_whole s = Some (a, t) \<Longrightarrow> length t < length s"
proof -
  assume *: "lex_whole s = Some (a, t)"
  have "length (takeWhile is_digit s) + length (dropWhile is_digit s) = length s"
    by (metis length_append takeWhile_dropWhile_id)
  with * show ?thesis
    by (cases s) (auto simp: lex_whole_def digits_of_def HasPrefix_def split: if_splits)
qed

lemma lex_number_length: "lex_number s = Some (a, t) \<Longrightarrow> length t < length s"
proof -
  assume "lex_number s = Some (a, t)"
  then obtain w rest f rest1 e where w: "lex_whole (if HasPrefix s ''-'' then tl s else s) = Some (w, rest)"
    and f: "lex_frac rest = Some (f, rest1)" and e: "lex_exp rest1 = Some (e, t)"
    by (auto simp: lex_number_def split: option.splits)
  have "length (if HasPrefix s ''-'' then tl s else s) \<le> length s" by simp
  then show ?thesis
    using lex_whole_length [OF w] lex_frac_length [OF f] lex_exp_length [OF e] by linarith
qed

lemma lex_scalar_length: "lex_scalar s = Some (x, t) \<Longrightarrow> length t < length s"
  by (auto simp: lex_scalar_def HasPrefix_def dest: lex_string_length lex_number_length
      split: list.splits if_splits)

lemma token_here_length:
  assumes "token_here d c cs = Got (tok, d')"
  shows "length (dec_input d') < Suc (length cs)"
proof -
  have "length t < Suc (length cs)" if "lex_string cs = Some (n, t)" for n t
    using lex_string_length [OF that] by simp
  moreover have "length t < Suc (length cs)" if "lex_scalar (c # cs) = Some (x, t)" for x t
    using lex_scalar_length [OF that] by simp
  ultimately show ?thesis
    using assms
    by (auto simp: token_here_def open_composite_def close_composite_def scalar_token_def
        split: if_splits list.splits option.splits prod.splits)
qed

lemma Token_length: "Token d = Got (tok, d') \<Longrightarrow> length (dec_input d') < length (dec_input d)"
proof (induction d arbitrary: tok d' rule: Token.induct)
  case (1 d)
  then obtain c cs where s: "skip_space (dec_input d) = c # cs"
    by (cases "skip_space (dec_input d)") (auto simp: Token.simps [of d])
  have le: "length cs < length (dec_input d)"
    using skip_space_le [of "dec_input d"] s by simp
  show ?case
  proof (cases "separator (dec_state d) c")
    case None
    with "1.prems" s have "token_here d c cs = Got (tok, d')" by (simp add: Token.simps [of d])
    with le token_here_length show ?thesis by fastforce
  next
    case (Some st)
    with "1.prems" s have "Token (d\<lparr>dec_input := cs, dec_state := st\<rparr>) = Got (tok, d')"
      by (simp add: Token.simps [of d])
    from "1.IH" [OF s Some this] le show ?thesis by simp
  qed
qed

section \<open>The bound of the recursive descent is enough\<close>

lemma HasPrefix_one: "HasPrefix s [c] \<longleftrightarrow> (\<exists>t. s = c # t)"
  by (cases s) (auto simp: HasPrefix_def)

lemma skip_Cons_le: "skip_space s = c # cs \<Longrightarrow> length cs < length s"
  using skip_space_le [of s] by simp

lemma parse_length:
  "parse_value n s = Some (x, t) \<Longrightarrow> length t < length s"
  "parse_items n s = Some (xs, t) \<Longrightarrow> length t < length s"
  "parse_members n s = Some (ms, t) \<Longrightarrow> length t < length s"
proof (induction n s and n s and n s arbitrary: x t and xs t and ms t
    rule: parse_value_parse_items_parse_members.induct)
  case (2 n s)
  then obtain c cs where s: "skip_space s = c # cs" by (auto split: list.splits)
  have l: "length cs < length s" using s by (rule skip_Cons_le)
  have "length t < length (c # cs)"
    using 2 s skip_space_le [of cs]
    by (auto simp: HasPrefix_one dest: lex_scalar_length split: if_splits) fastforce+
  with s skip_space_le [of s] show ?case by simp
next
  case (4 n s)
  then obtain y u c cs where y: "parse_value n s = Some (y, u)" and u: "skip_space u = c # cs"
    by (auto split: option.splits list.splits)
  have "length u < length s" using y by (rule 4)
  moreover have "length cs < length u" using u by (rule skip_Cons_le)
  ultimately show ?case using 4 y u by (auto split: if_splits) fastforce+
next
  case (6 n s)
  from 6(3) obtain q r name u v y w c cs where s: "skip_space s = q # r" and q: "byte q = 34"
    and n: "lex_string r = Some (name, u)" and v: "skip_space u = CHR '':'' # v"
    and y: "parse_value n v = Some (y, w)" and w: "skip_space w = c # cs"
    by (auto simp: HasPrefix_one split: option.splits list.splits if_splits)
  have p: "HasPrefix (skip_space u) '':''" using v by (simp add: HasPrefix_one)
  have l: "length r < length s" "length v < length u" "length cs < length w" "length u < length r"
    using s v w n by (auto dest: skip_Cons_le lex_string_length)
  have lw: "length w < length v"
    using 6(1) [OF s _ n refl, of y w] q p v y by simp
  show ?case
  proof (cases "c = CHR ''}''")
    case True
    with 6(3) s q n v y w p have "t = cs" by simp
    with l lw show ?thesis by simp
  next
    case False
    with 6(3) s q n v y w p obtain ms' where "parse_members n cs = Some (ms', t)"
      by (auto split: if_splits)
    moreover have "c = CHR '',''" using False 6(3) s q n v y w p by (auto split: if_splits)
    ultimately have "length t < length cs"
      using 6(2) [OF s _ n refl, of "(y, w)" y w c cs ms' t] q p v y w False by simp
    with l lw show ?thesis by linarith
  qed
qed auto

text \<open>
  One level of nesting costs at most two units and at least one byte, so the bound in
  \<^const>\<open>Decode\<close> is never what makes it fail.
\<close>

lemma parse_fuel:
  "2 * length s < n \<Longrightarrow> 2 * length s < m \<Longrightarrow> parse_value n s = parse_value m s"
  "2 * length s + 1 < n \<Longrightarrow> 2 * length s + 1 < m \<Longrightarrow> parse_items n s = parse_items m s"
  "2 * length s + 1 < n \<Longrightarrow> 2 * length s + 1 < m \<Longrightarrow> parse_members n s = parse_members m s"
proof (induction n s and n s and n s arbitrary: m and m and m
    rule: parse_value_parse_items_parse_members.induct)
  case (2 n s)
  from 2(4) obtain k where m: "m = Suc k" by (cases m) auto
  show ?case
  proof (cases "skip_space s")
    case (Cons c cs)
    then have "length cs < length s" by (rule skip_Cons_le)
    with 2(3,4) m have n: "2 * length cs + 1 < n" and k: "2 * length cs + 1 < k" by auto
    show ?thesis
      using 2(1) [OF Cons _ _ n k] 2(2) [OF Cons _ _ _ n k] unfolding m
      by (simp add: Cons cong: if_cong)
  qed (simp add: m)
next
  case (4 n s)
  from 4(4) obtain k where m: "m = Suc k" by (cases m) auto
  with 4(3,4) have v: "parse_value n s = parse_value k s" by (intro 4(1)) auto
  show ?case
  proof (cases "parse_value k s")
    case (Some r)
    then obtain x t where r: "parse_value k s = Some (x, t)" by (cases r) auto
    show ?thesis
    proof (cases "skip_space t")
      case (Cons c cs)
      with parse_length(1) [OF r] skip_Cons_le have "length cs < length s" by fastforce
      with 4(3,4) m have n: "2 * length cs + 1 < n" and k: "2 * length cs + 1 < k" by auto
      show ?thesis
        using 4(2) [OF r [folded v] refl Cons _ _ n k] unfolding m
        by (simp add: v r Cons cong: if_cong)
    qed (use m v r in simp)
  qed (use m v in simp)
next
  case (6 n s)
  from 6(4) obtain k where m: "m = Suc k" by (cases m) auto
  show ?case
  proof (cases "\<exists>q r name u. skip_space s = q # r \<and> byte q = 34 \<and> lex_string r = Some (name, u)
      \<and> HasPrefix (skip_space u) '':''")
    case True
    then obtain q r name u where s: "skip_space s = q # r" and q: "byte q = 34"
      and n: "lex_string r = Some (name, u)" and p: "HasPrefix (skip_space u) '':''" by blast
    have l: "length r < length s" "length u < length r" "length (tl (skip_space u)) < length u"
      using skip_Cons_le [OF s] lex_string_length [OF n] skip_space_le [of u] p
      by (auto simp: HasPrefix_one)
    with 6(3,4) m q p have v: "parse_value n (tl (skip_space u)) = parse_value k (tl (skip_space u))"
      by (intro 6(1) [OF s _ n refl]) auto
    show ?thesis
    proof (cases "parse_value k (tl (skip_space u))")
      case (Some x)
      then obtain y w where r: "parse_value k (tl (skip_space u)) = Some (y, w)" by (cases x) auto
      show ?thesis
      proof (cases "skip_space w")
        case (Cons c cs)
        with parse_length(1) [OF r] skip_Cons_le [OF Cons] l have "length cs < length s" by linarith
        with 6(3,4) m have f: "2 * length cs + 1 < n" "2 * length cs + 1 < k" by auto
        show ?thesis
          using 6(2) [OF s _ n refl _ r [folded v] refl Cons _ _ f] q p unfolding m
          by (simp add: v r s n Cons cong: if_cong)
      qed (use m v r s q n p in simp)
    qed (use m v s q n p in simp)
  qed (auto simp: m split: list.splits option.splits)
qed auto

lemma Decode_any_fuel:
  assumes "2 * length s < n"
  shows "Decode s = (if skip_space s = [] then EOF
    else case parse_value n s of None \<Rightarrow> Failed | Some r \<Rightarrow> Got r)"
  using parse_fuel(1) [of s n "2 * length s + 1"] assms
  by (auto simp: Decode_def split: option.splits)

text \<open>The parser without its bound: the equations the grammar has.\<close>

definition value_at :: "string \<Rightarrow> (json \<times> string) option" where
  "value_at s = parse_value (2 * length s + 1) s"

definition items_at :: "string \<Rightarrow> (json list \<times> string) option" where
  "items_at s = parse_items (2 * length s + 2) s"

definition members_at :: "string \<Rightarrow> ((string \<times> json) list \<times> string) option" where
  "members_at s = parse_members (2 * length s + 2) s"

lemma parse_at:
  "2 * length s < n \<Longrightarrow> parse_value n s = value_at s"
  "2 * length s + 1 < n \<Longrightarrow> parse_items n s = items_at s"
  "2 * length s + 1 < n \<Longrightarrow> parse_members n s = members_at s"
  unfolding value_at_def items_at_def members_at_def by (rule parse_fuel; simp)+

lemma value_at_Cons:
  assumes "skip_space s = c # cs"
  shows "value_at s =
    (if c = CHR ''['' then
       (if HasPrefix (skip_space cs) '']'' then Some (JArray [], tl (skip_space cs))
        else map_option (\<lambda>(xs, t). (JArray xs, t)) (items_at cs))
     else if c = CHR ''{'' then
       (if HasPrefix (skip_space cs) ''}'' then Some (JObject [], tl (skip_space cs))
        else map_option (\<lambda>(xs, t). (JObject xs, t)) (members_at cs))
     else lex_scalar (c # cs))"
  using skip_Cons_le [OF assms] by (simp add: value_at_def assms parse_at)

lemma items_at_Some:
  assumes "value_at s = Some (x, t)" "skip_space t = c # cs"
  shows "items_at s =
    (if c = CHR '']'' then Some ([x], cs)
     else if c = CHR '','' then map_option (\<lambda>(xs, u). (x # xs, u)) (items_at cs)
     else None)"
proof -
  have v: "parse_value (Suc (2 * length s)) s = Some (x, t)" using assms(1) by (simp add: value_at_def)
  have "length cs < length s" using parse_length(1) [OF v] skip_Cons_le [OF assms(2)] by linarith
  then have "parse_items (Suc (2 * length s)) cs = items_at cs" by (simp only: parse_at(2))
  moreover have "items_at s = parse_items (Suc (Suc (2 * length s))) s" by (simp add: items_at_def)
  ultimately show ?thesis
    by (simp only: parse_items.simps(2) [of "Suc (2 * length s)" s] v assms(2) option.case prod.case list.case)
qed

lemma members_at_Some:
  assumes "skip_space s = q # r" "byte q = 34" "lex_string r = Some (name, u)"
    and "skip_space u = CHR '':'' # v" "value_at v = Some (x, t)" "skip_space t = c # cs"
  shows "members_at s =
    (if c = CHR ''}'' then Some ([(name, x)], cs)
     else if c = CHR '','' then map_option (\<lambda>(xs, w). ((name, x) # xs, w)) (members_at cs)
     else None)"
proof -
  have v: "parse_value (Suc (2 * length v)) v = Some (x, t)" using assms(5) by (simp add: value_at_def)
  have l: "length v < length s" "length cs < length s"
    using parse_length(1) [OF v] skip_Cons_le [OF assms(6)] skip_Cons_le [OF assms(4)]
      skip_Cons_le [OF assms(1)] lex_string_length [OF assms(3)] by linarith+
  then have "parse_value (Suc (2 * length s)) v = Some (x, t)"
    using assms(5) by (subst parse_at) auto
  moreover have "parse_members (Suc (2 * length s)) cs = members_at cs"
    using l by (simp only: parse_at(3))
  moreover have "members_at s = parse_members (Suc (Suc (2 * length s))) s" by (simp add: members_at_def)
  moreover have "HasPrefix (skip_space u) '':''" using assms(4) by (simp add: HasPrefix_one)
  ultimately show ?thesis
    by (simp only: parse_members.simps(2) [of "Suc (2 * length s)" s] assms option.case prod.case list.case
        list.sel simp_thms if_True if_False)
qed

lemma Decode_value_at:
  "Decode s = (if skip_space s = [] then EOF
    else case value_at s of None \<Rightarrow> Failed | Some r \<Rightarrow> Got r)"
  by (auto simp: Decode_def value_at_def split: option.splits)

lemma lex_scalar_flat: "lex_scalar s = Some (x, t) \<Longrightarrow> (\<forall>xs. x \<noteq> JArray xs) \<and> (\<forall>ms. x \<noteq> JObject ms)"
  by (auto simp: lex_scalar_def split: list.splits if_splits)

end
