(* ===== verification/Go_Host.thy ===== *)
theory Go_Host
  imports Go_Text Go_Json
begin

text \<open>
  What the program asks of the machine it runs on, as one record that every operation that
  touches files takes.  \<^verbatim>\<open>os.Lstat\<close>, \<^verbatim>\<open>os.Stat\<close> and \<^verbatim>\<open>os.Open\<close> are three independent
  observations of a path, so a file that is exchanged between two of them is a value of this
  record like any other.  The record also carries the four library facts that are data rather
  than code: the case-folding orbits of Unicode, the grammar of mail addresses, the quoting of
  \<^verbatim>\<open>%q\<close>, the wording of the errors of \<^verbatim>\<open>encoding/json\<close>, and the order in which a \<^verbatim>\<open>range\<close> loop
  visits the keys of a map.
\<close>

datatype file_kind = Regular | Directory | Symlink | Irregular

record file_info =
  fi_kind :: file_kind
  fi_perm :: int
  fi_device :: int
  fi_inode :: int

definition IsRegular :: "file_info \<Rightarrow> bool" where
  "IsRegular info \<longleftrightarrow> fi_kind info = Regular"

text \<open>\<^verbatim>\<open>os.SameFile\<close> compares device and inode.\<close>

definition SameFile :: "file_info \<Rightarrow> file_info \<Rightarrow> bool" where
  "SameFile a b \<longleftrightarrow> fi_device a = fi_device b \<and> fi_inode a = fi_inode b"

text \<open>
  An open file: what \<^verbatim>\<open>Stat\<close> reports on the handle, the bytes behind it, and, when reading
  fails, the number of bytes delivered before the failure.
\<close>

record opened_file =
  of_stat :: "file_info option"
  of_contents :: string
  of_fails_after :: "nat option"

text \<open>\<^verbatim>\<open>io.ReadAll(io.LimitReader(file, n))\<close>.\<close>

definition limited :: "int \<Rightarrow> string \<Rightarrow> string" where
  "limited n s = (if int (length s) \<le> n then s else take (nat n) s)"

definition ReadAll_limited :: "opened_file \<Rightarrow> int \<Rightarrow> string option" where
  "ReadAll_limited f n =
     (case of_fails_after f of
        Some k \<Rightarrow> if int k < n then None else Some (limited n (of_contents f))
      | None \<Rightarrow> Some (limited n (of_contents f)))"

record host =
  os_Lstat :: "string \<Rightarrow> file_info option"
  os_Stat :: "string \<Rightarrow> file_info option"
  os_Open :: "string \<Rightarrow> opened_file option"
  GOOS_windows :: bool
  SimpleFold_orbit :: "int \<Rightarrow> int \<Rightarrow> bool"
  mail_ParseAddress :: "string \<Rightarrow> string option"
  strconv_Quote :: "string \<Rightarrow> string"
  json_error_text :: "decoder \<Rightarrow> string"
  range_order :: "string list \<Rightarrow> string list"

text \<open>\<^verbatim>\<open>mode.Perm() & 0o077\<close>: the permission bits of group and others.\<close>

definition group_world_bits :: "file_info \<Rightarrow> int" where
  "group_world_bits info = and (fi_perm info) 63"

lemma group_world_bits_mod: "group_world_bits info = fi_perm info mod 64"
  using take_bit_eq_mask [of 6 "fi_perm info"]
  by (simp add: group_world_bits_def take_bit_eq_mod mask_eq_exp_minus_1)

text \<open>\<^verbatim>\<open>filepath.Clean\<close> on Unix.\<close>

fun clean_parts :: "bool \<Rightarrow> string list \<Rightarrow> string list \<Rightarrow> string list" where
  "clean_parts rooted out [] = rev out"
| "clean_parts rooted out (p # ps) =
     (if p = [] \<or> p = ''.'' then clean_parts rooted out ps
      else if p = ''..'' then
        (case out of
           [] \<Rightarrow> clean_parts rooted (if rooted then [] else [p]) ps
         | q # qs \<Rightarrow> if q = ''..'' then clean_parts rooted (p # out) ps else clean_parts rooted qs ps)
      else clean_parts rooted (p # out) ps)"

definition filepath_Clean :: "string \<Rightarrow> string" where
  "filepath_Clean path =
     (let rooted = HasPrefix path ''/'';
          parts = clean_parts rooted [] (Split (CHR ''/'') path);
          body = Join parts ''/''
      in if rooted then CHR ''/'' # body else if body = [] then ''.'' else body)"

definition range_order_ok :: "host \<Rightarrow> bool" where
  "range_order_ok h \<longleftrightarrow> (\<forall>names. mset (range_order h names) = mset names)"

lemma limited_take: "limited n s = take (nat n) s"
  by (simp add: limited_def)

lemma ReadAll_limited_whole:
  "ReadAll_limited f (n + 1) = Some s \<Longrightarrow> int (length s) \<le> n \<Longrightarrow> s = of_contents f"
  by (auto simp: ReadAll_limited_def limited_def min_def split: option.splits if_splits)

section \<open>A host made of private regular files\<close>

text \<open>
  A concrete host for the examples: the listed files exist, are regular, private to their owner
  and readable; nothing else exists, folding is ASCII only, and maps are visited in key order.
\<close>

definition private_info :: file_info where
  "private_info = \<lparr>fi_kind = Regular, fi_perm = 384, fi_device = 1, fi_inode = 1\<rparr>"

definition memory_host :: "(string \<times> string) list \<Rightarrow> host" where
  "memory_host files = \<lparr>
     os_Lstat = (\<lambda>path. map_option (\<lambda>_. private_info) (map_of files path)),
     os_Stat = (\<lambda>path. map_option (\<lambda>_. private_info) (map_of files path)),
     os_Open = (\<lambda>path. map_option (\<lambda>contents.
        \<lparr>of_stat = Some private_info, of_contents = contents, of_fails_after = None\<rparr>) (map_of files path)),
     GOOS_windows = False,
     SimpleFold_orbit = (\<lambda>a b. False),
     mail_ParseAddress = (\<lambda>s. if CHR ''@'' \<in> set s then Some s else None),
     strconv_Quote = (\<lambda>s. CHR 0x22 # s @ [CHR 0x22]),
     json_error_text = (\<lambda>d. ''invalid character''),
     range_order = (\<lambda>names. names)\<rparr>"

end
