(* ===== verification/Go_Net.thy ===== *)
theory Go_Net
  imports Go_Text
begin

text \<open>
  The part of Go's \<^verbatim>\<open>net\<close>, \<^verbatim>\<open>net/netip\<close> and \<^verbatim>\<open>net/url\<close> packages that the configuration calls:
  addresses and CIDR blocks, URL parsing and printing, host and port.  Every function is the
  byte-level algorithm of the library; its errors, whose text the program never shows, are
  \<^const>\<open>None\<close>.
\<close>

section \<open>IP addresses\<close>

text \<open>An address is four or sixteen octets; a zone makes \<^verbatim>\<open>net.ParseIP\<close> fail, so it is kept only
  as a flag.\<close>

record ip_addr =
  octets :: "int list"
  has_zone :: bool

text \<open>\<^verbatim>\<open>parseIPv4Fields\<close>: the finished fields, the value and the length of the current one.  In front
  of a zone a trailing dot is not recognised as the last byte, and the last field reads as 0.\<close>

fun ipv4_fields :: "bool \<Rightarrow> int list \<Rightarrow> int \<Rightarrow> nat \<Rightarrow> string \<Rightarrow> int list option" where
  "ipv4_fields zoned acc v n [] =
     (if length acc = 3 \<and> (n \<noteq> 0 \<or> zoned) then Some (acc @ [v]) else None)"
| "ipv4_fields zoned acc v n (c # cs) =
     (if is_digit c then
        (if n = 1 \<and> v = 0 then None
         else if v * 10 + (byte c - 48) > 255 then None
         else ipv4_fields zoned acc (v * 10 + (byte c - 48)) (Suc n) cs)
      else if c = CHR ''.'' then
        (if n = 0 \<or> length acc = 3 then None else ipv4_fields zoned (acc @ [v]) 0 0 cs)
      else None)"

definition parseIPv4 :: "bool \<Rightarrow> string \<Rightarrow> int list option" where
  "parseIPv4 zoned s = ipv4_fields zoned [] 0 0 s"

definition hex_value :: "char \<Rightarrow> int option" where
  "hex_value c =
     (if is_digit c then Some (byte c - 48)
      else if between 97 102 c then Some (byte c - 87)
      else if between 65 70 c then Some (byte c - 55)
      else None)"

text \<open>One group of at most four hexadecimal digits: \<open>None\<close> is the failure on a fifth.\<close>

fun hex_group :: "nat \<Rightarrow> int \<Rightarrow> string \<Rightarrow> (int \<times> nat \<times> string) option" where
  "hex_group n acc [] = Some (acc, n, [])"
| "hex_group n acc (c # cs) =
     (case hex_value c of
        None \<Rightarrow> Some (acc, n, c # cs)
      | Some d \<Rightarrow> if n > 3 then None else hex_group (Suc n) (acc * 16 + d) cs)"

lemma hex_group_length: "hex_group n acc s = Some (v, m, t) \<Longrightarrow> length t + (m - n) = length s \<and> n \<le> m"
  by (induction n acc s rule: hex_group.induct) (fastforce split: option.splits if_splits)+

text \<open>The loop of \<^verbatim>\<open>parseIPv6\<close>: the octets read so far, where the ellipsis stands, what is left.\<close>

function ipv6_loop :: "bool \<Rightarrow> int list \<Rightarrow> nat option \<Rightarrow> string \<Rightarrow> (int list \<times> nat option \<times> string) option" where
  "ipv6_loop zoned ip ellipsis s =
     (if length ip \<ge> 16 then Some (ip, ellipsis, s)
      else case hex_group 0 0 s of
        None \<Rightarrow> None
      | Some (acc, off, t) \<Rightarrow>
          if off = 0 then None
          else (case t of
            [] \<Rightarrow> Some (ip @ [acc div 256, acc mod 256], ellipsis, [])
          | c # cs \<Rightarrow>
              if c = CHR ''.'' then
                (if ellipsis = None \<and> length ip \<noteq> 12 then None
                 else if length ip + 4 > 16 then None
                 else case parseIPv4 zoned s of
                   None \<Rightarrow> None
                 | Some v4 \<Rightarrow> Some (ip @ v4, ellipsis, []))
              else if c \<noteq> CHR '':'' then None
              else if cs = [] then None
              else if hd cs = CHR '':'' then
                (if ellipsis \<noteq> None then None
                 else if tl cs = [] then
                   Some (ip @ [acc div 256, acc mod 256], Some (length ip + 2), [])
                 else ipv6_loop zoned (ip @ [acc div 256, acc mod 256]) (Some (length ip + 2)) (tl cs))
              else ipv6_loop zoned (ip @ [acc div 256, acc mod 256]) ellipsis cs))"
  by pat_completeness auto
termination by (relation "measure (\<lambda>(z, ip, e, s). 16 - length ip)") auto

declare ipv6_loop.simps [simp del]

definition ipv6_expand :: "int list \<Rightarrow> nat option \<Rightarrow> int list option" where
  "ipv6_expand ip ellipsis =
     (if length ip < 16 then
        (case ellipsis of
           None \<Rightarrow> None
         | Some e \<Rightarrow> Some (take e ip @ replicate (16 - length ip) 0 @ drop e ip))
      else if ellipsis \<noteq> None then None else Some ip)"

definition parseIPv6 :: "string \<Rightarrow> ip_addr option" where
  "parseIPv6 input =
     (let zone = dropWhile (\<lambda>c. c \<noteq> CHR ''%'') input;
          s = takeWhile (\<lambda>c. c \<noteq> CHR ''%'') input;
          finish = (\<lambda>os. Some \<lparr>octets = os, has_zone = (zone \<noteq> [])\<rparr>)
      in if length zone = 1 then None
         else if HasPrefix s ''::'' then
           (if s = ''::'' then finish (replicate 16 0)
            else case ipv6_loop (zone \<noteq> []) [] (Some 0) (drop 2 s) of
              Some (ip, e, []) \<Rightarrow> (case ipv6_expand ip e of None \<Rightarrow> None | Some os \<Rightarrow> finish os)
            | _ \<Rightarrow> None)
         else case ipv6_loop (zone \<noteq> []) [] None s of
              Some (ip, e, []) \<Rightarrow> (case ipv6_expand ip e of None \<Rightarrow> None | Some os \<Rightarrow> finish os)
            | _ \<Rightarrow> None)"

text \<open>\<^verbatim>\<open>netip.ParseAddr\<close>: the first of the three characters that occurs decides the family.\<close>

definition ParseAddr :: "string \<Rightarrow> ip_addr option" where
  "ParseAddr s =
     (case dropWhile (\<lambda>c. c \<notin> set ''.:%'') s of
        [] \<Rightarrow> None
      | c # _ \<Rightarrow>
          if c = CHR ''.'' then
            (case parseIPv4 False s of None \<Rightarrow> None | Some os \<Rightarrow> Some \<lparr>octets = os, has_zone = False\<rparr>)
          else if c = CHR '':'' then parseIPv6 s
          else None)"

text \<open>\<^verbatim>\<open>net.ParseIP(s) != nil\<close>.\<close>

definition ParseIP_ok :: "string \<Rightarrow> bool" where
  "ParseIP_ok s = (case ParseAddr s of None \<Rightarrow> False | Some a \<Rightarrow> \<not> has_zone a)"

section \<open>CIDR blocks\<close>

record IPNet =
  net_IP :: "int list"
  net_ones :: int

fun dtoi :: "int \<Rightarrow> string \<Rightarrow> int option" where
  "dtoi n [] = Some n"
| "dtoi n (c # cs) =
     (if \<not> is_digit c then None
      else if n * 10 + (byte c - 48) \<ge> 16777215 then None
      else dtoi (n * 10 + (byte c - 48)) cs)"

text \<open>The octets of an address with all but the first \<open>ones\<close> bits cleared.\<close>

fun mask_octets :: "int \<Rightarrow> int list \<Rightarrow> int list" where
  "mask_octets ones [] = []"
| "mask_octets ones (b # bs) =
     (let k = max 0 (min 8 ones) in (b div 2 ^ nat (8 - k)) * 2 ^ nat (8 - k)) # mask_octets (ones - 8) bs"

definition ParseCIDR :: "string \<Rightarrow> IPNet option" where
  "ParseCIDR s =
     (case Cut CHR ''/'' s of
        None \<Rightarrow> None
      | Some (addr, len) \<Rightarrow>
          (case ParseAddr addr of
             None \<Rightarrow> None
           | Some a \<Rightarrow>
               if has_zone a \<or> len = [] then None
               else case dtoi 0 len of
                 None \<Rightarrow> None
               | Some n \<Rightarrow>
                   if n > 8 * int (length (octets a)) then None
                   else Some \<lparr>net_IP = mask_octets n (octets a), net_ones = n\<rparr>))"

text \<open>\<^verbatim>\<open>net.JoinHostPort\<close>.\<close>

definition JoinHostPort :: "string \<Rightarrow> string \<Rightarrow> string" where
  "JoinHostPort host port =
     (if CHR '':'' \<in> set host then ''['' @ host @ '']:'' @ port else host @ '':'' @ port)"

section \<open>URLs\<close>

record userinfo =
  ui_username :: string
  ui_password :: "string option"

record URL =
  Scheme :: string
  Opaque :: string
  User :: "userinfo option"
  Host :: string
  Path :: string
  RawPath :: string
  OmitHost :: bool
  ForceQuery :: bool
  RawQuery :: string
  Fragment :: string

datatype encoding = encodePath | encodeHost | encodeZone | encodeUserPassword | encodeFragment

definition shouldEscape :: "char \<Rightarrow> encoding \<Rightarrow> bool" where
  "shouldEscape c mode =
     (if is_alnum c then False
      else if mode \<in> {encodeHost, encodeZone} \<and> (c \<in> set ''!$&()*+,;=:[]<>'' \<or> byte c \<in> {34, 39})
      then False
      else if c \<in> set ''-_.~'' then False
      else if c \<in> set ''$&+,/:;=?@'' then
        (case mode of
           encodePath \<Rightarrow> c = CHR ''?''
         | encodeUserPassword \<Rightarrow> c \<in> set ''@/?:''
         | encodeFragment \<Rightarrow> False
         | _ \<Rightarrow> True)
      else if mode = encodeFragment \<and> c \<in> set ''!()*'' then False
      else True)"

fun unescape :: "encoding \<Rightarrow> string \<Rightarrow> string option" where
  "unescape mode [] = Some []"
| "unescape mode (c # cs) =
     (if c = CHR ''%'' then
        (case cs of
           a # b # rest \<Rightarrow>
             (case (hex_value a, hex_value b) of
                (Some x, Some y) \<Rightarrow>
                  if mode = encodeHost \<and> x < 8 \<and> [a, b] \<noteq> ''25'' then None
                  else if mode = encodeZone \<and> [a, b] \<noteq> ''25'' \<and> x * 16 + y \<noteq> 32
                          \<and> shouldEscape (char_of (x * 16 + y)) encodeHost then None
                  else map_option (\<lambda>t. char_of (x * 16 + y) # t) (unescape mode rest)
              | _ \<Rightarrow> None)
         | _ \<Rightarrow> None)
      else if mode \<in> {encodeHost, encodeZone} \<and> byte c < 128 \<and> shouldEscape c mode then None
      else map_option (\<lambda>t. c # t) (unescape mode cs))"

definition upper_hex :: "int \<Rightarrow> char" where
  "upper_hex n = (if n < 10 then char_of (48 + n) else char_of (55 + n))"

definition escape :: "encoding \<Rightarrow> string \<Rightarrow> string" where
  "escape mode s = concat (map (\<lambda>c.
     if shouldEscape c mode then [CHR ''%'', upper_hex (byte c div 16), upper_hex (byte c mod 16)]
     else [c]) s)"

definition scheme_char :: "char \<Rightarrow> bool" where
  "scheme_char c \<longleftrightarrow> is_alnum c \<or> c \<in> set ''+-.''"

text \<open>\<^verbatim>\<open>getScheme\<close>: \<open>None\<close> is the error, otherwise the scheme (possibly empty) and the rest.\<close>

definition getScheme :: "string \<Rightarrow> (string \<times> string) option" where
  "getScheme s =
     (let scheme = takeWhile scheme_char s; rest = dropWhile scheme_char s in
      if scheme \<noteq> [] \<and> \<not> is_alpha (hd scheme) then Some ([], s)
      else case rest of
        [] \<Rightarrow> Some ([], s)
      | c # cs \<Rightarrow>
          if c = CHR '':'' then (if scheme = [] then None else Some (scheme, cs))
          else Some ([], s))"

definition ascii_lower :: "char \<Rightarrow> char" where
  "ascii_lower c = (if is_upper c then char_of (byte c + 32) else c)"

definition validOptionalPort :: "string \<Rightarrow> bool" where
  "validOptionalPort port =
     (case port of [] \<Rightarrow> True | c # cs \<Rightarrow> c = CHR '':'' \<and> list_all is_digit cs)"

definition from_last :: "char \<Rightarrow> string \<Rightarrow> (string \<times> string) option" where
  "from_last c s =
     (if c \<in> set s
      then Some (rev (tl (dropWhile (\<lambda>x. x \<noteq> c) (rev s))), rev (takeWhile (\<lambda>x. x \<noteq> c) (rev s)))
      else None)"

text \<open>The position of \<^verbatim>\<open>%25\<close> in a bracketed host: everything before it, and the rest with it.\<close>

fun split_zone :: "string \<Rightarrow> (string \<times> string) option" where
  "split_zone [] = None"
| "split_zone (c # cs) =
     (if HasPrefix (c # cs) ''%25'' then Some ([], c # cs)
      else map_option (\<lambda>(a, b). (c # a, b)) (split_zone cs))"

definition parseHost :: "string \<Rightarrow> string option" where
  "parseHost host =
     (case from_last CHR ''['' host of
        Some (front, after) \<Rightarrow>
          if front \<noteq> [] then None
          else (case from_last CHR '']'' after of
            None \<Rightarrow> None
          | Some (hostname, colonPort) \<Rightarrow>
              if \<not> validOptionalPort colonPort then None
              else (case
                  (case split_zone hostname of
                     Some (h, z) \<Rightarrow>
                       (case (unescape encodeHost h, unescape encodeZone z) of
                          (Some h', Some z') \<Rightarrow> Some (h' @ z') | _ \<Rightarrow> None)
                   | None \<Rightarrow> unescape encodeHost hostname) of
                  None \<Rightarrow> None
                | Some name \<Rightarrow>
                    (case ParseAddr name of
                       None \<Rightarrow> None
                     | Some a \<Rightarrow>
                         if length (octets a) = 4 then None
                         else Some (''['' @ name @ '']'' @ colonPort))))
      | None \<Rightarrow>
          (case from_last CHR '':'' host of
             Some (_, port) \<Rightarrow>
               if validOptionalPort (CHR '':'' # port) then unescape encodeHost host else None
           | None \<Rightarrow> unescape encodeHost host))"

definition validUserinfo :: "string \<Rightarrow> bool" where
  "validUserinfo s = list_all (\<lambda>c. is_alnum c \<or> c \<in> set ''-._:~!$&()*+,;=%@'' \<or> byte c = 39) s"

definition parseAuthority :: "string \<Rightarrow> (userinfo option \<times> string) option" where
  "parseAuthority authority =
     (case from_last CHR ''@'' authority of
        None \<Rightarrow> map_option (\<lambda>h. (None, h)) (parseHost authority)
      | Some (userinfo, hostport) \<Rightarrow>
          (case parseHost hostport of
             None \<Rightarrow> None
           | Some h \<Rightarrow>
               if \<not> validUserinfo userinfo then None
               else (case Cut CHR '':'' userinfo of
                 None \<Rightarrow>
                   (case unescape encodeUserPassword userinfo of
                      None \<Rightarrow> None
                    | Some u \<Rightarrow> Some (Some \<lparr>ui_username = u, ui_password = None\<rparr>, h))
               | Some (name, pass) \<Rightarrow>
                   (case (unescape encodeUserPassword name, unescape encodeUserPassword pass) of
                      (Some u, Some p) \<Rightarrow> Some (Some \<lparr>ui_username = u, ui_password = Some p\<rparr>, h)
                    | _ \<Rightarrow> None))))"

definition empty_URL :: URL where
  "empty_URL = \<lparr>Scheme = [], Opaque = [], User = None, Host = [], Path = [], RawPath = [],
     OmitHost = False, ForceQuery = False, RawQuery = [], Fragment = []\<rparr>"

text \<open>\<^verbatim>\<open>setPath\<close>.\<close>

definition setPath :: "URL \<Rightarrow> string \<Rightarrow> URL option" where
  "setPath u p =
     (case unescape encodePath p of
        None \<Rightarrow> None
      | Some path \<Rightarrow>
          Some (u\<lparr>Path := path, RawPath := (if p = escape encodePath path then [] else p)\<rparr>))"

definition control_byte :: "char \<Rightarrow> bool" where
  "control_byte c \<longleftrightarrow> byte c < 32 \<or> byte c = 127"

definition split_query :: "string \<Rightarrow> bool \<times> string \<times> string" where
  "split_query rest =
     (if HasSuffix rest ''?'' \<and> count_list rest CHR ''?'' = 1 then (True, butlast rest, [])
      else case Cut CHR ''?'' rest of
        None \<Rightarrow> (False, rest, [])
      | Some (front, after) \<Rightarrow> (False, front, after))"

text \<open>\<^verbatim>\<open>parse(rawURL, false)\<close> after the scheme and the query were split off.\<close>

definition parse_hier :: "URL \<Rightarrow> string \<Rightarrow> URL option" where
  "parse_hier u rest =
     (if \<not> HasPrefix rest ''/'' \<and> Scheme u \<noteq> [] then Some (u\<lparr>Opaque := rest\<rparr>)
      else if \<not> HasPrefix rest ''/'' \<and> CHR '':'' \<in> set (takeWhile (\<lambda>c. c \<noteq> CHR ''/'') rest) then None
      else if (Scheme u \<noteq> [] \<or> \<not> HasPrefix rest ''///'') \<and> HasPrefix rest ''//'' then
        (case parseAuthority (takeWhile (\<lambda>c. c \<noteq> CHR ''/'') (drop 2 rest)) of
           None \<Rightarrow> None
         | Some (user, host) \<Rightarrow>
             setPath (u\<lparr>User := user, Host := host\<rparr>) (dropWhile (\<lambda>c. c \<noteq> CHR ''/'') (drop 2 rest)))
      else setPath (u\<lparr>OmitHost := (Scheme u \<noteq> [] \<and> HasPrefix rest ''/'')\<rparr>) rest)"

definition url_parse :: "string \<Rightarrow> URL option" where
  "url_parse s =
     (if list_ex control_byte s then None
      else if s = ''*'' then Some (empty_URL\<lparr>Path := ''*''\<rparr>)
      else case getScheme s of
        None \<Rightarrow> None
      | Some (scheme, rest) \<Rightarrow>
          (case split_query rest of (force, rest', query) \<Rightarrow>
             parse_hier (empty_URL\<lparr>Scheme := map ascii_lower scheme, ForceQuery := force,
                                   RawQuery := query\<rparr>) rest'))"

text \<open>\<^verbatim>\<open>url.Parse\<close>.\<close>

definition url_Parse :: "string \<Rightarrow> URL option" where
  "url_Parse raw =
     (case Cut CHR ''#'' raw of
        None \<Rightarrow> url_parse raw
      | Some (s, frag) \<Rightarrow>
          (case url_parse s of
             None \<Rightarrow> None
           | Some u \<Rightarrow>
               if frag = [] then Some u
               else map_option (\<lambda>f. u\<lparr>Fragment := f\<rparr>) (unescape encodeFragment frag)))"

definition IsAbs :: "URL \<Rightarrow> bool" where
  "IsAbs u \<longleftrightarrow> Scheme u \<noteq> []"

definition Hostname :: "URL \<Rightarrow> string" where
  "Hostname u =
     (let h = (case from_last CHR '':'' (Host u) of
                 Some (front, port) \<Rightarrow>
                   if validOptionalPort (CHR '':'' # port) then front else Host u
               | None \<Rightarrow> Host u)
      in if HasPrefix h ''['' \<and> HasSuffix h '']'' then butlast (tl h) else h)"

text \<open>
  \<^verbatim>\<open>URL.String\<close> for a URL with a scheme and a host but without userinfo, path and fragment,
  the only shape the program prints.
\<close>

definition origin_String :: "URL \<Rightarrow> string" where
  "origin_String u = Scheme u @ ''://'' @ escape encodeHost (Host u)
     @ (if ForceQuery u \<or> RawQuery u \<noteq> [] then ''?'' @ RawQuery u else [])"

section \<open>Facts the parsers rest on\<close>

lemma ipv4_fields_shape:
  "ipv4_fields z acc v n s = Some os \<Longrightarrow> 0 \<le> v \<Longrightarrow> v \<le> 255 \<Longrightarrow> \<forall>b\<in>set acc. 0 \<le> b \<and> b \<le> 255 \<Longrightarrow>
     length os = 4 \<and> (\<forall>b\<in>set os. 0 \<le> b \<and> b \<le> 255)"
  by (induction z acc v n s rule: ipv4_fields.induct)
    (auto simp: is_digit_def between_def split: if_splits)

lemma parseIPv4_shape: "parseIPv4 z s = Some os \<Longrightarrow> length os = 4 \<and> (\<forall>b\<in>set os. 0 \<le> b \<and> b \<le> 255)"
  unfolding parseIPv4_def by (erule ipv4_fields_shape) auto

lemma length_mask_octets [simp]: "length (mask_octets n bs) = length bs"
  by (induction n bs rule: mask_octets.induct) auto

lemma parse_hier_Scheme: "parse_hier u rest = Some w \<Longrightarrow> Scheme w = Scheme u"
  by (auto simp: parse_hier_def setPath_def split: if_splits option.splits)

end
