(* ===== verification/Go_Base64.thy ===== *)
theory Go_Base64
  imports Go_Text
begin

text \<open>
  Go's \<^verbatim>\<open>encoding/base64\<close>: \<^verbatim>\<open>StdEncoding\<close> with its strict decoder, which the key readers use, and
  \<^verbatim>\<open>RawURLEncoding\<close>, which the development secrets use.  A byte string is a \<^typ>\<open>string\<close>.
\<close>

section \<open>Alphabets\<close>

definition std_alphabet :: string where
  "std_alphabet = ''ABCDEFGHIJKLMNOPQRSTUVWXYZabcdefghijklmnopqrstuvwxyz0123456789+/''"

definition url_alphabet :: string where
  "url_alphabet = ''ABCDEFGHIJKLMNOPQRSTUVWXYZabcdefghijklmnopqrstuvwxyz0123456789-_''"

definition digit_of :: "string \<Rightarrow> int \<Rightarrow> char" where
  "digit_of alphabet n = alphabet ! nat n"

definition std_value :: "char \<Rightarrow> int option" where
  "std_value c =
     (if is_upper c then Some (byte c - 65)
      else if is_lower c then Some (byte c - 71)
      else if is_digit c then Some (byte c + 4)
      else if c = CHR ''+'' then Some 62
      else if c = CHR ''/'' then Some 63
      else None)"

section \<open>Encoding\<close>

fun std_encode :: "string \<Rightarrow> string" where
  "std_encode [] = []"
| "std_encode [a] =
     [digit_of std_alphabet (byte a div 4), digit_of std_alphabet (byte a mod 4 * 16), CHR ''='', CHR ''='']"
| "std_encode [a, b] =
     [digit_of std_alphabet (byte a div 4), digit_of std_alphabet (byte a mod 4 * 16 + byte b div 16),
      digit_of std_alphabet (byte b mod 16 * 4), CHR ''='']"
| "std_encode (a # b # c # rest) =
     digit_of std_alphabet (byte a div 4)
     # digit_of std_alphabet (byte a mod 4 * 16 + byte b div 16)
     # digit_of std_alphabet (byte b mod 16 * 4 + byte c div 64)
     # digit_of std_alphabet (byte c mod 64) # std_encode rest"

fun raw_url_encode :: "string \<Rightarrow> string" where
  "raw_url_encode [] = []"
| "raw_url_encode [a] =
     [digit_of url_alphabet (byte a div 4), digit_of url_alphabet (byte a mod 4 * 16)]"
| "raw_url_encode [a, b] =
     [digit_of url_alphabet (byte a div 4), digit_of url_alphabet (byte a mod 4 * 16 + byte b div 16),
      digit_of url_alphabet (byte b mod 16 * 4)]"
| "raw_url_encode (a # b # c # rest) =
     digit_of url_alphabet (byte a div 4)
     # digit_of url_alphabet (byte a mod 4 * 16 + byte b div 16)
     # digit_of url_alphabet (byte b mod 16 * 4 + byte c div 64)
     # digit_of url_alphabet (byte c mod 64) # raw_url_encode rest"

section \<open>Strict decoding\<close>

text \<open>One quantum of four characters, the last one possibly padded.  \<open>None\<close> is
  \<^verbatim>\<open>CorruptInputError\<close>; strict mode demands that the unused low bits are zero.\<close>

fun decode_quanta :: "string \<Rightarrow> string option" where
  "decode_quanta [] = Some []"
| "decode_quanta (p # q # r # s # rest) =
     (if r = CHR ''='' \<and> s = CHR ''='' \<and> rest = [] then
        (case (std_value p, std_value q) of
           (Some i, Some j) \<Rightarrow>
             if j mod 16 \<noteq> 0 then None else Some [char_of (i * 4 + j div 16)]
         | _ \<Rightarrow> None)
      else if s = CHR ''='' \<and> rest = [] then
        (case (std_value p, std_value q, std_value r) of
           (Some i, Some j, Some k) \<Rightarrow>
             if k mod 4 \<noteq> 0 then None
             else Some [char_of (i * 4 + j div 16), char_of (j mod 16 * 16 + k div 4)]
         | _ \<Rightarrow> None)
      else
        (case (std_value p, std_value q, std_value r, std_value s) of
           (Some i, Some j, Some k, Some l) \<Rightarrow>
             map_option (\<lambda>t. char_of (i * 4 + j div 16) # char_of (j mod 16 * 16 + k div 4)
                             # char_of (k mod 4 * 64 + l) # t) (decode_quanta rest)
         | _ \<Rightarrow> None))"
| "decode_quanta _ = None"

text \<open>\<^verbatim>\<open>StdEncoding.Strict().DecodeString\<close>: carriage returns and newlines are skipped.\<close>

definition DecodeString :: "string \<Rightarrow> string option" where
  "DecodeString s = decode_quanta (filter (\<lambda>c. c \<noteq> CHR 0x0A \<and> c \<noteq> CHR 0x0D) s)"

abbreviation EncodeToString :: "string \<Rightarrow> string" where
  "EncodeToString \<equiv> std_encode"

section \<open>Round trip\<close>

lemma std_value_digit: "0 \<le> n \<Longrightarrow> n < 64 \<Longrightarrow> std_value (digit_of std_alphabet n) = Some n"
proof -
  assume "0 \<le> n" "n < 64"
  then have "n \<in> set [0..63]" by simp
  moreover have "list_all (\<lambda>n. std_value (digit_of std_alphabet n) = Some n) [0..63]"
    by code_simp
  ultimately show ?thesis by (simp only: list_all_iff)
qed

lemma digit_plain: "0 \<le> n \<Longrightarrow> n < 64 \<Longrightarrow>
    digit_of std_alphabet n \<notin> {CHR ''='', CHR 0x0A, CHR 0x0D}"
proof -
  assume n: "0 \<le> n" "n < 64"
  have "\<forall>c\<in>set ''=\<newline>''. std_value c = None" and "std_value (CHR 0x0D) = None"
    by (simp_all add: std_value_def char_class_defs)
  with std_value_digit [OF n] show ?thesis by auto
qed

lemma digit_ne:
  assumes "0 \<le> n" "n < 64"
  shows "digit_of std_alphabet n \<noteq> CHR ''=''" "digit_of std_alphabet n \<noteq> CHR 0x0A"
    "digit_of std_alphabet n \<noteq> CHR 0x0D"
  using digit_plain [OF assms] by simp_all

lemma sextets:
  fixes a b c :: char
  shows "0 \<le> byte a div 4" "byte a div 4 < 64"
    "0 \<le> byte a mod 4 * 16" "byte a mod 4 * 16 < 64"
    "0 \<le> byte a mod 4 * 16 + byte b div 16" "byte a mod 4 * 16 + byte b div 16 < 64"
    "0 \<le> byte b mod 16 * 4" "byte b mod 16 * 4 < 64"
    "0 \<le> byte b mod 16 * 4 + byte c div 64" "byte b mod 16 * 4 + byte c div 64 < 64"
    "0 \<le> byte c mod 64" "byte c mod 64 < 64"
  using byte_range [of a] byte_range [of b] byte_range [of c]
  by (auto simp: div_less_iff_less_mult pos_mod_bound)

lemma regroup:
  fixes a b c :: int
  assumes "0 \<le> b" "b < 256" "0 \<le> c" "c < 256"
  shows "a div 4 * 4 + (a mod 4 * 16 + b div 16) div 16 = a"
    "(a mod 4 * 16 + b div 16) mod 16 * 16 + (b mod 16 * 4 + c div 64) div 4 = b"
    "(b mod 16 * 4 + c div 64) mod 4 * 64 + c mod 64 = c"
    "a div 4 * 4 + a mod 4 * 16 div 16 = a" "a mod 4 * 16 mod 16 = 0"
    "(a mod 4 * 16 + b div 16) mod 16 * 16 + b mod 16 * 4 div 4 = b" "b mod 16 * 4 mod 4 = 0"
proof -
  have b: "0 \<le> b div 16" "b div 16 < 16" and c: "0 \<le> c div 64" "c div 64 < 4"
    using assms by (simp_all add: div_less_iff_less_mult)
  have d16: "(x * 16 + b div 16) div 16 = x" "(x * 16 + b div 16) mod 16 = b div 16" for x
    using b by simp_all
  have d4: "(x * 4 + c div 64) div 4 = x" "(x * 4 + c div 64) mod 4 = c div 64" for x
    using c by simp_all
  show "a div 4 * 4 + (a mod 4 * 16 + b div 16) div 16 = a"
    "(a mod 4 * 16 + b div 16) mod 16 * 16 + (b mod 16 * 4 + c div 64) div 4 = b"
    "(b mod 16 * 4 + c div 64) mod 4 * 64 + c mod 64 = c"
    "a div 4 * 4 + a mod 4 * 16 div 16 = a" "a mod 4 * 16 mod 16 = 0"
    "(a mod 4 * 16 + b div 16) mod 16 * 16 + b mod 16 * 4 div 4 = b" "b mod 16 * 4 mod 4 = 0"
    using b c by (simp_all add: d16 d4 mod_pos_pos_trivial del: mod_div_trivial)
qed

lemma decode_encode: "decode_quanta (std_encode bs) = Some bs"
proof (induction bs rule: std_encode.induct)
  case (2 a)
  show ?case
    using regroup(4,5) [of 0 0 "byte a"] by (simp add: std_value_digit sextets)
next
  case (3 a b)
  show ?case
    using regroup(1,6) [of "byte b" 0 "byte a"] regroup(7) [of "byte b" 0] byte_range [of b]
    by (simp add: std_value_digit sextets digit_ne)
next
  case (4 a b c rest)
  then show ?case
    using regroup(1,2) [of "byte b" "byte c" "byte a"] regroup(3) [of "byte b" "byte c"] byte_range [of b] byte_range [of c]
    by (simp add: std_value_digit sextets digit_ne)
qed simp

lemma encode_no_newline: "filter (\<lambda>c. c \<noteq> CHR 0x0A \<and> c \<noteq> CHR 0x0D) (std_encode bs) = std_encode bs"
  by (induction bs rule: std_encode.induct) (simp_all add: sextets digit_ne)

theorem DecodeString_EncodeToString: "DecodeString (EncodeToString bs) = Some bs"
  by (simp only: DecodeString_def encode_no_newline decode_encode)

text \<open>Decoding, then comparing the encoding with the text, accepts exactly the canonical texts.\<close>

lemma canonical_iff:
  "(\<exists>bs. DecodeString s = Some bs \<and> P bs \<and> EncodeToString bs = s) \<longleftrightarrow>
     (\<exists>bs. P bs \<and> s = EncodeToString bs)"
  using DecodeString_EncodeToString by auto

lemma EncodeToString_inject: "EncodeToString bs = EncodeToString cs \<Longrightarrow> bs = cs"
  by (metis DecodeString_EncodeToString option.inject)

lemma length_EncodeToString: "length (EncodeToString bs) = (length bs + 2) div 3 * 4"
proof (induction bs rule: std_encode.induct)
  case (4 a b c rest)
  have "(length rest + 5) div 3 = (length rest + 2) div 3 + 1" by simp
  with 4 show ?case by (simp add: add.commute)
qed simp_all

end
