(* ===== verification/Secrets.thy ===== *)
theory Secrets
  imports Settings Go_Host Go_Net Go_Base64
begin

text \<open>
  \<^verbatim>\<open>internal/config/secret.go\<close>: how a secret file is opened, bounded, checked and turned into
  a secret, a URI, a key or a key ring.  The file system is the \<^typ>\<open>host\<close> argument.
\<close>

section \<open>Secret values\<close>

definition keyRingMaximumBytes :: int where
  "keyRingMaximumBytes = 64 * 1024"

datatype Secret = Secret (Reveal: string)

definition Secret_String :: "Secret \<Rightarrow> string" where
  "Secret_String s = ''[REDACTED]''"

definition Secret_GoString :: "Secret \<Rightarrow> string" where
  "Secret_GoString s = ''config.Secret{[REDACTED]}''"

text \<open>A key is an array of 32 bytes; the map of keys is an association list.\<close>

record KeyRing =
  activeKeyID :: string
  keys :: "(string \<times> string) list"

definition KeyRing_String :: "KeyRing \<Rightarrow> string" where
  "KeyRing_String r = ''[REDACTED KEY RING]''"

definition KeyRing_GoString :: "KeyRing \<Rightarrow> string" where
  "KeyRing_GoString r = ''config.KeyRing{[REDACTED]}''"

definition ActiveKeyID :: "KeyRing \<Rightarrow> string" where
  "ActiveKeyID r = activeKeyID r"

definition KeyCount :: "KeyRing \<Rightarrow> nat" where
  "KeyCount r = length (keys r)"

record ProviderKeyRing =
  ring :: KeyRing
  expectedEpoch :: int

definition ProviderKeyRing_String :: "ProviderKeyRing \<Rightarrow> string" where
  "ProviderKeyRing_String r = ''[REDACTED PROVIDER KEY RING]''"

definition ProviderKeyRing_GoString :: "ProviderKeyRing \<Rightarrow> string" where
  "ProviderKeyRing_GoString r = ''config.ProviderKeyRing{[REDACTED]}''"

definition ExpectedEpoch :: "ProviderKeyRing \<Rightarrow> int" where
  "ExpectedEpoch r = expectedEpoch r"

record CloudflareCredentials =
  AccountTag :: string
  TunnelSecret :: string
  TunnelID :: string

section \<open>Opening and reading\<close>

definition read_error :: "string \<Rightarrow> string \<Rightarrow> go_error" where
  "read_error setting what = ''read '' @ setting @ '': '' @ what"

definition openProtectedFile :: "host \<Rightarrow> string \<Rightarrow> string \<Rightarrow> go_error + opened_file" where
  "openProtectedFile h setting path =
     guardE (path = []) (setting @ '' must name a secret file'')
     (case os_Lstat h path of
        None \<Rightarrow> Inl (read_error setting ''secret file is unavailable'')
      | Some linkInfo \<Rightarrow>
          guardE (fi_kind linkInfo = Symlink)
            (read_error setting ''secret file must not be a symbolic link'')
          (guardE (\<not> IsRegular linkInfo)
            (read_error setting ''secret file must be a regular file'')
          (guardE (\<not> GOOS_windows h \<and> group_world_bits linkInfo \<noteq> 0)
            (read_error setting ''secret file must not be group/world accessible'')
          (case os_Open h path of
             None \<Rightarrow> Inl (read_error setting ''secret file is unavailable'')
           | Some file \<Rightarrow>
               (case of_stat file of
                  None \<Rightarrow> Inl (read_error setting ''secret file changed while opening'')
                | Some openedInfo \<Rightarrow>
                    guardE (\<not> SameFile linkInfo openedInfo)
                      (read_error setting ''secret file changed while opening'')
                    (Inr file))))))"

definition trim_newline :: "string \<Rightarrow> string" where
  "trim_newline contents =
     (if HasSuffix contents [CHR 0x0D, CHR 0x0A] then take (length contents - 2) contents
      else if HasSuffix contents [CHR 0x0A] then take (length contents - 1) contents
      else contents)"

definition readSecretBytes :: "host \<Rightarrow> string \<Rightarrow> string \<Rightarrow> int \<Rightarrow> go_error + string" where
  "readSecretBytes h setting path maximumBytes =
     guardE (setting = []) ''secret setting name is required''
     (guardE (maximumBytes \<le> 0) (setting @ '' has an invalid maximum size'')
     (bindE (openProtectedFile h setting path) (\<lambda>file.
      case ReadAll_limited file (wrap64 (maximumBytes + 1)) of
        None \<Rightarrow> Inl (read_error setting ''secret file could not be read'')
      | Some raw \<Rightarrow>
          guardE (int (length raw) > maximumBytes)
            (read_error setting (''secret file exceeds '' @ FormatInt maximumBytes @ '' bytes''))
          (guardE (\<not> utf8_Valid raw)
            (read_error setting ''secret file must contain valid UTF-8'')
          (let contents = trim_newline raw in
           guardE (contents = []) (read_error setting ''secret file must not be empty'')
           (guardE (TrimSpace contents \<noteq> contents)
              (read_error setting ''secret file contains unintended surrounding whitespace'')
           (Inr contents)))))))"

definition validateProtectedFile :: "host \<Rightarrow> string \<Rightarrow> string \<Rightarrow> go_error + unit" where
  "validateProtectedFile h setting path = bindE (openProtectedFile h setting path) (\<lambda>_. Inr ())"

definition ReadSecretFile :: "host \<Rightarrow> string \<Rightarrow> string \<Rightarrow> int \<Rightarrow> go_error + Secret" where
  "ReadSecretFile h setting path maximumBytes =
     bindE (readSecretBytes h setting path maximumBytes) (\<lambda>contents. Inr (Secret contents))"

definition ReadSimpleSecret :: "host \<Rightarrow> string \<Rightarrow> string \<Rightarrow> int \<Rightarrow> go_error + Secret" where
  "ReadSimpleSecret h setting path maximumBytes =
     bindE (ReadSecretFile h setting path maximumBytes) (\<lambda>secret.
     guardE (list_ex IsControl (runes (Reveal secret)))
       (read_error setting ''secret contains a control character'')
     (Inr secret))"

definition ReadURISecret ::
  "host \<Rightarrow> string \<Rightarrow> string \<Rightarrow> int \<Rightarrow> string list \<Rightarrow> go_error + (Secret \<times> URL)" where
  "ReadURISecret h setting path maximumBytes schemes =
     bindE (ReadSimpleSecret h setting path maximumBytes) (\<lambda>secret.
     case url_Parse (Reveal secret) of
       None \<Rightarrow> Inl (read_error setting ''secret must contain one absolute URI'')
     | Some parsed \<Rightarrow>
         guardE (\<not> IsAbs parsed \<or> Host parsed = [] \<or> Fragment parsed \<noteq> [])
           (read_error setting ''secret must contain one absolute URI'')
         (guardE (\<not> list_ex (\<lambda>scheme. Scheme parsed = scheme) schemes)
           (read_error setting ''URI scheme is not allowed'')
         (Inr (secret, parsed))))"

definition canonical_key :: "string \<Rightarrow> string option" where
  "canonical_key s =
     (case DecodeString s of
        None \<Rightarrow> None
      | Some decoded \<Rightarrow>
          if length decoded \<noteq> 32 \<or> EncodeToString decoded \<noteq> s then None else Some decoded)"

definition key_error :: "string \<Rightarrow> go_error" where
  "key_error setting = read_error setting ''key must be canonical padded base64 for exactly 32 bytes''"

definition ReadBase64Key :: "host \<Rightarrow> string \<Rightarrow> string \<Rightarrow> int \<Rightarrow> go_error + Secret" where
  "ReadBase64Key h setting path maximumBytes =
     bindE (ReadSimpleSecret h setting path maximumBytes) (\<lambda>secret.
     case canonical_key (Reveal secret) of
       None \<Rightarrow> Inl (key_error setting)
     | Some decoded \<Rightarrow> Inr secret)"

definition readableRegular :: "host \<Rightarrow> string \<Rightarrow> string \<Rightarrow> go_error + unit" where
  "readableRegular h name path =
     guardE (path = []) (name @ '' is required'')
     (case os_Stat h path of
        None \<Rightarrow> Inl (name @ '' must name a readable regular file'')
      | Some info \<Rightarrow>
          guardE (\<not> IsRegular info) (name @ '' must name a readable regular file'')
          (case os_Open h (filepath_Clean path) of
             None \<Rightarrow> Inl (name @ '' must name a readable regular file'')
           | Some file \<Rightarrow> Inr ()))"

section \<open>Strict JSON\<close>

datatype jsonSchema = SNil | SObject "(string \<times> jsonSchema) list" | SArray jsonSchema

text \<open>
  \<^verbatim>\<open>scanJSONValue\<close> walks the tokens of one value.  Its two loops are functions of their own; a
  loop goes round again only when the value it scanned has consumed input, which
  \<open>scan_progress\<close> below shows is always the case.
\<close>

definition token_error :: "host \<Rightarrow> decoder \<Rightarrow> (token \<times> decoder) outcome \<Rightarrow> go_error" where
  "token_error h d r = (case r of EOF \<Rightarrow> ''EOF'' | _ \<Rightarrow> json_error_text h d)"

definition closes :: "char \<Rightarrow> string \<Rightarrow> decoder \<Rightarrow> go_error + decoder" where
  "closes c err d =
     (case Token d of
        Got (tok, d') \<Rightarrow> if tok = Delim c then Inr d' else Inl err
      | _ \<Rightarrow> Inl err)"

function (sequential) scanJSONValue :: "host \<Rightarrow> jsonSchema \<Rightarrow> decoder \<Rightarrow> go_error + decoder"
  and scan_fields :: "host \<Rightarrow> (string \<times> jsonSchema) list \<Rightarrow> string list \<Rightarrow> decoder \<Rightarrow> go_error + decoder"
  and scan_items :: "host \<Rightarrow> jsonSchema \<Rightarrow> decoder \<Rightarrow> go_error + decoder" where
  "scanJSONValue h schema d =
     (case Token d of
        Got (tok, d1) \<Rightarrow>
          (case tok of
             Scalar x \<Rightarrow> Inr d1
           | Delim delimiter \<Rightarrow>
               if delimiter = CHR ''{'' then
                 (case schema of
                    SObject flds \<Rightarrow> scan_fields h flds [] d1
                  | _ \<Rightarrow> Inl ''unexpected object'')
               else if delimiter = CHR ''['' then
                 (case schema of
                    SArray element \<Rightarrow> scan_items h element d1
                  | _ \<Rightarrow> Inl ''unexpected array'')
               else Inl ''unexpected delimiter'')
      | r \<Rightarrow> Inl (token_error h d r))"
| "scan_fields h flds seen d =
     (if \<not> More d then closes (CHR ''}'') ''unterminated object'' d
      else case Token d of
        Got (Scalar (JString name), d1) \<Rightarrow>
          if name \<in> set seen then Inl (''duplicate field '' @ strconv_Quote h name)
          else (case map_of flds name of
                  None \<Rightarrow> Inl (''unknown field '' @ strconv_Quote h name)
                | Some child \<Rightarrow>
                    (case scanJSONValue h child d1 of
                       Inl e \<Rightarrow> Inl e
                     | Inr d2 \<Rightarrow>
                         if length (dec_input d2) < length (dec_input d)
                         then scan_fields h flds (name # seen) d2 else Inl []))
      | Got _ \<Rightarrow> Inl ''object key is not a string''
      | r \<Rightarrow> Inl (token_error h d r))"
| "scan_items h element d =
     (if \<not> More d then closes (CHR '']'') ''unterminated array'' d
      else case scanJSONValue h element d of
        Inl e \<Rightarrow> Inl e
      | Inr d1 \<Rightarrow>
          if length (dec_input d1) < length (dec_input d) then scan_items h element d1 else Inl [])"
  by pat_completeness auto
termination
  by (relation "measure (\<lambda>x. case x of
        Inl (h, schema, d) \<Rightarrow> 2 * length (dec_input d)
      | Inr (Inl (h, flds, seen, d)) \<Rightarrow> 2 * length (dec_input d) + 1
      | Inr (Inr (h, element, d)) \<Rightarrow> 2 * length (dec_input d) + 1)")
    (auto dest: Token_length)

declare scanJSONValue.simps [simp del] scan_fields.simps [simp del] scan_items.simps [simp del]

text \<open>
  Decoding into a struct with \<^verbatim>\<open>DisallowUnknownFields\<close>.  A name selects the field of that name,
  or else one that differs in letter case only; \<^verbatim>\<open>null\<close> leaves a field as it is.
\<close>

definition struct_field :: "host \<Rightarrow> string list \<Rightarrow> string \<Rightarrow> string option" where
  "struct_field h flds name =
     (if name \<in> set flds then Some name
      else find (\<lambda>f. EqualFold (SimpleFold_orbit h) f name) flds)"

fun decode_members ::
  "(string \<Rightarrow> string option) \<Rightarrow> (string \<Rightarrow> json \<Rightarrow> 'a \<Rightarrow> 'a option) \<Rightarrow> (string \<times> json) list \<Rightarrow> 'a \<Rightarrow> 'a option" where
  "decode_members select store [] w = Some w"
| "decode_members select store ((name, x) # ms) w =
     (case select name of
        None \<Rightarrow> None
      | Some f \<Rightarrow>
          (case store f x w of None \<Rightarrow> None | Some w' \<Rightarrow> decode_members select store ms w'))"

definition decode_struct ::
  "host \<Rightarrow> string list \<Rightarrow> (string \<Rightarrow> json \<Rightarrow> 'a \<Rightarrow> 'a option) \<Rightarrow> json \<Rightarrow> 'a \<Rightarrow> 'a option" where
  "decode_struct h flds store x w =
     (case x of
        JNull \<Rightarrow> Some w
      | JObject ms \<Rightarrow> decode_members (struct_field h flds) store ms w
      | _ \<Rightarrow> None)"

definition decode_text :: "json \<Rightarrow> string \<Rightarrow> string option" where
  "decode_text x old = (case x of JNull \<Rightarrow> Some old | JString s \<Rightarrow> Some s | _ \<Rightarrow> None)"

definition decode_int :: "json \<Rightarrow> int \<Rightarrow> int option" where
  "decode_int x old = (case x of JNull \<Rightarrow> Some old | JNumber n \<Rightarrow> ParseInt64 n | _ \<Rightarrow> None)"

fun decode_each :: "(json \<Rightarrow> 'a option) \<Rightarrow> json list \<Rightarrow> 'a list option" where
  "decode_each f [] = Some []"
| "decode_each f (x # xs) =
     (case f x of
        None \<Rightarrow> None
      | Some y \<Rightarrow> map_option (\<lambda>ys. y # ys) (decode_each f xs))"

definition decode_slice :: "(json \<Rightarrow> 'a option) \<Rightarrow> json \<Rightarrow> 'a list \<Rightarrow> 'a list option" where
  "decode_slice f x old = (case x of JNull \<Rightarrow> Some [] | JArray xs \<Rightarrow> decode_each f xs | _ \<Rightarrow> None)"

definition strictJSON ::
  "host \<Rightarrow> string \<Rightarrow> string \<Rightarrow> (json \<Rightarrow> 'a option) \<Rightarrow> jsonSchema \<Rightarrow> go_error + 'a" where
  "strictJSON h setting contents destination schema =
     (case scanJSONValue h schema (NewDecoder contents) of
        Inl err \<Rightarrow> Inl (read_error setting (''invalid JSON: '' @ err))
      | Inr d \<Rightarrow>
          guardE (Token d \<noteq> EOF) (read_error setting ''trailing JSON value'')
          (case Decode contents of
             Got (x, rest) \<Rightarrow>
               (case destination x of
                  None \<Rightarrow> Inl (read_error setting ''invalid JSON'')
                | Some w \<Rightarrow>
                    guardE (Decode rest \<noteq> EOF) (read_error setting ''trailing JSON value'') (Inr w))
           | _ \<Rightarrow> Inl (read_error setting ''invalid JSON'')))"

section \<open>Key rings\<close>

record key_entry =
  KeyID :: string
  Key :: string

record ring_wire =
  w_Version :: int
  w_ExpectedEpoch :: int
  w_ActiveKeyID :: string
  w_Keys :: "key_entry list"

definition zero_entry :: key_entry where
  "zero_entry = \<lparr>KeyID = [], Key = []\<rparr>"

definition zero_wire :: ring_wire where
  "zero_wire = \<lparr>w_Version = 0, w_ExpectedEpoch = 0, w_ActiveKeyID = [], w_Keys = []\<rparr>"

definition store_entry :: "string \<Rightarrow> json \<Rightarrow> key_entry \<Rightarrow> key_entry option" where
  "store_entry f x e =
     (if f = ''key_id'' then map_option (\<lambda>s. e\<lparr>KeyID := s\<rparr>) (decode_text x (KeyID e))
      else map_option (\<lambda>s. e\<lparr>Key := s\<rparr>) (decode_text x (Key e)))"

definition decode_entry :: "host \<Rightarrow> json \<Rightarrow> key_entry option" where
  "decode_entry h x = decode_struct h [''key_id'', ''key''] store_entry x zero_entry"

definition store_wire :: "host \<Rightarrow> string \<Rightarrow> json \<Rightarrow> ring_wire \<Rightarrow> ring_wire option" where
  "store_wire h f x w =
     (if f = ''version'' then map_option (\<lambda>n. w\<lparr>w_Version := n\<rparr>) (decode_int x (w_Version w))
      else if f = ''expected_epoch'' then
        map_option (\<lambda>n. w\<lparr>w_ExpectedEpoch := n\<rparr>) (decode_int x (w_ExpectedEpoch w))
      else if f = ''active_key_id'' then
        map_option (\<lambda>s. w\<lparr>w_ActiveKeyID := s\<rparr>) (decode_text x (w_ActiveKeyID w))
      else map_option (\<lambda>ks. w\<lparr>w_Keys := ks\<rparr>) (decode_slice (decode_entry h) x (w_Keys w)))"

definition entry_schema :: jsonSchema where
  "entry_schema = SArray (SObject [(''key_id'', SNil), (''key'', SNil)])"

definition ring_schema :: jsonSchema where
  "ring_schema = SObject [(''version'', SNil), (''active_key_id'', SNil), (''keys'', entry_schema)]"

definition provider_schema :: jsonSchema where
  "provider_schema = SObject [(''version'', SNil), (''expected_epoch'', SNil),
     (''active_key_id'', SNil), (''keys'', entry_schema)]"

definition decode_ring :: "host \<Rightarrow> json \<Rightarrow> ring_wire option" where
  "decode_ring h x =
     decode_struct h [''version'', ''active_key_id'', ''keys''] (store_wire h) x zero_wire"

definition decode_provider :: "host \<Rightarrow> json \<Rightarrow> ring_wire option" where
  "decode_provider h x =
     decode_struct h [''version'', ''expected_epoch'', ''active_key_id'', ''keys''] (store_wire h) x zero_wire"

text \<open>The pattern \<^verbatim>\<open>^[A-Za-z0-9][A-Za-z0-9._-]{0,63}$\<close>.\<close>

definition keyIDPattern :: "string \<Rightarrow> bool" where
  "keyIDPattern s =
     (case s of
        [] \<Rightarrow> False
      | c # cs \<Rightarrow> is_alnum c \<and> length cs \<le> 63 \<and>
          list_all (\<lambda>x. is_alnum x \<or> x \<in> {CHR ''.'', CHR ''_'', CHR ''-''}) cs)"

definition copy32 :: "string \<Rightarrow> string" where
  "copy32 decoded = take 32 decoded @ replicate (32 - length decoded) (CHR 0x00)"

fun ring_keys ::
  "string \<Rightarrow> (string \<times> string) list \<Rightarrow> key_entry list \<Rightarrow> go_error + (string \<times> string) list" where
  "ring_keys setting ks [] = Inr ks"
| "ring_keys setting ks (entry # entries) =
     guardE (\<not> keyIDPattern (KeyID entry)) (read_error setting ''key_id is invalid'')
     (guardE (map_of ks (KeyID entry) \<noteq> None) (read_error setting ''duplicate key_id'')
     (case canonical_key (Key entry) of
        None \<Rightarrow> Inl (key_error setting)
      | Some decoded \<Rightarrow> ring_keys setting ((KeyID entry, copy32 decoded) # ks) entries))"

definition validateRing ::
  "string \<Rightarrow> int \<Rightarrow> string \<Rightarrow> key_entry list \<Rightarrow> go_error + KeyRing" where
  "validateRing setting version active entries =
     guardE (version \<noteq> 1) (read_error setting ''version must be 1'')
     (guardE (\<not> keyIDPattern active) (read_error setting ''active_key_id is invalid'')
     (guardE (entries = []) (read_error setting ''keys must not be empty'')
     (bindE (ring_keys setting [] entries) (\<lambda>ks.
      guardE (map_of ks active = None) (read_error setting ''active_key_id must name one key'')
      (Inr \<lparr>activeKeyID = active, keys = ks\<rparr>)))))"

definition ReadKeyRing :: "host \<Rightarrow> string \<Rightarrow> string \<Rightarrow> go_error + KeyRing" where
  "ReadKeyRing h setting path =
     bindE (readSecretBytes h setting path keyRingMaximumBytes) (\<lambda>contents.
     bindE (strictJSON h setting contents (decode_ring h) ring_schema) (\<lambda>wire.
     validateRing setting (w_Version wire) (w_ActiveKeyID wire) (w_Keys wire)))"

definition ReadProviderKeyRing :: "host \<Rightarrow> string \<Rightarrow> go_error + ProviderKeyRing" where
  "ReadProviderKeyRing h path =
     (let setting = ''MASTER_KEYRING_FILE'' in
      bindE (readSecretBytes h setting path keyRingMaximumBytes) (\<lambda>contents.
      bindE (strictJSON h setting contents (decode_provider h) provider_schema) (\<lambda>wire.
      guardE (w_ExpectedEpoch wire < 1)
        (read_error setting ''expected_epoch must be a positive signed 64-bit integer'')
      (bindE (validateRing setting (w_Version wire) (w_ActiveKeyID wire) (w_Keys wire)) (\<lambda>r.
       Inr \<lparr>ring = r, expectedEpoch = w_ExpectedEpoch wire\<rparr>)))))"

definition credentials_schema :: jsonSchema where
  "credentials_schema = SObject [(''AccountTag'', SNil), (''TunnelSecret'', SNil), (''TunnelID'', SNil)]"

definition store_credentials ::
  "string \<Rightarrow> json \<Rightarrow> CloudflareCredentials \<Rightarrow> CloudflareCredentials option" where
  "store_credentials f x c =
     (if f = ''AccountTag'' then map_option (\<lambda>s. c\<lparr>AccountTag := s\<rparr>) (decode_text x (AccountTag c))
      else if f = ''TunnelSecret'' then
        map_option (\<lambda>s. c\<lparr>TunnelSecret := s\<rparr>) (decode_text x (TunnelSecret c))
      else map_option (\<lambda>s. c\<lparr>TunnelID := s\<rparr>) (decode_text x (TunnelID c)))"

definition decode_credentials :: "host \<Rightarrow> json \<Rightarrow> CloudflareCredentials option" where
  "decode_credentials h x =
     decode_struct h [''AccountTag'', ''TunnelSecret'', ''TunnelID''] store_credentials x
       \<lparr>AccountTag = [], TunnelSecret = [], TunnelID = []\<rparr>"

definition ReadCloudflareCredentials :: "host \<Rightarrow> string \<Rightarrow> go_error + CloudflareCredentials" where
  "ReadCloudflareCredentials h path =
     (let setting = ''CLOUDFLARE_TUNNEL_CREDENTIALS_FILE'' in
      bindE (readSecretBytes h setting path keyRingMaximumBytes) (\<lambda>contents.
      bindE (strictJSON h setting contents (decode_credentials h) credentials_schema) (\<lambda>credentials.
      guardE (AccountTag credentials = [] \<or> TunnelSecret credentials = [] \<or> TunnelID credentials = [])
        (read_error setting ''AccountTag, TunnelSecret, and TunnelID are required'')
      (Inr credentials))))"

section \<open>What a protected file guarantees\<close>

definition protected :: "host \<Rightarrow> string \<Rightarrow> opened_file \<Rightarrow> bool" where
  "protected h path file \<longleftrightarrow> path \<noteq> [] \<and> os_Open h path = Some file \<and>
     (\<exists>info opened. os_Lstat h path = Some info \<and> IsRegular info \<and>
        (\<not> GOOS_windows h \<longrightarrow> group_world_bits info = 0) \<and>
        of_stat file = Some opened \<and> SameFile info opened)"

lemma openProtectedFile_ok [result_simps]:
  "openProtectedFile h setting path = Inr file \<longleftrightarrow> protected h path file"
  by (auto simp: openProtectedFile_def protected_def IsRegular_def result_simps split: option.splits)

lemma trim_newline_cases:
  obtains "trim_newline s = s" | "s = trim_newline s @ [CHR 0x0A]" | "s = trim_newline s @ [CHR 0x0D, CHR 0x0A]"
proof (cases "HasSuffix s [CHR 0x0D, CHR 0x0A]")
  case True
  then obtain t where "s = t @ [CHR 0x0D, CHR 0x0A]" by (auto simp: HasSuffix_iff)
  with True that(3) show ?thesis by (simp add: trim_newline_def)
next
  case False
  show ?thesis
  proof (cases "HasSuffix s [CHR 0x0A]")
    case True
    then obtain t where "s = t @ [CHR 0x0A]" by (auto simp: HasSuffix_iff)
    with True False that(2) show ?thesis by (simp add: trim_newline_def)
  qed (use False that(1) in \<open>simp add: trim_newline_def\<close>)
qed

definition secret_bytes :: "host \<Rightarrow> string \<Rightarrow> int \<Rightarrow> string \<Rightarrow> bool" where
  "secret_bytes h path maximumBytes contents \<longleftrightarrow>
     (\<exists>file raw. protected h path file \<and>
        ReadAll_limited file (maximumBytes + 1) = Some raw \<and>
        int (length raw) \<le> maximumBytes \<and> utf8_Valid raw \<and> contents = trim_newline raw \<and>
        contents \<noteq> [] \<and> TrimSpace contents = contents)"

lemma readSecretBytes_ok:
  assumes "maximumBytes < 9223372036854775807"
  shows "readSecretBytes h setting path maximumBytes = Inr contents \<longleftrightarrow>
    setting \<noteq> [] \<and> 0 < maximumBytes \<and> secret_bytes h path maximumBytes contents"
proof -
  have "wrap64 (maximumBytes + 1) = maximumBytes + 1" if "0 < maximumBytes"
    using assms that by (simp add: int64_def)
  then show ?thesis
    by (auto simp: readSecretBytes_def secret_bytes_def result_simps Let_def)
qed

text \<open>
  Every reader of a secret goes through \<^const>\<open>readSecretBytes\<close>.  What that gives is proved once,
  for any function that accepts a file only when \<^const>\<open>readSecretBytes\<close> does.
\<close>

locale secret_reader =
  fixes read :: "host \<Rightarrow> string \<Rightarrow> go_error + 'a"
    and setting :: string
    and limit :: int
  assumes small_limit: "limit < 9223372036854775807"
    and through: "read h path = Inr x \<Longrightarrow> is_ok (readSecretBytes h setting path limit)"
begin

lemma accepted: "read h path = Inr x \<Longrightarrow> \<exists>contents. secret_bytes h path limit contents"
  using through [of h path x] by (auto simp: is_ok_iff readSecretBytes_ok [OF small_limit])

lemma accepted_protected: "read h path = Inr x \<Longrightarrow> \<exists>file. protected h path file"
  using accepted by (fastforce simp: secret_bytes_def)

lemma refuses_unprotected: "\<nexists>f. protected h path f \<Longrightarrow> \<not> is_ok (read h path)"
  unfolding is_ok_iff using accepted_protected by blast

lemma refuses_symlink:
  "os_Lstat h path = Some info \<Longrightarrow> fi_kind info = Symlink \<Longrightarrow> \<not> is_ok (read h path)"
  using accepted_protected by (fastforce simp: is_ok_iff protected_def IsRegular_def)

lemma refuses_shared:
  "os_Lstat h path = Some info \<Longrightarrow> \<not> GOOS_windows h \<Longrightarrow> group_world_bits info \<noteq> 0 \<Longrightarrow>
    \<not> is_ok (read h path)"
  using accepted_protected by (fastforce simp: is_ok_iff protected_def)

lemma refuses_exchanged:
  "os_Lstat h path = Some info \<Longrightarrow> os_Open h path = Some file \<Longrightarrow> of_stat file = Some opened \<Longrightarrow>
    \<not> SameFile info opened \<Longrightarrow> \<not> is_ok (read h path)"
  using accepted_protected by (fastforce simp: is_ok_iff protected_def)

lemma refuses_oversize:
  assumes "os_Open h path = Some file" "limit < int (length (of_contents file))"
  shows "\<not> is_ok (read h path)"
proof
  assume "is_ok (read h path)"
  then obtain raw where raw: "ReadAll_limited file (limit + 1) = Some raw" "int (length raw) \<le> limit"
    using accepted assms(1) by (fastforce simp: is_ok_iff secret_bytes_def protected_def)
  from ReadAll_limited_whole [OF raw] raw(2) assms(2) show False by simp
qed

end

lemma ReadSimpleSecret_ok:
  "ReadSimpleSecret h setting path m = Inr x \<longleftrightarrow>
     readSecretBytes h setting path m = Inr (Reveal x) \<and> \<not> list_ex IsControl (runes (Reveal x))"
  by (cases x) (auto simp: ReadSimpleSecret_def ReadSecretFile_def result_simps)

lemma ReadURISecret_ok:
  "ReadURISecret h setting path m schemes = Inr (x, u) \<longleftrightarrow>
     ReadSimpleSecret h setting path m = Inr x \<and> url_Parse (Reveal x) = Some u \<and>
     IsAbs u \<and> Host u \<noteq> [] \<and> Fragment u = [] \<and> Scheme u \<in> set schemes"
  by (auto simp: ReadURISecret_def result_simps list_ex_iff)

lemma canonical_key_iff: "canonical_key s = Some k \<longleftrightarrow> length k = 32 \<and> s = EncodeToString k"
  by (auto simp: canonical_key_def DecodeString_EncodeToString split: option.splits)

lemma canonical_key_None: "canonical_key s = None \<longleftrightarrow> (\<nexists>k. length k = 32 \<and> s = EncodeToString k)"
  by (metis canonical_key_iff not_None_eq)

lemma ReadBase64Key_ok:
  "ReadBase64Key h setting path m = Inr x \<longleftrightarrow>
     ReadSimpleSecret h setting path m = Inr x \<and> (\<exists>k. length k = 32 \<and> Reveal x = EncodeToString k)"
  by (auto simp: ReadBase64Key_def result_simps canonical_key_iff)

interpretation database_password: secret_reader
  "\<lambda>h path. ReadSimpleSecret h setting path (4 * 1024)" setting "4 * 1024" for setting
  by unfold_locales (auto simp: ReadSimpleSecret_ok)

interpretation dns_token: secret_reader
  "\<lambda>h path. ReadSimpleSecret h setting path (8 * 1024)" setting "8 * 1024" for setting
  by unfold_locales (auto simp: ReadSimpleSecret_ok)

interpretation redis_uri: secret_reader
  "\<lambda>h path. ReadURISecret h setting path (4 * 1024) schemes" setting "4 * 1024" for setting schemes
  by unfold_locales (auto simp: ReadURISecret_ok ReadSimpleSecret_ok)

interpretation session_key: secret_reader
  "\<lambda>h path. ReadBase64Key h setting path (4 * 1024)" setting "4 * 1024" for setting
  by unfold_locales (auto simp: ReadBase64Key_ok ReadSimpleSecret_ok)

interpretation key_ring: secret_reader
  "\<lambda>h path. ReadKeyRing h setting path" setting keyRingMaximumBytes for setting
  by unfold_locales (auto simp: ReadKeyRing_def keyRingMaximumBytes_def result_simps)

interpretation provider_ring: secret_reader
  ReadProviderKeyRing "''MASTER_KEYRING_FILE''" keyRingMaximumBytes
  by unfold_locales (auto simp: ReadProviderKeyRing_def keyRingMaximumBytes_def result_simps Let_def)

interpretation tunnel_credentials: secret_reader
  ReadCloudflareCredentials "''CLOUDFLARE_TUNNEL_CREDENTIALS_FILE''" keyRingMaximumBytes
  by unfold_locales (auto simp: ReadCloudflareCredentials_def keyRingMaximumBytes_def result_simps Let_def)

section \<open>Errors of the plain readers\<close>

text \<open>
  The plain readers answer with a message of a fixed list that depends on the setting's name
  and the limit only: no byte of the file and no part of its path can reach an error.
\<close>

definition open_messages :: "string \<Rightarrow> go_error list" where
  "open_messages setting = (setting @ '' must name a secret file'') # map (read_error setting)
     [''secret file is unavailable'', ''secret file must not be a symbolic link'',
      ''secret file must be a regular file'', ''secret file must not be group/world accessible'',
      ''secret file changed while opening'']"

definition plain_messages :: "string \<Rightarrow> int \<Rightarrow> go_error list" where
  "plain_messages setting m =
     [''secret setting name is required'', setting @ '' has an invalid maximum size''] @
     open_messages setting @ map (read_error setting)
     [''secret file could not be read'', ''secret file exceeds '' @ FormatInt m @ '' bytes'',
      ''secret file must contain valid UTF-8'', ''secret file must not be empty'',
      ''secret file contains unintended surrounding whitespace'',
      ''secret contains a control character'', ''secret must contain one absolute URI'',
      ''URI scheme is not allowed'',
      ''key must be canonical padded base64 for exactly 32 bytes'']"

lemma openProtectedFile_errors: "openProtectedFile h setting path = Inl e \<Longrightarrow> e \<in> set (open_messages setting)"
  by (auto simp: openProtectedFile_def open_messages_def result_simps)

lemma readSecretBytes_errors: "readSecretBytes h setting path m = Inl e \<Longrightarrow> e \<in> set (plain_messages setting m)"
  by (auto simp: readSecretBytes_def plain_messages_def result_simps Let_def dest: openProtectedFile_errors)

lemma ReadSimpleSecret_errors: "ReadSimpleSecret h setting path m = Inl e \<Longrightarrow> e \<in> set (plain_messages setting m)"
  using readSecretBytes_errors
  by (fastforce simp: ReadSimpleSecret_def ReadSecretFile_def plain_messages_def result_simps)

locale closed_errors =
  fixes read :: "host \<Rightarrow> string \<Rightarrow> go_error + 'a"
    and messages :: "go_error list"
  assumes closed: "read h path = Inl e \<Longrightarrow> e \<in> set messages"
begin

lemma error_choices: "is_ok (read h path) \<or> read h path \<in> Inl ` set messages"
  using closed by (cases "read h path") auto

end

interpretation simple_errors: closed_errors
  "\<lambda>h path. ReadSimpleSecret h setting path m" "plain_messages setting m" for setting m
  by unfold_locales (rule ReadSimpleSecret_errors)

interpretation uri_errors: closed_errors
  "\<lambda>h path. ReadURISecret h setting path m schemes" "plain_messages setting m" for setting m schemes
  by unfold_locales
    (auto simp: ReadURISecret_def result_simps dest: ReadSimpleSecret_errors, auto simp: plain_messages_def)

interpretation key_errors: closed_errors
  "\<lambda>h path. ReadBase64Key h setting path m" "plain_messages setting m" for setting m
  by unfold_locales
    (auto simp: ReadBase64Key_def result_simps dest: ReadSimpleSecret_errors,
     auto simp: plain_messages_def key_error_def)

section \<open>Key rings\<close>

definition ring_wf :: "KeyRing \<Rightarrow> bool" where
  "ring_wf r \<longleftrightarrow> distinct (map fst (keys r)) \<and> activeKeyID r \<in> fst ` set (keys r) \<and>
     (\<forall>(i, k)\<in>set (keys r). keyIDPattern i \<and> length k = 32)"

definition entry_ok :: "key_entry \<Rightarrow> bool" where
  "entry_ok e \<longleftrightarrow> keyIDPattern (KeyID e) \<and> canonical_key (Key e) \<noteq> None"

definition entry_key :: "key_entry \<Rightarrow> string \<times> string" where
  "entry_key e = (KeyID e, the (canonical_key (Key e)))"

lemma copy32_id: "length k = 32 \<Longrightarrow> copy32 k = k"
  by (simp add: copy32_def)

lemma ring_keys_ok:
  "ring_keys setting ks entries = Inr out \<longleftrightarrow>
     list_all entry_ok entries \<and> distinct (map KeyID entries) \<and>
     fst ` set ks \<inter> KeyID ` set entries = {} \<and> out = rev (map entry_key entries) @ ks"
proof (induction entries arbitrary: ks)
  case (Cons e entries)
  show ?case
  proof (cases "canonical_key (Key e)")
    case None
    then show ?thesis by (simp add: entry_ok_def result_simps)
  next
    case (Some k)
    then have "copy32 k = k" by (simp add: canonical_key_iff copy32_id)
    with Some show ?thesis
      by (auto simp: Cons.IH result_simps entry_ok_def entry_key_def map_of_eq_None_iff)
  qed
qed auto

lemma validateRing_ok:
  "validateRing setting version active entries = Inr r \<longleftrightarrow>
     version = 1 \<and> keyIDPattern active \<and> list_all entry_ok entries \<and> distinct (map KeyID entries) \<and>
     active \<in> KeyID ` set entries \<and> r = \<lparr>activeKeyID = active, keys = rev (map entry_key entries)\<rparr>"
  by (auto simp: validateRing_def result_simps ring_keys_ok map_of_eq_None_iff entry_key_def image_image)

lemma entry_key_length: "entry_ok e \<Longrightarrow> length (snd (entry_key e)) = 32"
  by (auto simp: entry_ok_def entry_key_def dest: canonical_key_iff [THEN iffD1])

lemma validateRing_wf: "validateRing setting version active entries = Inr r \<Longrightarrow> ring_wf r"
proof -
  assume "validateRing setting version active entries = Inr r"
  then have e: "list_all entry_ok entries" "distinct (map KeyID entries)" "active \<in> KeyID ` set entries"
    and r: "r = \<lparr>activeKeyID = active, keys = rev (map entry_key entries)\<rparr>"
    by (auto simp: validateRing_ok)
  have "map fst (keys r) = rev (map KeyID entries)"
    by (simp add: r rev_map [symmetric] entry_key_def)
  moreover have "keyIDPattern (fst (entry_key x)) \<and> length (snd (entry_key x)) = 32" if "x \<in> set entries" for x
    using e(1) that entry_key_length [of x] by (auto simp: list_all_iff entry_ok_def entry_key_def)
  ultimately show ?thesis
    using e by (auto simp: ring_wf_def r image_image entry_key_def)
qed

section \<open>Properties\<close>

text \<open>C5. Opening a secret file succeeds exactly when the path is non-empty, \<^verbatim>\<open>Lstat\<close> sees a regular
  file that is not a symbolic link and, except on Windows, has no permission bit for group or
  others, and the file that was then opened is that same file (device and inode).\<close>

theorem openProtectedFile_exact:
  "openProtectedFile h setting path = Inr file \<longleftrightarrow>
     path \<noteq> [] \<and> os_Open h path = Some file \<and>
     (\<exists>info opened. os_Lstat h path = Some info \<and> fi_kind info = Regular \<and>
        (GOOS_windows h \<or> fi_perm info mod 64 = 0) \<and>
        of_stat file = Some opened \<and> SameFile info opened)"
  by (auto simp: openProtectedFile_ok protected_def IsRegular_def group_world_bits_mod)

text \<open>C6. Reading a secret returns exactly the bytes of a protected file that fit the limit, are valid
  UTF-8 and, once one line end is removed, are non-empty and free of surrounding space.  The
  limit is below the largest int64 because \<^verbatim>\<open>maximumBytes+1\<close> wraps there.\<close>

theorem readSecretBytes_exact:
  assumes "maximumBytes < 9223372036854775807"
  shows "readSecretBytes h setting path maximumBytes = Inr contents \<longleftrightarrow>
    setting \<noteq> [] \<and> 0 < maximumBytes \<and>
    (\<exists>file raw. openProtectedFile h setting path = Inr file \<and>
       ReadAll_limited file (maximumBytes + 1) = Some raw \<and> raw = of_contents file \<and>
       int (length raw) \<le> maximumBytes \<and> utf8_Valid raw \<and> contents = trim_newline raw \<and>
       contents \<noteq> [] \<and> TrimSpace contents = contents)"
  using ReadAll_limited_whole [of _ maximumBytes]
  by (auto simp: readSecretBytes_ok [OF assms] secret_bytes_def openProtectedFile_ok)

theorem readSecretBytes_exact_witness:
  "readSecretBytes (memory_host [(''/run/secrets/p'', ''hunter2'' @ [CHR 0x0A])])
     ''P_FILE'' ''/run/secrets/p'' 4096 = Inr ''hunter2''"
proof -
  let ?h = "memory_host [(''/run/secrets/p'', ''hunter2'' @ [CHR 0x0A])]"
  let ?f = "\<lparr>of_stat = Some private_info, of_contents = ''hunter2'' @ [CHR 0x0A], of_fails_after = None\<rparr>"
  have "openProtectedFile ?h ''P_FILE'' ''/run/secrets/p'' = Inr ?f" by code_simp
  moreover have "ReadAll_limited ?f (4096 + 1) = Some (of_contents ?f)" by code_simp
  moreover have "utf8_Valid (of_contents ?f)" by code_simp
  moreover have "trim_newline (of_contents ?f) = ''hunter2''" by code_simp
  moreover have "TrimSpace ''hunter2'' = ''hunter2''" by code_simp
  ultimately show ?thesis by (subst readSecretBytes_exact) (auto intro!: exI [of _ ?f])
qed

text \<open>C7. A path that is not a protected file is refused by every secret reader of the program,
  whatever its contents: the simple, URI and base64 readers at the limits the program uses, both
  key rings and the tunnel credentials.\<close>

theorem unprotected_refused:
  assumes "\<nexists>f. openProtectedFile h setting path = Inr f"
  shows "\<not> is_ok (ReadSimpleSecret h s path (4 * 1024)) \<and> \<not> is_ok (ReadSimpleSecret h s path (8 * 1024)) \<and>
    \<not> is_ok (ReadURISecret h s path (4 * 1024) schemes) \<and> \<not> is_ok (ReadBase64Key h s path (4 * 1024)) \<and>
    \<not> is_ok (ReadKeyRing h s path) \<and> \<not> is_ok (ReadProviderKeyRing h path) \<and>
    \<not> is_ok (ReadCloudflareCredentials h path)"
  using assms unfolding openProtectedFile_ok
  by (intro conjI database_password.refuses_unprotected dns_token.refuses_unprotected
      redis_uri.refuses_unprotected session_key.refuses_unprotected key_ring.refuses_unprotected
      provider_ring.refuses_unprotected tunnel_credentials.refuses_unprotected)

definition shared_host :: host where
  "shared_host = (memory_host [(''/k'', ''x'')])\<lparr>
     os_Lstat := (\<lambda>path. Some (private_info\<lparr>fi_perm := 420\<rparr>))\<rparr>"

theorem unprotected_refused_witness: "\<not> is_ok (ReadProviderKeyRing shared_host ''/k'')"
proof -
  have "openProtectedFile shared_host ''S'' ''/k'' \<noteq> Inr f" for f
    by (simp add: openProtectedFile_ok protected_def shared_host_def memory_host_def private_info_def
        group_world_bits_mod)
  then show ?thesis using unprotected_refused [of shared_host "''S''" "''/k''"] by blast
qed

text \<open>C12. The plain readers never disclose a secret in an error: each error is one of a fixed list
  of messages that depends on the setting's name and the size limit only.\<close>

theorem plain_errors_closed:
  "(is_ok (ReadSimpleSecret h setting path m) \<or>
      ReadSimpleSecret h setting path m \<in> Inl ` set (plain_messages setting m)) \<and>
   (is_ok (ReadURISecret h setting path m schemes) \<or>
      ReadURISecret h setting path m schemes \<in> Inl ` set (plain_messages setting m)) \<and>
   (is_ok (ReadBase64Key h setting path m) \<or>
      ReadBase64Key h setting path m \<in> Inl ` set (plain_messages setting m))"
  by (intro conjI simple_errors.error_choices uri_errors.error_choices key_errors.error_choices)

text \<open>C13. An accepted base64 key is the one canonical padded encoding of exactly 32 bytes, so it has
  44 characters and two accepted keys with the same bytes are the same text.\<close>

theorem ReadBase64Key_canonical:
  assumes "ReadBase64Key h setting path m = Inr x"
  shows "\<exists>!k. length k = 32 \<and> DecodeString (Reveal x) = Some k \<and> EncodeToString k = Reveal x \<and>
    length (Reveal x) = 44"
proof -
  from assms obtain k where "length k = 32" and x: "Reveal x = EncodeToString k"
    by (auto simp: ReadBase64Key_ok)
  then have "length k = 32 \<and> DecodeString (Reveal x) = Some k \<and> EncodeToString k = Reveal x \<and>
      length (Reveal x) = 44"
    by (simp add: DecodeString_EncodeToString length_EncodeToString)
  then show ?thesis by auto
qed

definition sample_key :: string where
  "sample_key = ''YWFhYWFhYWFhYWFhYWFhYWFhYWFhYWFhYWFhYWFhYWE=''"

theorem ReadBase64Key_canonical_witness:
  "\<exists>!k. length k = 32 \<and> DecodeString sample_key = Some k \<and> EncodeToString k = sample_key \<and>
     length sample_key = 44"
proof -
  have "ReadBase64Key (memory_host [(''/k'', sample_key)]) ''S'' ''/k'' 4096 = Inr (Secret sample_key)"
    by code_simp
  from ReadBase64Key_canonical [OF this] show ?thesis by simp
qed

text \<open>C14. A key ring is accepted exactly when its version is 1, the active id has the key-id form
  and names one of the entries, the ids are distinct and of that form, and every key is the
  canonical encoding of 32 bytes; the ring then holds the decoded keys.\<close>

theorem validateRing_exact:
  "validateRing setting version active entries = Inr r \<longleftrightarrow>
     version = 1 \<and> keyIDPattern active \<and> active \<in> KeyID ` set entries \<and>
     distinct (map KeyID entries) \<and>
     list_all (\<lambda>e. keyIDPattern (KeyID e) \<and> (\<exists>k. length k = 32 \<and> Key e = EncodeToString k)) entries \<and>
     r = \<lparr>activeKeyID = active, keys = rev (map (\<lambda>e. (KeyID e, the (DecodeString (Key e)))) entries)\<rparr>"
proof -
  have e: "entry_ok e \<longleftrightarrow> keyIDPattern (KeyID e) \<and> (\<exists>k. length k = 32 \<and> Key e = EncodeToString k)" for e
    by (auto simp: entry_ok_def canonical_key_None)
  have "entry_key e = (KeyID e, the (DecodeString (Key e)))" if "entry_ok e" for e
    using that by (auto simp: entry_ok_def entry_key_def canonical_key_def split: option.splits if_splits)
  then have "list_all entry_ok entries \<Longrightarrow>
      map entry_key entries = map (\<lambda>e. (KeyID e, the (DecodeString (Key e)))) entries"
    by (simp add: list_all_iff)
  then show ?thesis unfolding validateRing_ok by (auto simp: e [abs_def])
qed

end
