(* ===== verification/Config_Parts.thy ===== *)
theory Config_Parts
  imports Secrets
begin

text \<open>
  The parsers of \<^verbatim>\<open>internal/config/config.go\<close> that the processes share: endpoints, listener,
  TLS, database, Redis, readiness, observability and the policies.  A pointer to a URL is an
  optional \<^typ>\<open>URL\<close>, a slice is a list, and a duration is its number of nanoseconds.
\<close>

section \<open>Endpoints\<close>

record SharedDeployment =
  sd_Environment :: string
  sd_Version :: string

record Endpoints =
  ep_PublicAPIBaseURL :: "URL option"
  ep_AdminBaseURL :: "URL option"
  ep_PublicAPIHost :: string
  ep_AdminHost :: string
  ep_AdminExposure :: string
  ep_AdminOrigins :: "URL list"
  ep_TrustedProxies :: "IPNet list"

definition zero_Endpoints :: Endpoints where
  "zero_Endpoints = \<lparr>ep_PublicAPIBaseURL = None, ep_AdminBaseURL = None, ep_PublicAPIHost = [],
     ep_AdminHost = [], ep_AdminExposure = [], ep_AdminOrigins = [], ep_TrustedProxies = []\<rparr>"

definition absoluteURL :: "string \<Rightarrow> string \<Rightarrow> go_error + URL" where
  "absoluteURL name raw =
     (case url_Parse raw of
        None \<Rightarrow> Inl (name @ '' must be an absolute HTTP(S) URL'')
      | Some u \<Rightarrow>
          guardE (\<not> IsAbs u \<or> Host u = [] \<or> \<not> oneOf (Scheme u) [''http'', ''https''])
            (name @ '' must be an absolute HTTP(S) URL'')
          (Inr u))"

definition originURL :: "string \<Rightarrow> string \<Rightarrow> go_error + URL" where
  "originURL name raw =
     bindE (absoluteURL name raw) (\<lambda>u.
     guardE (User u \<noteq> None \<or> (Path u \<noteq> [] \<and> Path u \<noteq> ''/'') \<or> RawQuery u \<noteq> [] \<or> Fragment u \<noteq> [])
       (name @ '' must be an origin without path, query, fragment, or userinfo'')
     (Inr (u\<lparr>Path := []\<rparr>)))"

fun origins_loop :: "string list \<Rightarrow> URL list \<Rightarrow> string list \<Rightarrow> go_error + URL list" where
  "origins_loop seen result [] = Inr result"
| "origins_loop seen result (part # parts) =
     guardE (TrimSpace part \<noteq> part \<or> part = [])
       ''ADMIN_ORIGINS must be comma-separated origins without whitespace''
     (bindE (originURL ''ADMIN_ORIGINS'' part) (\<lambda>origin.
      guardE (origin_String origin \<in> set seen) ''ADMIN_ORIGINS contains a duplicate origin''
      (origins_loop (origin_String origin # seen) (result @ [origin]) parts)))"

definition parseOrigins :: "string \<Rightarrow> go_error + URL list" where
  "parseOrigins raw =
     guardE (raw = []) ''ADMIN_ORIGINS must contain at least one explicit origin''
     (origins_loop [] [] (Split (CHR '','') raw))"

fun origins_allowed :: "URL \<Rightarrow> string \<Rightarrow> bool \<Rightarrow> URL list \<Rightarrow> go_error + bool" where
  "origins_allowed admin environment adminAllowed [] = Inr adminAllowed"
| "origins_allowed admin environment adminAllowed (origin # origins) =
     guardE (isProductionGrade environment \<and> Scheme origin \<noteq> ''https'')
       ''production ADMIN_ORIGINS entries must use https''
     (origins_allowed admin environment (adminAllowed \<or> origin_String origin = origin_String admin) origins)"

definition validateAdminOrigins :: "URL \<Rightarrow> URL list \<Rightarrow> string \<Rightarrow> go_error + unit" where
  "validateAdminOrigins admin origins environment =
     bindE (origins_allowed admin environment False origins) (\<lambda>adminAllowed.
     guardE (\<not> adminAllowed) ''ADMIN_ORIGINS must include ADMIN_BASE_URL'' (Inr ()))"

definition cidr_part :: "string \<Rightarrow> string \<Rightarrow> go_error + IPNet" where
  "cidr_part name part =
     guardE (TrimSpace part \<noteq> part \<or> part = [])
       (name @ '' must be comma-separated CIDRs without whitespace'')
     (case ParseCIDR part of
        None \<Rightarrow> Inl (name @ '' contains an invalid CIDR'')
      | Some network \<Rightarrow> Inr network)"

definition parseNamedCIDRs :: "string \<Rightarrow> string \<Rightarrow> go_error + IPNet list" where
  "parseNamedCIDRs name raw =
     (if raw = [] then Inr [] else mapE (cidr_part name) (Split (CHR '','') raw))"

definition parseCIDRs :: "string \<Rightarrow> go_error + IPNet list" where
  "parseCIDRs raw = parseNamedCIDRs ''TRUSTED_PROXY_CIDRS'' raw"

definition parsePublicAPIURL :: "env \<Rightarrow> string \<Rightarrow> go_error + URL" where
  "parsePublicAPIURL v environment =
     bindE (absoluteURL ''PUBLIC_API_BASE_URL''
       (value_of v ''PUBLIC_API_BASE_URL'' ''http://localhost:8080/v1'')) (\<lambda>public.
     guardE (Path public \<noteq> ''/v1'' \<or> RawQuery public \<noteq> [] \<or> Fragment public \<noteq> [] \<or> User public \<noteq> None)
       ''PUBLIC_API_BASE_URL must be an absolute HTTP(S) URL ending exactly in /v1''
     (guardE (isProductionGrade environment \<and> Scheme public \<noteq> ''https'')
       ''production PUBLIC_API_BASE_URL must use https''
     (Inr public)))"

definition parseGatewayEndpoints :: "env \<Rightarrow> string \<Rightarrow> go_error + Endpoints" where
  "parseGatewayEndpoints v environment =
     bindE (parsePublicAPIURL v environment) (\<lambda>public.
     bindE (parseCIDRs (value_of v ''TRUSTED_PROXY_CIDRS'' [])) (\<lambda>proxies.
     Inr (zero_Endpoints\<lparr>ep_PublicAPIBaseURL := Some public, ep_TrustedProxies := proxies\<rparr>)))"

definition parseControlPlaneEndpoints :: "env \<Rightarrow> string \<Rightarrow> go_error + Endpoints" where
  "parseControlPlaneEndpoints v environment =
     bindE (parsePublicAPIURL v environment) (\<lambda>public.
     bindE (originURL ''ADMIN_BASE_URL'' (value_of v ''ADMIN_BASE_URL'' ''http://localhost:8080'')) (\<lambda>admin.
     guardE (isProductionGrade environment \<and> Scheme admin \<noteq> ''https'')
       ''production ADMIN_BASE_URL must use https''
     (bindE (parseOrigins (value_of v ''ADMIN_ORIGINS'' ''http://localhost:8080'')) (\<lambda>origins.
      bindE (validateAdminOrigins admin origins environment) (\<lambda>_.
      bindE (parseCIDRs (value_of v ''TRUSTED_PROXY_CIDRS'' [])) (\<lambda>proxies.
      Inr (zero_Endpoints\<lparr>ep_PublicAPIBaseURL := Some public, ep_AdminBaseURL := Some admin,
             ep_AdminOrigins := origins, ep_TrustedProxies := proxies\<rparr>)))))))"

definition parseEndpoints :: "host \<Rightarrow> env \<Rightarrow> string \<Rightarrow> go_error + Endpoints" where
  "parseEndpoints h v environment =
     bindE (absoluteURL ''PUBLIC_API_BASE_URL''
       (value_of v ''PUBLIC_API_BASE_URL'' ''http://localhost:8080/v1'')) (\<lambda>public.
     guardE (Path public \<noteq> ''/v1'' \<or> RawQuery public \<noteq> [] \<or> Fragment public \<noteq> [] \<or> User public \<noteq> None)
       ''PUBLIC_API_BASE_URL must be an absolute HTTP(S) URL ending exactly in /v1''
     (bindE (originURL ''ADMIN_BASE_URL'' (value_of v ''ADMIN_BASE_URL'' ''http://localhost:8080'')) (\<lambda>admin.
      let publicHost = value_of v ''PUBLIC_API_HOST'' ''localhost'';
          adminHost = value_of v ''ADMIN_HOST'' ''localhost'' in
      guardE (\<not> EqualFold (SimpleFold_orbit h) (Hostname public) publicHost)
        ''PUBLIC_API_HOST must match PUBLIC_API_BASE_URL hostname''
      (guardE (\<not> EqualFold (SimpleFold_orbit h) (Hostname admin) adminHost)
        ''ADMIN_HOST must match ADMIN_BASE_URL hostname''
      (let exposure = value_of v ''ADMIN_EXPOSURE_MODE'' ''local'' in
       guardE (\<not> oneOf exposure [''local'', ''private'', ''public''])
         ''ADMIN_EXPOSURE_MODE must be local, private, or public''
       (guardE (isProductionGrade environment \<and> (Scheme public \<noteq> ''https'' \<or> Scheme admin \<noteq> ''https''))
         ''production PUBLIC_API_BASE_URL and ADMIN_BASE_URL must use https''
       (bindE (parseOrigins (value_of v ''ADMIN_ORIGINS'' ''http://localhost:8080'')) (\<lambda>origins.
        bindE (validateAdminOrigins admin origins environment) (\<lambda>_.
        bindE (parseCIDRs (value_of v ''TRUSTED_PROXY_CIDRS'' [])) (\<lambda>proxies.
        Inr \<lparr>ep_PublicAPIBaseURL = Some public, ep_AdminBaseURL = Some admin,
             ep_PublicAPIHost = publicHost, ep_AdminHost = adminHost, ep_AdminExposure = exposure,
             ep_AdminOrigins = origins, ep_TrustedProxies = proxies\<rparr>))))))))))"

section \<open>Listener and logging\<close>

record HTTP =
  http_Address :: string
  http_Port :: int
  http_ShutdownGrace :: int

definition parseHTTP :: "env \<Rightarrow> go_error + HTTP" where
  "parseHTTP v =
     (let bind = value_of v ''HTTP_BIND_ADDRESS'' ''0.0.0.0'' in
      guardE (\<not> ParseIP_ok bind) ''HTTP_BIND_ADDRESS must be an IP address''
      (bindE (integer v ''HTTP_PORT'' 8080 1 65535) (\<lambda>port.
       bindE (duration v ''SHUTDOWN_GRACE_PERIOD'' (30 * Second) Second (5 * Minute)) (\<lambda>grace.
       Inr \<lparr>http_Address = JoinHostPort bind (Itoa port), http_Port = port, http_ShutdownGrace = grace\<rparr>))))"

record Observability =
  obs_LogLevel :: string
  obs_LogFormat :: string
  obs_Metrics :: bool
  obs_OTel :: bool
  obs_OTLPEndpoint :: "URL option"

definition parseLogging :: "env \<Rightarrow> go_error + Observability" where
  "parseLogging v =
     (let level = value_of v ''LOG_LEVEL'' ''info''; format = value_of v ''LOG_FORMAT'' ''json'' in
      guardE (\<not> oneOf level [''debug'', ''info'', ''warn'', ''error''])
        ''LOG_LEVEL must be debug, info, warn, or error''
      (guardE (\<not> oneOf format [''json'', ''text''])
        ''LOG_FORMAT must be json or text''
      (Inr \<lparr>obs_LogLevel = level, obs_LogFormat = format, obs_Metrics = False, obs_OTel = False,
           obs_OTLPEndpoint = None\<rparr>)))"

definition otlp_endpoint :: "string \<Rightarrow> go_error + URL option" where
  "otlp_endpoint raw =
     (if raw = [] then Inr None
      else bindE (absoluteURL ''OTEL_EXPORTER_OTLP_ENDPOINT'' raw) (\<lambda>endpoint.
        guardE (User endpoint \<noteq> None \<or> RawQuery endpoint \<noteq> [] \<or> Fragment endpoint \<noteq> [])
          ''OTEL_EXPORTER_OTLP_ENDPOINT must not contain userinfo, query, or fragment''
        (Inr (Some endpoint))))"

definition parseObservability :: "env \<Rightarrow> go_error + Observability" where
  "parseObservability v =
     bindE (parseLogging v) (\<lambda>logging.
     bindE (boolean v ''METRICS_ENABLED'' True) (\<lambda>metrics.
     bindE (boolean v ''OTEL_ENABLED'' False) (\<lambda>otel.
     bindE (otlp_endpoint (value_of v ''OTEL_EXPORTER_OTLP_ENDPOINT'' [])) (\<lambda>endpoint.
     guardE (otel \<and> endpoint = None) ''OTEL_EXPORTER_OTLP_ENDPOINT is required when OTEL_ENABLED=true''
     (Inr (logging\<lparr>obs_Metrics := metrics, obs_OTel := otel, obs_OTLPEndpoint := endpoint\<rparr>))))))"

definition parseServiceCommon :: "env \<Rightarrow> go_error + (SharedDeployment \<times> HTTP \<times> Observability)" where
  "parseServiceCommon v =
     (let shared = \<lparr>sd_Environment = value_of v ''NEXUSRELAY_ENV'' ''development'',
                    sd_Version = value_of v ''NEXUSRELAY_VERSION'' ''dev''\<rparr> in
      bindE (validateEnvironment (sd_Environment shared)) (\<lambda>_.
      bindE (cleanNonempty ''NEXUSRELAY_VERSION'' (sd_Version shared)) (\<lambda>_.
      bindE (parseHTTP v) (\<lambda>http.
      bindE (parseObservability v) (\<lambda>obs.
      Inr (shared, http, obs))))))"

section \<open>Database, Redis and readiness\<close>

definition clusterAdminUser :: string where "clusterAdminUser = ''nexusrelay_cluster_admin''"
definition migrationUser :: string where "migrationUser = ''nexusrelay_migration''"
definition gatewayUser :: string where "gatewayUser = ''nexusrelay_gateway''"
definition controlPlaneUser :: string where "controlPlaneUser = ''nexusrelay_control_plane''"
definition workerUser :: string where "workerUser = ''nexusrelay_worker''"

record Database =
  db_Host :: string
  db_Port :: int
  db_Name :: string
  db_User :: string
  db_Password :: Secret
  db_SSLMode :: string
  db_MinConnections :: int
  db_MaxConnections :: int
  db_StatementTimeout :: int
  db_TransactionTimeout :: int

record databaseProcessSettings =
  userSetting :: string
  passwordSetting :: string
  minSetting :: string
  maxSetting :: string
  process_user :: string
  defaultMax :: int

definition gatewayDatabaseSettings :: databaseProcessSettings where
  "gatewayDatabaseSettings = \<lparr>
     userSetting = ''DATABASE_GATEWAY_USER'', passwordSetting = ''DATABASE_GATEWAY_PASSWORD_FILE'',
     minSetting = ''DATABASE_MIN_CONNECTIONS_GATEWAY'', maxSetting = ''DATABASE_MAX_CONNECTIONS_GATEWAY'',
     process_user = gatewayUser, defaultMax = 30\<rparr>"

definition controlPlaneDatabaseSettings :: databaseProcessSettings where
  "controlPlaneDatabaseSettings = \<lparr>
     userSetting = ''DATABASE_CONTROL_PLANE_USER'', passwordSetting = ''DATABASE_CONTROL_PLANE_PASSWORD_FILE'',
     minSetting = ''DATABASE_MIN_CONNECTIONS_CONTROL_PLANE'', maxSetting = ''DATABASE_MAX_CONNECTIONS_CONTROL_PLANE'',
     process_user = controlPlaneUser, defaultMax = 20\<rparr>"

definition workerDatabaseSettings :: databaseProcessSettings where
  "workerDatabaseSettings = \<lparr>
     userSetting = ''DATABASE_WORKER_USER'', passwordSetting = ''DATABASE_WORKER_PASSWORD_FILE'',
     minSetting = ''DATABASE_MIN_CONNECTIONS_WORKER'', maxSetting = ''DATABASE_MAX_CONNECTIONS_WORKER'',
     process_user = workerUser, defaultMax = 10\<rparr>"

text \<open>A Go map that misses the key answers with the empty string.\<close>

definition defaultPasswordPath :: "string \<Rightarrow> string" where
  "defaultPasswordPath setting =
     (case map_of
        [(''DATABASE_GATEWAY_PASSWORD_FILE'', ''/run/secrets/postgres_gateway_password''),
         (''DATABASE_CONTROL_PLANE_PASSWORD_FILE'', ''/run/secrets/postgres_control_plane_password''),
         (''DATABASE_WORKER_PASSWORD_FILE'', ''/run/secrets/postgres_worker_password'')] setting of
        None \<Rightarrow> [] | Some path \<Rightarrow> path)"

definition parseDatabaseSSLMode :: "env \<Rightarrow> string \<Rightarrow> go_error + string" where
  "parseDatabaseSSLMode v environment =
     (let sslmode = value_of v ''DATABASE_SSLMODE'' ''disable'' in
      guardE (\<not> oneOf sslmode [''disable'', ''require'', ''verify-ca'', ''verify-full''])
        ''DATABASE_SSLMODE must be disable, require, verify-ca, or verify-full''
      (guardE (isProductionGrade environment \<and> sslmode = ''disable'')
        ''production DATABASE_SSLMODE must be require, verify-ca, or verify-full''
      (Inr sslmode)))"

definition parseDatabase :: "host \<Rightarrow> env \<Rightarrow> databaseProcessSettings \<Rightarrow> go_error + Database" where
  "parseDatabase h v settings =
     (let databaseName = value_of v ''DATABASE_NAME'' ''nexusrelay''; dbhost = value_of v ''DATABASE_HOST'' ''postgres'' in
      bindE (cleanNonempty ''DATABASE_NAME'' databaseName) (\<lambda>_.
      bindE (cleanNonempty ''DATABASE_HOST'' dbhost) (\<lambda>_.
      bindE (integer v ''DATABASE_PORT'' 5432 1 65535) (\<lambda>port.
      bindE (parseDatabaseSSLMode v (value_of v ''NEXUSRELAY_ENV'' ''development'')) (\<lambda>sslmode.
      bindE (duration v ''DATABASE_STATEMENT_TIMEOUT'' (30 * Second) Millisecond (30 * Minute)) (\<lambda>statement.
      bindE (duration v ''DATABASE_TRANSACTION_TIMEOUT'' (30 * Second) Millisecond (30 * Minute)) (\<lambda>transaction.
      guardE (value_of v (userSetting settings) (process_user settings) \<noteq> process_user settings)
        (userSetting settings @ '' must equal '' @ process_user settings)
      (bindE (integer v (minSetting settings) 2 0 10000) (\<lambda>minimum.
       bindE (integer v (maxSetting settings) (defaultMax settings) 1 10000) (\<lambda>maximum.
       guardE (minimum > maximum) (minSetting settings @ '' must not exceed '' @ maxSetting settings)
       (bindE (ReadSimpleSecret h (passwordSetting settings)
          (requiredPath v (passwordSetting settings) (defaultPasswordPath (passwordSetting settings))) (4 * 1024)) (\<lambda>password.
        Inr \<lparr>db_Host = dbhost, db_Port = port, db_Name = databaseName, db_User = process_user settings,
             db_Password = password, db_SSLMode = sslmode, db_MinConnections = minimum,
             db_MaxConnections = maximum, db_StatementTimeout = statement,
             db_TransactionTimeout = transaction\<rparr>))))))))))))"

record Redis =
  redis_URL :: Secret
  redis_MaxConnections :: int

definition parseRedis :: "host \<Rightarrow> env \<Rightarrow> string \<Rightarrow> int \<Rightarrow> go_error + Redis" where
  "parseRedis h v maxName defMax =
     bindE (ReadURISecret h ''REDIS_URL_FILE'' (requiredPath v ''REDIS_URL_FILE'' ''/run/secrets/redis_url'')
       (4 * 1024) [''redis'', ''rediss'']) (\<lambda>(secret, parsed).
     guardE (Host parsed = []) ''REDIS_URL_FILE must contain an absolute Redis URI''
     (bindE (integer v maxName defMax 1 10000) (\<lambda>maximum.
      Inr \<lparr>redis_URL = secret, redis_MaxConnections = maximum\<rparr>)))"

record DependencyReadiness =
  dr_StartupTimeout :: int
  dr_ProbeTimeout :: int
  dr_ProbeInterval :: int
  dr_RetryMinimum :: int
  dr_RetryMaximum :: int

definition parseDependencyReadiness :: "env \<Rightarrow> go_error + DependencyReadiness" where
  "parseDependencyReadiness v =
     bindE (duration v ''DEPENDENCY_STARTUP_TIMEOUT'' (60 * Second) Second (10 * Minute)) (\<lambda>startup.
     bindE (duration v ''DEPENDENCY_PROBE_TIMEOUT'' (3 * Second) (100 * Millisecond) Minute) (\<lambda>probe.
     bindE (duration v ''DEPENDENCY_PROBE_INTERVAL'' (5 * Second) Second Minute) (\<lambda>interval.
     bindE (duration v ''DEPENDENCY_RETRY_MIN_DELAY'' (100 * Millisecond) (10 * Millisecond) Minute) (\<lambda>minimum.
     bindE (duration v ''DEPENDENCY_RETRY_MAX_DELAY'' (2 * Second) (10 * Millisecond) Minute) (\<lambda>maximum.
     guardE (probe \<ge> startup) ''DEPENDENCY_PROBE_TIMEOUT must be less than DEPENDENCY_STARTUP_TIMEOUT''
     (guardE (minimum > maximum) ''DEPENDENCY_RETRY_MIN_DELAY must not exceed DEPENDENCY_RETRY_MAX_DELAY''
     (Inr \<lparr>dr_StartupTimeout = startup, dr_ProbeTimeout = probe, dr_ProbeInterval = interval,
          dr_RetryMinimum = minimum, dr_RetryMaximum = maximum\<rparr>)))))))"

section \<open>Policies\<close>

text \<open>The conversions \<^verbatim>\<open>uint32(memory)\<close> and \<^verbatim>\<open>uint8(parallelism)\<close> are kept at their widths.\<close>

record PasswordPolicy =
  pp_Argon2MemoryKiB :: "32 word"
  pp_Argon2Iterations :: "32 word"
  pp_Argon2Parallelism :: "8 word"

definition parsePasswordPolicy :: "env \<Rightarrow> go_error + PasswordPolicy" where
  "parsePasswordPolicy v =
     bindE (integer v ''PASSWORD_ARGON2_MEMORY_KIB'' 65536 8 (4 * 1024 * 1024)) (\<lambda>memory.
     bindE (integer v ''PASSWORD_ARGON2_ITERATIONS'' 3 1 100) (\<lambda>iterations.
     bindE (integer v ''PASSWORD_ARGON2_PARALLELISM'' 2 1 255) (\<lambda>parallelism.
     guardE (memory < 8 * parallelism)
       ''PASSWORD_ARGON2_MEMORY_KIB must be at least 8 times PASSWORD_ARGON2_PARALLELISM''
     (Inr \<lparr>pp_Argon2MemoryKiB = word_of_int memory, pp_Argon2Iterations = word_of_int iterations,
          pp_Argon2Parallelism = word_of_int parallelism\<rparr>))))"

record SessionPolicy =
  sp_CookieName :: string
  sp_IdleTTL :: int
  sp_AbsoluteTTL :: int
  sp_LastSeenWriteInterval :: int
  sp_Secret :: Secret
  sp_CSRFKeys :: KeyRing
  sp_Argon2MemoryKiB :: "32 word"
  sp_Argon2Iterations :: "32 word"
  sp_Argon2Parallelism :: "8 word"

text \<open>The bytes of the pattern \<^verbatim>\<open>[!#$%&'*+.^_`|~0-9A-Za-z-]+\<close>.\<close>

definition cookie_char :: "char \<Rightarrow> bool" where
  "cookie_char c \<longleftrightarrow> is_alnum c \<or>
     byte c \<in> {33, 35, 36, 37, 38, 39, 42, 43, 46, 94, 95, 96, 124, 126, 45}"

definition cookie_name :: "string \<Rightarrow> bool" where
  "cookie_name s \<longleftrightarrow> s \<noteq> [] \<and> list_all cookie_char s"

definition parseSessionPolicy :: "host \<Rightarrow> env \<Rightarrow> go_error + SessionPolicy" where
  "parseSessionPolicy h v =
     bindE (duration v ''SESSION_IDLE_TTL'' (12 * Hour) Minute (30 * 24 * Hour)) (\<lambda>idle.
     bindE (duration v ''SESSION_ABSOLUTE_TTL'' (168 * Hour) Minute (365 * 24 * Hour)) (\<lambda>absolute.
     bindE (duration v ''SESSION_LAST_SEEN_WRITE_INTERVAL'' (5 * Minute) Second idle) (\<lambda>interval.
     guardE (idle > absolute) ''SESSION_IDLE_TTL must not exceed SESSION_ABSOLUTE_TTL''
     (let cookie = value_of v ''SESSION_COOKIE_NAME'' ''nexusrelay_session'' in
      guardE (\<not> cookie_name cookie) ''SESSION_COOKIE_NAME is not a valid cookie name''
      (bindE (parsePasswordPolicy v) (\<lambda>passwordPolicy.
       bindE (ReadBase64Key h ''SESSION_SECRET_FILE''
         (requiredPath v ''SESSION_SECRET_FILE'' ''/run/secrets/session_secret'') (4 * 1024)) (\<lambda>secret.
       bindE (ReadKeyRing h ''CSRF_SECRET_RING_FILE''
         (requiredPath v ''CSRF_SECRET_RING_FILE'' ''/run/secrets/csrf_secret_ring'')) (\<lambda>csrf.
       Inr \<lparr>sp_CookieName = cookie, sp_IdleTTL = idle, sp_AbsoluteTTL = absolute,
            sp_LastSeenWriteInterval = interval, sp_Secret = secret, sp_CSRFKeys = csrf,
            sp_Argon2MemoryKiB = pp_Argon2MemoryKiB passwordPolicy,
            sp_Argon2Iterations = pp_Argon2Iterations passwordPolicy,
            sp_Argon2Parallelism = pp_Argon2Parallelism passwordPolicy\<rparr>))))))))"

record GatewayPolicy =
  gp_RequestBodyMaxBytes :: int
  gp_UpstreamConnectTimeout :: int
  gp_UpstreamFirstByteTimeout :: int
  gp_UpstreamIdleTimeout :: int
  gp_UpstreamTotalTimeout :: int
  gp_MaxUpstreamAttempts :: int

definition parseGatewayPolicy :: "env \<Rightarrow> go_error + GatewayPolicy" where
  "parseGatewayPolicy v =
     bindE (int64Value v ''REQUEST_BODY_MAX_BYTES'' 10485760 1 (1024 * 1024 * 1024)) (\<lambda>body.
     bindE (duration v ''UPSTREAM_CONNECT_TIMEOUT'' (10 * Second) Millisecond (10 * Minute)) (\<lambda>connect.
     bindE (duration v ''UPSTREAM_FIRST_BYTE_TIMEOUT'' (60 * Second) Millisecond (30 * Minute)) (\<lambda>first.
     bindE (duration v ''UPSTREAM_IDLE_TIMEOUT'' (60 * Second) Millisecond (30 * Minute)) (\<lambda>idle.
     bindE (duration v ''UPSTREAM_TOTAL_TIMEOUT'' (10 * Minute) Millisecond (24 * Hour)) (\<lambda>total.
     guardE (connect > total \<or> first > total \<or> idle > total)
       ''each upstream stage timeout must not exceed UPSTREAM_TOTAL_TIMEOUT''
     (bindE (integer v ''MAX_UPSTREAM_ATTEMPTS'' 3 1 20) (\<lambda>attempts.
      Inr \<lparr>gp_RequestBodyMaxBytes = body, gp_UpstreamConnectTimeout = connect,
           gp_UpstreamFirstByteTimeout = first, gp_UpstreamIdleTimeout = idle,
           gp_UpstreamTotalTimeout = total, gp_MaxUpstreamAttempts = attempts\<rparr>)))))))"

record WorkerPolicy =
  wp_RequestRetentionDays :: int
  wp_AuditRetentionDays :: int
  wp_HealthObservationRetentionDays :: int
  wp_ProcessedOutboxRetentionDays :: int
  wp_AnalyticsTargetLag :: int
  wp_StaleRequestReconciliationInterval :: int
  wp_Concurrency :: int
  wp_OutboxLeaseDuration :: int
  wp_OutboxRetryBaseDelay :: int
  wp_OutboxRetryMaxDelay :: int
  wp_HealthProbeInterval :: int
  wp_HealthFastWindow :: int
  wp_HealthStabilizingWindow :: int
  wp_HealthMinSamples :: int
  wp_HealthPolicyVersion :: int
  wp_HealthUnavailableEntryThresholdBPS :: int
  wp_HealthUnavailableExitThresholdBPS :: int
  wp_HealthConsecutiveFailures :: int
  wp_HealthConsecutiveSuccesses :: int
  wp_RetentionBatchSize :: int
  wp_MaximumRequestDuration :: int

definition parseWorkerPolicy :: "env \<Rightarrow> go_error + WorkerPolicy" where
  "parseWorkerPolicy v =
     bindE (integer v ''REQUEST_RETENTION_DAYS'' 90 1 36500) (\<lambda>requestDays.
     bindE (integer v ''AUDIT_RETENTION_DAYS'' 365 1 36500) (\<lambda>auditDays.
     bindE (integer v ''HEALTH_OBSERVATION_RETENTION_DAYS'' 14 1 36500) (\<lambda>healthDays.
     bindE (integer v ''PROCESSED_OUTBOX_RETENTION_DAYS'' 7 1 36500) (\<lambda>outboxDays.
     bindE (duration v ''ANALYTICS_TARGET_LAG'' (5 * Minute) Second (24 * Hour)) (\<lambda>lag.
     bindE (duration v ''STALE_REQUEST_RECONCILIATION_INTERVAL'' Minute Second (24 * Hour)) (\<lambda>reconcile.
     bindE (integer v ''WORKER_CONCURRENCY'' 4 1 1024) (\<lambda>concurrency.
     bindE (duration v ''OUTBOX_LEASE_DURATION'' (30 * Second) Second Hour) (\<lambda>lease.
     bindE (duration v ''OUTBOX_RETRY_BASE_DELAY'' Second Millisecond Hour) (\<lambda>base.
     bindE (duration v ''OUTBOX_RETRY_MAX_DELAY'' (5 * Minute) Millisecond (24 * Hour)) (\<lambda>maximum.
     guardE (base > maximum) ''OUTBOX_RETRY_BASE_DELAY must not exceed OUTBOX_RETRY_MAX_DELAY''
     (bindE (duration v ''HEALTH_PROBE_INTERVAL'' Minute Second (24 * Hour)) (\<lambda>probe.
      bindE (duration v ''HEALTH_FAST_WINDOW'' (5 * Minute) Second (24 * Hour)) (\<lambda>fast.
      bindE (duration v ''HEALTH_STABILIZING_WINDOW'' (30 * Minute) Second (7 * 24 * Hour)) (\<lambda>stable.
      guardE (fast > stable) ''HEALTH_FAST_WINDOW must not exceed HEALTH_STABILIZING_WINDOW''
      (bindE (integer v ''HEALTH_MIN_SAMPLES'' 20 1 1000000) (\<lambda>samples.
       bindE (integer v ''HEALTH_POLICY_VERSION'' 1 1 2147483647) (\<lambda>version.
       bindE (integer v ''HEALTH_UNAVAILABLE_ENTRY_THRESHOLD_BPS'' 5000 0 10000) (\<lambda>entryThreshold.
       bindE (integer v ''HEALTH_UNAVAILABLE_EXIT_THRESHOLD_BPS'' 9000 0 10000) (\<lambda>exitThreshold.
       guardE (entryThreshold \<ge> exitThreshold)
         ''HEALTH_UNAVAILABLE_ENTRY_THRESHOLD_BPS must be less than HEALTH_UNAVAILABLE_EXIT_THRESHOLD_BPS''
       (bindE (integer v ''HEALTH_CONSECUTIVE_FAILURES'' 3 1 1000) (\<lambda>consecutiveFailures.
        bindE (integer v ''HEALTH_CONSECUTIVE_SUCCESSES'' 3 1 1000) (\<lambda>consecutiveSuccesses.
        bindE (integer v ''RETENTION_BATCH_SIZE'' 1000 1 100000) (\<lambda>batch.
        bindE (duration v ''UPSTREAM_TOTAL_TIMEOUT'' (10 * Minute) Millisecond (24 * Hour)) (\<lambda>maximumRequestDuration.
        Inr \<lparr>wp_RequestRetentionDays = requestDays, wp_AuditRetentionDays = auditDays,
          wp_HealthObservationRetentionDays = healthDays, wp_ProcessedOutboxRetentionDays = outboxDays,
          wp_AnalyticsTargetLag = lag, wp_StaleRequestReconciliationInterval = reconcile,
          wp_Concurrency = concurrency, wp_OutboxLeaseDuration = lease,
          wp_OutboxRetryBaseDelay = base, wp_OutboxRetryMaxDelay = maximum,
          wp_HealthProbeInterval = probe, wp_HealthFastWindow = fast,
          wp_HealthStabilizingWindow = stable, wp_HealthMinSamples = samples,
          wp_HealthPolicyVersion = version, wp_HealthUnavailableEntryThresholdBPS = entryThreshold,
          wp_HealthUnavailableExitThresholdBPS = exitThreshold,
          wp_HealthConsecutiveFailures = consecutiveFailures,
          wp_HealthConsecutiveSuccesses = consecutiveSuccesses, wp_RetentionBatchSize = batch,
          wp_MaximumRequestDuration = maximumRequestDuration\<rparr>))))))))))))))))))))))))"

record AgentExport =
  ae_APIKeyEnvironment :: string
  ae_OpenCodeProviderID :: string
  ae_OpenCodeProviderName :: string

text \<open>The patterns \<^verbatim>\<open>^[A-Za-z_][A-Za-z0-9_]*$\<close> and \<^verbatim>\<open>^[a-z0-9][a-z0-9_-]*$\<close>.\<close>

definition variable_name :: "string \<Rightarrow> bool" where
  "variable_name s =
     (case s of [] \<Rightarrow> False
      | c # cs \<Rightarrow> (is_alpha c \<or> c = CHR ''_'') \<and> list_all (\<lambda>x. is_alnum x \<or> x = CHR ''_'') cs)"

definition provider_id :: "string \<Rightarrow> bool" where
  "provider_id s =
     (case s of [] \<Rightarrow> False
      | c # cs \<Rightarrow> (is_lower c \<or> is_digit c) \<and>
          list_all (\<lambda>x. is_lower x \<or> is_digit x \<or> x = CHR ''_'' \<or> x = CHR ''-'') cs)"

definition parseAgent :: "env \<Rightarrow> go_error + AgentExport" where
  "parseAgent v =
     (let keyenv = value_of v ''AGENT_API_KEY_ENV'' ''NEXUSRELAY_API_KEY'';
          id = value_of v ''OPENCODE_PROVIDER_ID'' ''nexusrelay'';
          name = value_of v ''OPENCODE_PROVIDER_NAME'' ''NexusRelay'' in
      guardE (\<not> variable_name keyenv) ''AGENT_API_KEY_ENV must be an environment variable name''
      (guardE (\<not> provider_id id) ''OPENCODE_PROVIDER_ID has invalid format''
      (bindE (cleanNonempty ''OPENCODE_PROVIDER_NAME'' name) (\<lambda>_.
       Inr \<lparr>ae_APIKeyEnvironment = keyenv, ae_OpenCodeProviderID = id, ae_OpenCodeProviderName = name\<rparr>))))"

end
