(* ===== verification/Readiness.thy ===== *)
theory Readiness
  imports Transition Config_Parts
begin

text \<open>
  \<^verbatim>\<open>internal/dependency/readiness.go\<close>.  \<^verbatim>\<open>Run\<close> starts the server in a goroutine, probes the
  dependencies until all answer or the startup time is over, and then keeps probing until the
  server stops or the process is cancelled.  It is a step relation: the environment (the
  cancellation, the startup deadline, the server's return) interleaves with the steps of the
  function, every \<^verbatim>\<open>select\<close> may take any case that is ready, and deferred calls run one by one.
\<close>

section \<open>Policy and probes\<close>

record ReadinessPolicy =
  rp_StartupTimeout :: int
  rp_ProbeTimeout :: int
  rp_ProbeInterval :: int
  rp_RetryMinimum :: int
  rp_RetryMaximum :: int

definition DefaultReadinessPolicy :: ReadinessPolicy where
  "DefaultReadinessPolicy = \<lparr>rp_StartupTimeout = 60 * Second, rp_ProbeTimeout = 3 * Second,
     rp_ProbeInterval = 5 * Second, rp_RetryMinimum = 100 * Millisecond, rp_RetryMaximum = 2 * Second\<rparr>"

definition policy_validate :: "ReadinessPolicy \<Rightarrow> go_error + unit" where
  "policy_validate p =
     guardE (rp_StartupTimeout p \<le> 0 \<or> rp_ProbeTimeout p \<le> 0 \<or> rp_ProbeInterval p \<le> 0 \<or>
        rp_RetryMinimum p \<le> 0 \<or> rp_RetryMaximum p < rp_RetryMinimum p)
       ''invalid dependency readiness policy'' (Inr ())"

text \<open>A probe; of its two functions only whether they are nil matters here.\<close>

record Probe =
  probe_Name :: string
  probe_has_Ping :: bool
  probe_has_Observe :: bool

text \<open>
  One round of probes.  The goroutines finish in any order: \<open>finished\<close> lists the index of each
  probe with the error of its ping, in the order of completion.  Each one writes its own slot of
  \<open>failed\<close> and then calls its observer.
\<close>

definition probe_done :: "Probe list \<Rightarrow> bool list \<times> (string \<times> go_error option) list \<Rightarrow> nat \<times> go_error option \<Rightarrow>
    bool list \<times> (string \<times> go_error option) list" where
  "probe_done probes st fin = (case st of (failed, observed) \<Rightarrow> case fin of (i, err) \<Rightarrow>
     (failed[i := (err \<noteq> None)],
      if probe_has_Observe (probes ! i) then observed @ [(probe_Name (probes ! i), err)] else observed))"

definition probe_round :: "Probe list \<Rightarrow> (nat \<times> go_error option) list \<Rightarrow>
    bool list \<times> (string \<times> go_error option) list" where
  "probe_round probes finished = foldl (probe_done probes) (replicate (length probes) False, []) finished"

definition failed_names :: "Probe list \<Rightarrow> bool list \<Rightarrow> string list" where
  "failed_names probes failed = map (\<lambda>(p, b). probe_Name p) (filter (\<lambda>(p, b). b) (zip probes failed))"

definition runProbes :: "Probe list \<Rightarrow> (nat \<times> go_error option) list \<Rightarrow> string list" where
  "runProbes probes finished = failed_names probes (fst (probe_round probes finished))"

text \<open>The wait group lets a round end when every probe has finished exactly once.\<close>

definition round_complete :: "Probe list \<Rightarrow> (nat \<times> go_error option) list \<Rightarrow> bool" where
  "round_complete probes finished \<longleftrightarrow> mset (map fst finished) = mset [0..<length probes]"

section \<open>The machine\<close>

text \<open>The result of the server: still running, sent to the channel, or received by \<^verbatim>\<open>Run\<close>.\<close>

datatype serve_state = Serving | Sent "go_error option" | Received "go_error option"

datatype deferred = StopTicker | CancelStartup | CancelServe | ClearReady

datatype run_phase =
    Probing
  | Waiting "string list"
  | StartupDraining "string list"
  | Steady
  | Reprobing
  | Clearing
  | Draining
  | Returning "go_error option" "deferred list"
  | Returned "go_error option"

record run_state =
  rs_phase :: run_phase
  rs_ready :: bool
  rs_serve :: serve_state
  rs_serve_cancelled :: bool
  rs_ctx_done :: bool
  rs_startup_done :: bool
  rs_delay :: int
  rs_failed :: "string list option"

definition startup_timeout_error :: "string list \<Rightarrow> go_error" where
  "startup_timeout_error failed =
     ''dependency readiness startup timeout: '' @ Join failed '', '' @ '' unavailable''"

definition next_delay :: "ReadinessPolicy \<Rightarrow> int \<Rightarrow> int" where
  "next_delay p d = min (wrap64 (d * 2)) (rp_RetryMaximum p)"

definition startup_defers :: "deferred list" where
  "startup_defers = [CancelStartup, CancelServe, ClearReady]"

definition steady_defers :: "deferred list" where
  "steady_defers = [StopTicker, CancelStartup, CancelServe, ClearReady]"

text \<open>The checks before anything is started, and the state once the server goroutine runs.\<close>

definition run_checks :: "ReadinessPolicy \<Rightarrow> Probe list \<Rightarrow> go_error + unit" where
  "run_checks policy probes =
     bindE (policy_validate policy) (\<lambda>_.
     guardE (probes = []) ''dependency readiness requires at least one probe''
     (guardE (list_ex (\<lambda>p. probe_Name p = [] \<or> \<not> probe_has_Ping p) probes)
       ''dependency readiness probe is invalid''
     (Inr ())))"

definition run_start :: "ReadinessPolicy \<Rightarrow> bool \<Rightarrow> run_state" where
  "run_start policy ctx_done = \<lparr>rs_phase = Probing, rs_ready = False, rs_serve = Serving,
     rs_serve_cancelled = False, rs_ctx_done = ctx_done, rs_startup_done = ctx_done,
     rs_delay = rp_RetryMinimum policy, rs_failed = None\<rparr>"

definition run_init :: "ReadinessPolicy \<Rightarrow> Probe list \<Rightarrow> run_state \<Rightarrow> bool" where
  "run_init policy probes s \<longleftrightarrow> is_ok (run_checks policy probes) \<and> (\<exists>b. s = run_start policy b)"

fun run_deferred :: "deferred \<Rightarrow> run_state \<Rightarrow> run_state" where
  "run_deferred StopTicker s = s"
| "run_deferred CancelStartup s = s\<lparr>rs_startup_done := True\<rparr>"
| "run_deferred CancelServe s = s\<lparr>rs_serve_cancelled := True\<rparr>"
| "run_deferred ClearReady s = s\<lparr>rs_ready := False\<rparr>"

inductive env_step :: "run_state \<Rightarrow> run_state \<Rightarrow> bool" where
  env_cancel: "env_step s (s\<lparr>rs_ctx_done := True, rs_startup_done := True\<rparr>)"
| env_deadline: "env_step s (s\<lparr>rs_startup_done := True\<rparr>)"
| env_serve: "rs_serve s = Serving \<Longrightarrow> env_step s (s\<lparr>rs_serve := Sent e\<rparr>)"

inductive run_step :: "ReadinessPolicy \<Rightarrow> Probe list \<Rightarrow> run_state \<Rightarrow> run_state \<Rightarrow> bool" for policy probes where
  probes_ready: "rs_phase s = Probing \<Longrightarrow> round_complete probes fin \<Longrightarrow> runProbes probes fin = [] \<Longrightarrow>
    run_step policy probes s (s\<lparr>rs_phase := Steady, rs_ready := True, rs_failed := Some []\<rparr>)"
| probes_failed: "rs_phase s = Probing \<Longrightarrow> round_complete probes fin \<Longrightarrow> runProbes probes fin = failed \<Longrightarrow> failed \<noteq> [] \<Longrightarrow>
    run_step policy probes s (s\<lparr>rs_phase := Waiting failed, rs_failed := Some failed\<rparr>)"
| wait_serve: "rs_phase s = Waiting failed \<Longrightarrow> rs_serve s = Sent e \<Longrightarrow>
    run_step policy probes s (s\<lparr>rs_phase := Returning e startup_defers, rs_serve := Received e\<rparr>)"
| wait_startup: "rs_phase s = Waiting failed \<Longrightarrow> rs_startup_done s \<Longrightarrow>
    run_step policy probes s (s\<lparr>rs_phase := StartupDraining failed, rs_serve_cancelled := True\<rparr>)"
| wait_timer: "rs_phase s = Waiting failed \<Longrightarrow>
    run_step policy probes s (s\<lparr>rs_phase := Probing, rs_delay := next_delay policy (rs_delay s)\<rparr>)"
| startup_drained: "rs_phase s = StartupDraining failed \<Longrightarrow> rs_serve s = Sent e \<Longrightarrow>
    run_step policy probes s (s\<lparr>rs_phase := Returning
        (if rs_ctx_done s then e else if e \<noteq> None then e else Some (startup_timeout_error failed)) startup_defers,
      rs_serve := Received e\<rparr>)"
| steady_serve: "rs_phase s = Steady \<Longrightarrow> rs_serve s = Sent e \<Longrightarrow>
    run_step policy probes s (s\<lparr>rs_phase := Returning e steady_defers, rs_serve := Received e\<rparr>)"
| steady_cancelled: "rs_phase s = Steady \<Longrightarrow> rs_ctx_done s \<Longrightarrow>
    run_step policy probes s (s\<lparr>rs_phase := Clearing, rs_ready := False\<rparr>)"
| steady_tick: "rs_phase s = Steady \<Longrightarrow> run_step policy probes s (s\<lparr>rs_phase := Reprobing\<rparr>)"
| reprobed: "rs_phase s = Reprobing \<Longrightarrow> round_complete probes fin \<Longrightarrow> runProbes probes fin = failed \<Longrightarrow>
    run_step policy probes s (s\<lparr>rs_phase := Steady, rs_ready := (failed = []), rs_failed := Some failed\<rparr>)"
| cleared: "rs_phase s = Clearing \<Longrightarrow>
    run_step policy probes s (s\<lparr>rs_phase := Draining, rs_serve_cancelled := True\<rparr>)"
| drained: "rs_phase s = Draining \<Longrightarrow> rs_serve s = Sent e \<Longrightarrow>
    run_step policy probes s (s\<lparr>rs_phase := Returning e steady_defers, rs_serve := Received e\<rparr>)"
| deferred: "rs_phase s = Returning e (d # ds) \<Longrightarrow>
    run_step policy probes s ((run_deferred d s)\<lparr>rs_phase := Returning e ds\<rparr>)"
| returned: "rs_phase s = Returning e [] \<Longrightarrow> run_step policy probes s (s\<lparr>rs_phase := Returned e\<rparr>)"

definition any_step :: "ReadinessPolicy \<Rightarrow> Probe list \<Rightarrow> run_state \<Rightarrow> run_state \<Rightarrow> bool" where
  "any_step policy probes s t \<longleftrightarrow> env_step s t \<or> run_step policy probes s t"

inductive_cases env_stepE: "env_step s t"
inductive_cases run_stepE: "run_step policy probes s t"

section \<open>The contract\<close>

text \<open>
  What a process promises about its readiness, whatever runs behind it: while the server accepts
  requests readiness may change; the server is told to drain only when readiness is off, and it
  stays off until the server is gone; the process ends with readiness off.
\<close>

datatype serve_mode = Accepting | Shutting | Gone | Ended

inductive contract_step :: "serve_mode \<times> bool \<Rightarrow> serve_mode \<times> bool \<Rightarrow> bool" where
  contract_change: "contract_step (Accepting, r) (Accepting, r')"
| contract_drain: "contract_step (Accepting, False) (Shutting, False)"
| contract_gone: "m = Accepting \<or> m = Shutting \<Longrightarrow> contract_step (m, r) (Gone, r)"
| contract_after: "contract_step (Gone, r) (Gone, r')"
| contract_end: "contract_step (Gone, False) (Ended, False)"

definition contract_init :: "serve_mode \<times> bool \<Rightarrow> bool" where
  "contract_init s \<longleftrightarrow> fst s = Accepting"

definition contract_inv :: "serve_mode \<times> bool \<Rightarrow> bool" where
  "contract_inv s \<longleftrightarrow> fst s \<in> {Shutting, Ended} \<longrightarrow> \<not> snd s"

interpretation contract: inductive_invariant contract_init contract_step contract_inv
proof unfold_locales
  fix s t
  show "contract_init s \<Longrightarrow> contract_inv s" by (simp add: contract_init_def contract_inv_def)
  assume "contract_inv s"
  show "contract_step s t \<Longrightarrow> contract_inv t"
    by (erule contract_step.cases) (auto simp: contract_inv_def)
qed

definition run_mode :: "run_state \<Rightarrow> serve_mode \<times> bool" where
  "run_mode s =
     (if (\<exists>e. rs_phase s = Returned e) then Ended
      else if rs_serve s \<noteq> Serving then Gone
      else if rs_serve_cancelled s then Shutting else Accepting, rs_ready s)"

section \<open>Invariant of the machine\<close>

definition last_ok :: "run_state \<Rightarrow> bool" where
  "last_ok s \<longleftrightarrow> rs_ready s \<longrightarrow> rs_failed s = Some []"

definition blame :: "Probe list \<Rightarrow> string list \<Rightarrow> bool" where
  "blame probes failed \<longleftrightarrow> failed \<noteq> [] \<and> set failed \<subseteq> probe_Name ` set probes"

text \<open>What \<^verbatim>\<open>Run\<close> may return, given what the server returned.\<close>

definition result_ok :: "Probe list \<Rightarrow> go_error option \<Rightarrow> go_error option \<Rightarrow> bool" where
  "result_ok probes served e \<longleftrightarrow> e = served \<or>
     (served = None \<and> (\<exists>failed. blame probes failed \<and> e = Some (startup_timeout_error failed)))"

definition run_inv :: "Probe list \<Rightarrow> run_state \<Rightarrow> bool" where
  "run_inv probes s \<longleftrightarrow> last_ok s \<and> (case rs_phase s of
     Probing \<Rightarrow> \<not> rs_ready s \<and> \<not> rs_serve_cancelled s \<and> (\<forall>e. rs_serve s \<noteq> Received e)
   | Waiting failed \<Rightarrow> \<not> rs_ready s \<and> \<not> rs_serve_cancelled s \<and> (\<forall>e. rs_serve s \<noteq> Received e) \<and> blame probes failed
   | StartupDraining failed \<Rightarrow> \<not> rs_ready s \<and> rs_serve_cancelled s \<and> (\<forall>e. rs_serve s \<noteq> Received e) \<and> blame probes failed
   | Steady \<Rightarrow> \<not> rs_serve_cancelled s \<and> (\<forall>e. rs_serve s \<noteq> Received e)
   | Reprobing \<Rightarrow> \<not> rs_serve_cancelled s \<and> (\<forall>e. rs_serve s \<noteq> Received e)
   | Clearing \<Rightarrow> \<not> rs_ready s \<and> \<not> rs_serve_cancelled s \<and> (\<forall>e. rs_serve s \<noteq> Received e)
   | Draining \<Rightarrow> \<not> rs_ready s \<and> rs_serve_cancelled s \<and> (\<forall>e. rs_serve s \<noteq> Received e)
   | Returning e ds \<Rightarrow> (\<exists>served. rs_serve s = Received served \<and> result_ok probes served e) \<and>
       (\<exists>pre. pre @ ds = steady_defers) \<and>
       (CancelServe \<notin> set ds \<longrightarrow> rs_serve_cancelled s) \<and> (ClearReady \<notin> set ds \<longrightarrow> \<not> rs_ready s)
   | Returned e \<Rightarrow> (\<exists>served. rs_serve s = Received served \<and> result_ok probes served e) \<and>
       rs_serve_cancelled s \<and> \<not> rs_ready s)"

lemma runProbes_names: "set (runProbes probes fin) \<subseteq> probe_Name ` set probes"
  by (auto simp: runProbes_def failed_names_def dest: set_zip_leftD)

lemma defers_suffix: "\<exists>pre. pre @ startup_defers = steady_defers" "\<exists>pre. pre @ steady_defers = steady_defers"
  by (rule exI [of _ "[StopTicker]"], simp add: startup_defers_def steady_defers_def) simp

lemma defers_tail:
  assumes "\<exists>pre. pre @ (d # ds) = steady_defers"
  shows "\<exists>pre. pre @ ds = steady_defers"
proof -
  from assms obtain pre where "(pre @ [d]) @ ds = steady_defers" by auto
  then show ?thesis ..
qed

lemma run_inv_env: "run_inv probes s \<Longrightarrow> env_step s t \<Longrightarrow> run_inv probes t"
  by (erule env_stepE) (auto simp: run_inv_def last_ok_def split: run_phase.splits)

lemma run_deferred_fields [simp]:
  "rs_serve (run_deferred d s) = rs_serve s" "rs_failed (run_deferred d s) = rs_failed s"
  "rs_serve_cancelled (run_deferred d s) \<longleftrightarrow> rs_serve_cancelled s \<or> d = CancelServe"
  "rs_ready (run_deferred d s) \<longleftrightarrow> rs_ready s \<and> d \<noteq> ClearReady"
  by (cases d; simp)+

lemma run_inv_run:
  assumes inv: "run_inv probes s" and step: "run_step policy probes s t"
  shows "run_inv probes t"
  using step
proof cases
  case (probes_failed fin failed)
  with inv show ?thesis
    using runProbes_names [of probes fin] by (auto simp: run_inv_def last_ok_def blame_def)
next
  case (deferred e d ds)
  with inv show ?thesis using defers_tail [of d ds] by (auto simp: run_inv_def last_ok_def)
qed (use inv in \<open>auto simp: run_inv_def last_ok_def result_ok_def defers_suffix\<close>,
     auto simp: startup_defers_def steady_defers_def)

lemma run_inv_init: "run_init policy probes s \<Longrightarrow> run_inv probes s"
  by (auto simp: run_init_def run_start_def run_inv_def last_ok_def)

interpretation run_machine: inductive_invariant "run_init policy probes" "any_step policy probes" "run_inv probes"
  for policy probes
  by unfold_locales (auto simp: any_step_def intro: run_inv_init run_inv_env run_inv_run)

text \<open>The steps that leave the mode or the readiness as the contract allows.\<close>

lemma env_mode: "env_step s t \<Longrightarrow> run_mode s = run_mode t \<or> contract_step (run_mode s) (run_mode t)"
  by (erule env_stepE) (auto simp: run_mode_def intro: contract_step.intros)

lemma run_mode_step:
  assumes inv: "run_inv probes s" and step: "run_step policy probes s t"
  shows "run_mode s = run_mode t \<or> contract_step (run_mode s) (run_mode t)"
  using step
proof cases
  case (deferred e d ds)
  with inv show ?thesis by (auto simp: run_mode_def run_inv_def intro: contract_step.intros)
qed (use inv in \<open>auto simp: run_mode_def run_inv_def intro: contract_step.intros\<close>)

interpretation run_contract: simulation "run_init policy probes" "any_step policy probes"
  contract_init contract_step run_mode "run_inv probes" for policy probes
proof unfold_locales
  fix s t
  show "run_init policy probes s \<Longrightarrow> contract_init (run_mode s) \<and> run_inv probes s"
    using run_inv_init [of policy probes s]
    by (auto simp: run_init_def run_start_def run_mode_def contract_init_def)
  assume "run_inv probes s" "any_step policy probes s t"
  then show "run_inv probes t \<and> (run_mode s = run_mode t \<or> contract_step (run_mode s) (run_mode t))"
    using run_machine.inv_step [of probes s policy t] env_mode [of s t] run_mode_step [of probes s policy t]
    unfolding any_step_def by blast
qed

section \<open>The retry delay\<close>

definition wide_policy :: "ReadinessPolicy \<Rightarrow> bool" where
  "wide_policy p \<longleftrightarrow> 0 < rp_RetryMinimum p \<and> rp_RetryMinimum p \<le> rp_RetryMaximum p \<and>
     rp_RetryMaximum p \<le> 4611686018427387903"

definition delay_inv :: "ReadinessPolicy \<Rightarrow> run_state \<Rightarrow> bool" where
  "delay_inv p s \<longleftrightarrow> rp_RetryMinimum p \<le> rs_delay s \<and> rs_delay s \<le> rp_RetryMaximum p"

lemma next_delay_range:
  "wide_policy p \<Longrightarrow> rp_RetryMinimum p \<le> d \<Longrightarrow> d \<le> rp_RetryMaximum p \<Longrightarrow> next_delay p d = min (d * 2) (rp_RetryMaximum p)"
  by (simp add: wide_policy_def next_delay_def int64_def)

lemma delay_iterate:
  assumes "wide_policy p"
  shows "(next_delay p ^^ k) (rp_RetryMinimum p) = min (rp_RetryMinimum p * 2 ^ k) (rp_RetryMaximum p)"
proof (induction k)
  case 0
  with assms show ?case by (simp add: wide_policy_def)
next
  case (Suc k)
  let ?d = "min (rp_RetryMinimum p * 2 ^ k) (rp_RetryMaximum p)"
  have "rp_RetryMinimum p * 1 \<le> rp_RetryMinimum p * 2 ^ k"
    using assms by (intro mult_left_mono) (simp_all add: wide_policy_def)
  then have "next_delay p ?d = min (?d * 2) (rp_RetryMaximum p)"
    using assms by (intro next_delay_range) (auto simp: wide_policy_def)
  also have "\<dots> = min (rp_RetryMinimum p * 2 ^ Suc k) (rp_RetryMaximum p)"
    using assms by (auto simp: min_def wide_policy_def)
  finally show ?case by (simp add: Suc.IH)
qed

interpretation run_delay: inductive_invariant "\<lambda>s. wide_policy policy \<and> run_init policy probes s"
  "any_step policy probes" "\<lambda>s. wide_policy policy \<and> delay_inv policy s" for policy probes
proof unfold_locales
  fix s t
  show "wide_policy policy \<and> run_init policy probes s \<Longrightarrow> wide_policy policy \<and> delay_inv policy s"
    by (auto simp: run_init_def run_start_def delay_inv_def wide_policy_def)
  assume inv: "wide_policy policy \<and> delay_inv policy s" and "any_step policy probes s t"
  then consider "env_step s t" | "run_step policy probes s t" by (auto simp: any_step_def)
  then show "wide_policy policy \<and> delay_inv policy t"
  proof cases
    case 1
    then show ?thesis using inv by (elim env_stepE) (auto simp: delay_inv_def)
  next
    case 2
    then show ?thesis
    proof cases
      case (wait_timer failed)
      then show ?thesis using inv next_delay_range [of policy "rs_delay s"]
        by (auto simp: delay_inv_def wide_policy_def)
    next
      case (deferred e d ds)
      then show ?thesis using inv by (cases d) (auto simp: delay_inv_def)
    qed (use inv in \<open>auto simp: delay_inv_def\<close>)
  qed
qed

lemma reach_weaken: "reach init step s \<Longrightarrow> Q \<Longrightarrow> reach (\<lambda>s. Q \<and> init s) step s"
  by (induction rule: reach.induct) (auto intro: reach.intros)

section \<open>Rounds of probes\<close>

definition set_slot :: "bool list \<Rightarrow> nat \<times> go_error option \<Rightarrow> bool list" where
  "set_slot failed fin = failed[fst fin := (snd fin \<noteq> None)]"

lemma round_fold: "fst (foldl (probe_done probes) (failed, obs) fin) = foldl set_slot failed fin"
  by (induction fin arbitrary: failed obs) (auto simp: probe_done_def set_slot_def split: prod.splits)

lemma slots_length [simp]: "length (foldl set_slot failed fin) = length failed"
  by (induction fin arbitrary: failed) (auto simp: set_slot_def)

lemma slots_fold:
  "distinct (map fst fin) \<Longrightarrow> i < length failed \<Longrightarrow>
     foldl set_slot failed fin ! i = (case map_of fin i of None \<Rightarrow> failed ! i | Some err \<Rightarrow> err \<noteq> None)"
proof (induction fin arbitrary: failed)
  case (Cons x fin)
  obtain j err where x: "x = (j, err)" by (cases x)
  with Cons.prems have "map_of fin j = None" by (simp add: map_of_eq_None_iff)
  with Cons x show ?case by (auto simp: set_slot_def nth_list_update split: option.splits)
qed simp

lemma round_slots:
  assumes "round_complete probes fin"
  shows "fst (probe_round probes fin) = map (\<lambda>i. map_of fin i \<noteq> Some None) [0..<length probes]"
proof -
  have d: "distinct (map fst fin)" and s: "fst ` set fin = {0..<length probes}"
    using assms mset_eq_imp_distinct_iff [of "map fst fin" "[0..<length probes]"]
      mset_eq_setD [of "map fst fin" "[0..<length probes]"] by (auto simp: round_complete_def)
  show ?thesis
  proof (rule nth_equalityI)
    fix i assume "i < length (fst (probe_round probes fin))"
    then have i: "i < length probes" by (simp add: probe_round_def round_fold)
    then have "map_of fin i \<noteq> None" using s by (auto simp: map_of_eq_None_iff)
    with i show "fst (probe_round probes fin) ! i = map (\<lambda>i. map_of fin i \<noteq> Some None) [0..<length probes] ! i"
      by (auto simp: probe_round_def round_fold slots_fold [OF d])
  qed (simp add: probe_round_def round_fold)
qed

section \<open>Stopping\<close>

text \<open>
  The steps of a process that is being stopped: its own steps, the cancellation of its context,
  and the return of the server, but only after the server has been told to stop.
\<close>

inductive stop_step :: "ReadinessPolicy \<Rightarrow> Probe list \<Rightarrow> run_state \<Rightarrow> run_state \<Rightarrow> bool" for policy probes where
  stop_run: "run_step policy probes s t \<Longrightarrow> stop_step policy probes s t"
| stop_cancel: "stop_step policy probes s (s\<lparr>rs_ctx_done := True, rs_startup_done := True\<rparr>)"
| stop_serve: "rs_serve s = Serving \<Longrightarrow> rs_serve_cancelled s \<Longrightarrow> stop_step policy probes s (s\<lparr>rs_serve := Sent e\<rparr>)"

definition stoppable :: "ReadinessPolicy \<Rightarrow> Probe list \<Rightarrow> run_state \<Rightarrow> bool" where
  "stoppable policy probes s \<longleftrightarrow> (\<exists>t e. (stop_step policy probes)\<^sup>*\<^sup>* s t \<and> rs_phase t = Returned e)"

lemma stoppable_step: "stop_step policy probes s t \<Longrightarrow> stoppable policy probes t \<Longrightarrow> stoppable policy probes s"
  by (auto simp: stoppable_def intro: converse_rtranclp_into_rtranclp)

lemma stoppable_run: "run_step policy probes s t \<Longrightarrow> stoppable policy probes t \<Longrightarrow> stoppable policy probes s"
  by (rule stoppable_step [OF stop_run])

lemma returning_stops: "rs_phase s = Returning e ds \<Longrightarrow> stoppable policy probes s"
proof (induction ds arbitrary: s)
  case Nil
  have "stoppable policy probes (s\<lparr>rs_phase := Returned e\<rparr>)" by (auto simp: stoppable_def)
  with Nil show ?case by (blast intro: stoppable_run returned)
next
  case (Cons d ds)
  have "stoppable policy probes ((run_deferred d s)\<lparr>rs_phase := Returning e ds\<rparr>)" by (rule Cons.IH) simp
  with Cons.prems show ?case by (blast intro: stoppable_run run_step.deferred)
qed

lemma draining_stops:
  assumes inv: "run_inv probes s" and ph: "rs_phase s = Draining \<or> (\<exists>failed. rs_phase s = StartupDraining failed)"
  shows "stoppable policy probes s"
proof -
  have sent: "stoppable policy probes t" if t: "rs_serve t = Sent e" "rs_phase t = rs_phase s" for t e
  proof (cases "rs_phase s = Draining")
    case True
    with t show ?thesis by (auto intro: stoppable_run [OF drained [of t e] returning_stops [of _ e steady_defers]])
  next
    case False
    with ph t obtain failed where "rs_phase t = StartupDraining failed" by auto
    with t show ?thesis by (auto intro: stoppable_run [OF startup_drained [of t failed e] returning_stops])
  qed
  show ?thesis
  proof (cases "rs_serve s")
    case Serving
    moreover have "rs_serve_cancelled s" using inv ph by (auto simp: run_inv_def)
    ultimately show ?thesis using sent [of "s\<lparr>rs_serve := Sent None\<rparr>" None] stoppable_step [OF stop_serve] by simp
  next
    case (Sent e)
    then show ?thesis by (intro sent) simp_all
  next
    case (Received e)
    with inv ph show ?thesis by (auto simp: run_inv_def)
  qed
qed

lemma all_ok_round: "round_complete probes (map (\<lambda>i. (i, None)) [0..<length probes])"
  by (simp add: round_complete_def comp_def)

lemma all_ok_names: "runProbes probes (map (\<lambda>i. (i, None)) [0..<length probes]) = []"
proof -
  have "map_of (map (\<lambda>i. (i, None :: go_error option)) [0..<length probes]) i = Some None" if "i < length probes" for i
    using that by (simp add: map_of_map_restrict restrict_map_def)
  then have "fst (probe_round probes (map (\<lambda>i. (i, None)) [0..<length probes])) = map (\<lambda>i. False) [0..<length probes]"
    by (simp add: round_slots [OF all_ok_round])
  then show ?thesis by (auto simp: runProbes_def failed_names_def filter_empty_conv in_set_zip)
qed

lemma clearing_stops:
  assumes "run_inv probes s" "rs_phase s = Clearing"
  shows "stoppable policy probes s"
  using run_inv_run [OF assms(1) cleared [OF assms(2)]]
  by (intro stoppable_run [OF cleared [OF assms(2)]] draining_stops) auto

lemma steady_stops:
  assumes inv: "run_inv probes s" and ph: "rs_phase s = Steady"
  shows "stoppable policy probes s"
proof -
  let ?t = "s\<lparr>rs_ctx_done := True, rs_startup_done := True\<rparr>"
  let ?u = "?t\<lparr>rs_phase := Clearing, rs_ready := False\<rparr>"
  have "run_inv probes ?t" using run_inv_env [OF inv env_cancel] .
  moreover have step: "run_step policy probes ?t ?u" using ph by (intro steady_cancelled) simp_all
  ultimately have "run_inv probes ?u" by (rule run_inv_run)
  then have "stoppable policy probes ?u" by (rule clearing_stops) simp
  then show ?thesis using stoppable_run [OF step] stoppable_step [OF stop_cancel] by blast
qed

lemma probing_stops:
  assumes inv: "run_inv probes s" and ph: "rs_phase s = Probing \<or> rs_phase s = Reprobing"
  shows "stoppable policy probes s"
proof -
  obtain t where t: "run_step policy probes s t" "rs_phase t = Steady"
    using ph probes_ready [of s probes _ policy] reprobed [of s probes _ "[]" policy] all_ok_round all_ok_names
    by (metis (no_types, lifting) run_state.select_convs(1) run_state.surjective run_state.update_convs(1-3,8))
  from run_inv_run [OF inv t(1)] t(2) have "stoppable policy probes t" by (rule steady_stops)
  then show ?thesis using stoppable_run [OF t(1)] by blast
qed

lemma run_stops:
  assumes inv: "run_inv probes s"
  shows "stoppable policy probes s"
proof (cases "rs_phase s")
  case (Waiting failed)
  let ?t = "s\<lparr>rs_phase := Probing, rs_delay := next_delay policy (rs_delay s)\<rparr>"
  have step: "run_step policy probes s ?t" using Waiting by (rule wait_timer)
  from run_inv_run [OF inv step] have "stoppable policy probes ?t" by (rule probing_stops) simp
  then show ?thesis using stoppable_run [OF step] by blast
next
  case (Returned e)
  then show ?thesis by (auto simp: stoppable_def)
qed (use inv in \<open>auto intro: probing_stops steady_stops clearing_stops draining_stops returning_stops\<close>)

text \<open>
  Once \<^verbatim>\<open>Run\<close> has decided to stop it makes a bounded number of steps of its own, however the
  environment interleaves: the rank counts what is left.
\<close>

fun stop_rank :: "run_phase \<Rightarrow> nat option" where
  "stop_rank Clearing = Some 7"
| "stop_rank Draining = Some 6"
| "stop_rank (StartupDraining failed) = Some 6"
| "stop_rank (Returning e ds) = Some (Suc (length ds))"
| "stop_rank (Returned e) = Some 0"
| "stop_rank _ = None"

definition round_step :: "ReadinessPolicy \<Rightarrow> Probe list \<Rightarrow> run_state \<Rightarrow> run_state \<Rightarrow> bool" where
  "round_step policy probes s t \<longleftrightarrow> (\<exists>u. env_step\<^sup>*\<^sup>* s u \<and> run_step policy probes u t)"

lemma env_steps_phase: "env_step\<^sup>*\<^sup>* s t \<Longrightarrow> rs_phase t = rs_phase s"
  by (induction rule: rtranclp_induct) (auto elim: env_stepE)

lemma stop_rank_run:
  assumes "run_step policy probes s t" "stop_rank (rs_phase s) = Some n"
  shows "\<exists>k. stop_rank (rs_phase t) = Some k \<and> k < n"
  using assms by (cases rule: run_step.cases) (auto simp: startup_defers_def steady_defers_def)

lemma defers_length: "\<exists>pre. pre @ ds = steady_defers \<Longrightarrow> length ds \<le> 4"
  by (auto simp: steady_defers_def append_eq_Cons_conv)

lemma stop_rank_bound: "run_inv probes s \<Longrightarrow> stop_rank (rs_phase s) = Some n \<Longrightarrow> n \<le> 7"
  using defers_length by (cases "rs_phase s") (force simp: run_inv_def)+

lemma stop_rank_rounds:
  "(round_step policy probes ^^ m) s t \<Longrightarrow> stop_rank (rs_phase s) = Some n \<Longrightarrow>
     \<exists>k. stop_rank (rs_phase t) = Some k \<and> k + m \<le> n"
proof (induction m arbitrary: t)
  case (Suc m)
  then obtain u where u: "(round_step policy probes ^^ m) s u" "round_step policy probes u t" by auto
  from Suc.IH [OF u(1) Suc.prems(2)] obtain k where k: "stop_rank (rs_phase u) = Some k" "k + m \<le> n" by auto
  from u(2) obtain v where v: "env_step\<^sup>*\<^sup>* u v" "run_step policy probes v t" by (auto simp: round_step_def)
  from stop_rank_run [OF v(2)] env_steps_phase [OF v(1)] k show ?case by fastforce
qed simp

lemma stop_rank_progress:
  assumes "run_inv probes s" "stop_rank (rs_phase s) = Some n" "rs_serve s \<noteq> Serving"
  shows "(\<exists>e. rs_phase s = Returned e) \<or> (\<exists>t. run_step policy probes s t)"
proof (cases "rs_phase s")
  case (Returning e ds)
  then show ?thesis by (cases ds) (auto intro: run_step.returned run_step.deferred)
qed (use assms in \<open>cases "rs_serve s"; auto simp: run_inv_def intro: run_step.intros\<close>)+

lemma reach_run:
  "reach (run_init policy probes) (any_step policy probes) s \<Longrightarrow> run_step policy probes s t \<Longrightarrow>
     reach (run_init policy probes) (any_step policy probes) t"
  by (auto intro: reach_step simp: any_step_def)

lemma reach_env:
  "reach (run_init policy probes) (any_step policy probes) s \<Longrightarrow> env_step s t \<Longrightarrow>
     reach (run_init policy probes) (any_step policy probes) t"
  by (auto intro: reach_step simp: any_step_def)

lemma reach_rounds:
  assumes "reach (run_init policy probes) (any_step policy probes) s" "(round_step policy probes ^^ m) s t"
  shows "reach (run_init policy probes) (any_step policy probes) t"
  using assms(2)
proof (induction m arbitrary: t)
  case 0
  with assms(1) show ?case by simp
next
  case (Suc m)
  then obtain u where "(round_step policy probes ^^ m) s u" "round_step policy probes u t" by auto
  then obtain v where u: "(round_step policy probes ^^ m) s u" "env_step\<^sup>*\<^sup>* u v" "run_step policy probes v t"
    unfolding round_step_def by blast
  from u(2) have "(any_step policy probes)\<^sup>*\<^sup>* u v"
    by (rule rtranclp_mono [THEN predicate2D, rotated]) (auto simp: any_step_def)
  from reach_run [OF reach_steps [OF Suc.IH [OF u(1)] this] u(3)] show ?case .
qed

section \<open>Two runs\<close>

text \<open>
  Two runs of a gateway with PostgreSQL and Redis under the default policy, for the examples: one
  where both dependencies answer the first round, and one where Redis never answers, the startup
  time runs out and the server ends without an error.
\<close>

definition sample_probes :: "Probe list" where
  "sample_probes = [\<lparr>probe_Name = ''postgresql'', probe_has_Ping = True, probe_has_Observe = True\<rparr>,
     \<lparr>probe_Name = ''redis'', probe_has_Ping = True, probe_has_Observe = True\<rparr>]"

definition sample_ready :: run_state where
  "sample_ready = (run_start DefaultReadinessPolicy False)\<lparr>rs_phase := Steady, rs_ready := True, rs_failed := Some []\<rparr>"

definition sample_told :: run_state where
  "sample_told = \<lparr>rs_phase = StartupDraining [''redis''], rs_ready = False, rs_serve = Serving,
     rs_serve_cancelled = True, rs_ctx_done = False, rs_startup_done = True,
     rs_delay = 100 * Millisecond, rs_failed = Some [''redis'']\<rparr>"

definition sample_timeout :: run_state where
  "sample_timeout = \<lparr>rs_phase = Returned (Some (startup_timeout_error [''redis''])), rs_ready = False,
     rs_serve = Received None, rs_serve_cancelled = True, rs_ctx_done = False, rs_startup_done = True,
     rs_delay = 100 * Millisecond, rs_failed = Some [''redis'']\<rparr>"

lemma sample_start: "run_init DefaultReadinessPolicy sample_probes (run_start DefaultReadinessPolicy False)"
proof -
  have "is_ok (run_checks DefaultReadinessPolicy sample_probes)" by code_simp
  then show ?thesis by (auto simp: run_init_def)
qed

lemma sample_ready_reached:
  "reach (run_init DefaultReadinessPolicy sample_probes) (any_step DefaultReadinessPolicy sample_probes) sample_ready"
  unfolding sample_ready_def
  by (rule reach_run [OF reach_init [of "run_init DefaultReadinessPolicy sample_probes", OF sample_start] probes_ready [OF _ all_ok_round all_ok_names]])
     (simp add: run_start_def)

lemma sample_told_reached:
  "reach (run_init DefaultReadinessPolicy sample_probes) (any_step DefaultReadinessPolicy sample_probes) sample_told"
proof -
  let ?fin = "[(1, Some ''connection refused''), (0, None)] :: (nat \<times> go_error option) list"
  have fin: "round_complete sample_probes ?fin" "runProbes sample_probes ?fin = [''redis'']" by code_simp+
  note start = reach_init [of "run_init DefaultReadinessPolicy sample_probes", OF sample_start]
  note failed = reach_run [OF start probes_failed [OF _ fin], simplified run_start_def, simplified]
  note late = reach_env [OF failed env_deadline, simplified]
  note told = reach_run [OF late wait_startup, simplified]
  show ?thesis using told by (simp add: sample_told_def DefaultReadinessPolicy_def)
qed

lemma sample_timeout_reached:
  "reach (run_init DefaultReadinessPolicy sample_probes) (any_step DefaultReadinessPolicy sample_probes) sample_timeout"
proof -
  note told = sample_told_reached [unfolded sample_told_def]
  note served = reach_env [OF told env_serve [of _ None], simplified]
  note drained = reach_run [OF served startup_drained, simplified startup_defers_def, simplified]
  note defer1 = reach_run [OF drained deferred, simplified]
  note defer2 = reach_run [OF defer1 deferred, simplified]
  note defer3 = reach_run [OF defer2 deferred, simplified]
  note ended = reach_run [OF defer3 returned, simplified]
  show ?thesis using ended by (simp add: sample_timeout_def DefaultReadinessPolicy_def)
qed

section \<open>Properties\<close>



text \<open>C2. Readiness is safe: while the server has been told to stop and still runs, the service is not
  ready; once \<^verbatim>\<open>Run\<close> has returned it is not ready, the server has returned and its context is
  cancelled; and whenever the service is ready, the last finished round of probes had no failure.\<close>

theorem Run_readiness_safe:
  assumes "reach (run_init policy probes) (any_step policy probes) s"
  shows "(rs_serve_cancelled s \<and> rs_serve s = Serving \<longrightarrow> \<not> rs_ready s) \<and>
    (rs_phase s = Returned e \<longrightarrow> \<not> rs_ready s \<and> rs_serve_cancelled s \<and> (\<exists>r. rs_serve s = Received r)) \<and>
    (rs_ready s \<longrightarrow> rs_failed s = Some [])"
  using run_machine.inv_reach [OF assms]
  by (auto simp: run_inv_def last_ok_def split: run_phase.splits)

theorem Run_readiness_safe_witness:
  "rs_ready sample_ready \<and> rs_failed sample_ready = Some [] \<and> \<not> rs_ready sample_timeout"
  using Run_readiness_safe [OF sample_ready_reached] Run_readiness_safe [OF sample_timeout_reached]
  by (auto simp: sample_ready_def sample_timeout_def)





text \<open>The failed probes are reported in the order of the probe list, whatever order the goroutines
  finish in: a probe is named exactly when its own ping returned an error.\<close>

theorem runProbes_order_free:
  assumes "round_complete probes fin"
  shows "runProbes probes fin =
    map (\<lambda>i. probe_Name (probes ! i)) (filter (\<lambda>i. map_of fin i \<noteq> Some None) [0..<length probes])"
proof -
  have "zip probes (map f [0..<length probes]) = map (\<lambda>i. (probes ! i, f i)) [0..<length probes]" for f :: "nat \<Rightarrow> bool"
    by (rule nth_equalityI) auto
  then show ?thesis
    by (simp add: runProbes_def failed_names_def round_slots [OF assms] filter_map comp_def)
qed

theorem runProbes_order_free_witness:
  "runProbes sample_probes [(1, Some ''connection refused''), (0, None)] = [''redis'']"
proof -
  have "round_complete sample_probes [(1, Some ''connection refused''), (0, None)]" by code_simp
  from runProbes_order_free [OF this] show ?thesis by (simp add: sample_probes_def)
qed



text \<open>C21. Shutting down terminates: after \<^verbatim>\<open>Run\<close> has begun to stop it makes at most seven steps of its own,
  whatever the environment does in between, and it is never stuck unless it has returned or the
  server it told to stop is still running.\<close>

theorem Run_shutdown_bounded:
  assumes "reach (run_init policy probes) (any_step policy probes) s" "stop_rank (rs_phase s) \<noteq> None"
    "(round_step policy probes ^^ m) s t"
  shows "m \<le> 7 \<and> ((\<exists>e. rs_phase t = Returned e) \<or> (\<exists>u. run_step policy probes t u) \<or>
    rs_serve_cancelled t \<and> rs_serve t = Serving)"
proof -
  obtain n where n: "stop_rank (rs_phase s) = Some n" using assms(2) by blast
  have inv: "run_inv probes s" "run_inv probes t"
    using run_machine.inv_reach [OF assms(1)] run_machine.inv_reach [OF reach_rounds [OF assms(1,3)]] .
  have "n \<le> 7" using inv(1) n stop_rank_bound by blast
  from stop_rank_rounds [OF assms(3) n] obtain k where k: "stop_rank (rs_phase t) = Some k" "k + m \<le> n" by blast
  have "rs_phase t = Clearing \<or> rs_serve t = Serving \<longrightarrow> (\<exists>u. run_step policy probes t u) \<or> rs_serve_cancelled t"
    using inv(2) k(1) by (cases "rs_phase t") (auto simp: run_inv_def intro: cleared)
  then show ?thesis using stop_rank_progress [OF inv(2) k(1)] k(2) \<open>n \<le> 7\<close> by fastforce
qed

theorem Run_shutdown_bounded_witness:
  "rs_phase sample_told = StartupDraining [''redis''] \<and> rs_serve sample_told = Serving \<and>
   (\<nexists>t. (round_step DefaultReadinessPolicy sample_probes ^^ 8) sample_told t)"
proof -
  have "stop_rank (rs_phase sample_told) \<noteq> None" by (simp add: sample_told_def)
  from Run_shutdown_bounded [OF sample_told_reached this, of 8] show ?thesis
    by (auto simp: sample_told_def)
qed

end
