(* ===== verification/Lifecycle.thy ===== *)
theory Lifecycle
  imports Readiness
begin

text \<open>
  \<^verbatim>\<open>internal/runtime/runtime.go\<close>: how a process owns its readiness.  \<^verbatim>\<open>RunInitialized\<close> runs two
  goroutines, the caller's and a watcher of the context; the model interleaves their steps and
  is compared with the same contract as the dependency machine.
\<close>

section \<open>Fixed sequences\<close>

text \<open>The calls a function makes, in order.\<close>

datatype lifecycle_call = CallSetReady bool | CallRun | CallStop

text \<open>\<^verbatim>\<open>Run\<close> registers the signals, runs the process and releases the registration.\<close>

definition runtime_Run :: "'e option \<Rightarrow> 'e option \<times> lifecycle_call list" where
  "runtime_Run result = (result, [CallRun, CallStop])"

definition RunWithoutReadiness :: "'e option \<Rightarrow> 'e option \<times> lifecycle_call list" where
  "RunWithoutReadiness result = (result, [CallSetReady False, CallRun, CallSetReady False])"

section \<open>RunInitialized\<close>

datatype main_phase =
    InRun
  | CloseFinished "go_error option"
  | ClearMain "go_error option"
  | CancelMain "go_error option"
  | MainReturned "go_error option"

datatype watch_phase = Watching | ClearWatch | CancelWatch | WatchDone

record init_state =
  is_main :: main_phase
  is_watch :: watch_phase
  is_ready :: bool
  is_cancelled :: bool
  is_ctx_done :: bool
  is_finished :: bool

text \<open>The state after the check of the context and \<^verbatim>\<open>setReady(true)\<close>, with the watcher started.\<close>

definition RunInitialized :: "go_error option \<Rightarrow> (bool \<times> go_error) + init_state" where
  "RunInitialized ctx_err = (case ctx_err of
     Some e \<Rightarrow> Inl (False, e)
   | None \<Rightarrow> Inr \<lparr>is_main = InRun, is_watch = Watching, is_ready = True, is_cancelled = False,
       is_ctx_done = False, is_finished = False\<rparr>)"

definition initialized_start :: "init_state \<Rightarrow> bool" where
  "initialized_start s \<longleftrightarrow> RunInitialized None = Inr s"

inductive initialized_step :: "init_state \<Rightarrow> init_state \<Rightarrow> bool" where
  ctx_done: "initialized_step s (s\<lparr>is_ctx_done := True\<rparr>)"
| run_returns: "is_main s = InRun \<Longrightarrow> initialized_step s (s\<lparr>is_main := CloseFinished e\<rparr>)"
| close_finished: "is_main s = CloseFinished e \<Longrightarrow> initialized_step s (s\<lparr>is_main := ClearMain e, is_finished := True\<rparr>)"
| clear_main: "is_main s = ClearMain e \<Longrightarrow> initialized_step s (s\<lparr>is_main := CancelMain e, is_ready := False\<rparr>)"
| cancel_main: "is_main s = CancelMain e \<Longrightarrow> initialized_step s (s\<lparr>is_main := MainReturned e, is_cancelled := True\<rparr>)"
| watch_ctx: "is_watch s = Watching \<Longrightarrow> is_ctx_done s \<Longrightarrow> initialized_step s (s\<lparr>is_watch := ClearWatch\<rparr>)"
| watch_finished: "is_watch s = Watching \<Longrightarrow> is_finished s \<Longrightarrow> initialized_step s (s\<lparr>is_watch := WatchDone\<rparr>)"
| clear_watch: "is_watch s = ClearWatch \<Longrightarrow> initialized_step s (s\<lparr>is_watch := CancelWatch, is_ready := False\<rparr>)"
| cancel_watch: "is_watch s = CancelWatch \<Longrightarrow> initialized_step s (s\<lparr>is_watch := WatchDone, is_cancelled := True\<rparr>)"

inductive_cases initialized_stepE: "initialized_step s t"

definition initialized_mode :: "init_state \<Rightarrow> serve_mode \<times> bool" where
  "initialized_mode s =
     (case is_main s of
        InRun \<Rightarrow> if is_cancelled s then Shutting else Accepting
      | MainReturned e \<Rightarrow> Ended
      | _ \<Rightarrow> Gone, is_ready s)"

definition initialized_inv :: "init_state \<Rightarrow> bool" where
  "initialized_inv s \<longleftrightarrow>
     (is_ready s \<longrightarrow> \<not> is_cancelled s \<and> is_watch s \<noteq> CancelWatch \<and> (\<forall>e. is_main s \<noteq> CancelMain e \<and> is_main s \<noteq> MainReturned e)) \<and>
     (\<not> is_ready s \<longrightarrow> is_ctx_done s \<or> is_main s \<noteq> InRun) \<and>
     (is_watch s \<in> {ClearWatch, CancelWatch} \<longrightarrow> is_ctx_done s)"

lemma initialized_inv_step: "initialized_inv s \<Longrightarrow> initialized_step s t \<Longrightarrow> initialized_inv t"
  by (erule initialized_stepE) (auto simp: initialized_inv_def)

lemma initialized_mode_step:
  "initialized_inv s \<Longrightarrow> initialized_step s t \<Longrightarrow>
     initialized_mode s = initialized_mode t \<or> contract_step (initialized_mode s) (initialized_mode t)"
  by (erule initialized_stepE)
     (auto simp: initialized_inv_def initialized_mode_def split: main_phase.splits intro: contract_step.intros)

interpretation initialized_contract: simulation initialized_start initialized_step
  contract_init contract_step initialized_mode initialized_inv
proof unfold_locales
  fix s t
  show "initialized_start s \<Longrightarrow> contract_init (initialized_mode s) \<and> initialized_inv s"
    by (auto simp: initialized_start_def RunInitialized_def initialized_mode_def contract_init_def initialized_inv_def)
  show "initialized_inv s \<Longrightarrow> initialized_step s t \<Longrightarrow>
      initialized_inv t \<and> (initialized_mode s = initialized_mode t \<or> contract_step (initialized_mode s) (initialized_mode t))"
    using initialized_inv_step initialized_mode_step by blast
qed

text \<open>C25. \<^verbatim>\<open>RunInitialized\<close> keeps the same readiness contract as the dependency machine, whatever the
  interleaving of its two goroutines; while it serves and its context is not cancelled it is
  ready, and when it has returned it is not.\<close>

theorem RunInitialized_keeps_contract:
  assumes "reach initialized_start initialized_step s"
  shows "reach contract_init contract_step (initialized_mode s) \<and>
    (is_main s = InRun \<and> \<not> is_ctx_done s \<longrightarrow> is_ready s) \<and>
    (is_main s = InRun \<and> is_cancelled s \<longrightarrow> \<not> is_ready s) \<and>
    (is_main s = MainReturned e \<longrightarrow> \<not> is_ready s)"
  using initialized_contract.sim_reach [OF assms] by (auto simp: initialized_inv_def)

text \<open>The server returns while the watcher is about to clear the readiness.\<close>

definition crossing :: init_state where
  "crossing = \<lparr>is_main = MainReturned None, is_watch = ClearWatch, is_ready = False, is_cancelled = True,
     is_ctx_done = True, is_finished = True\<rparr>"

lemma crossing_reached: "reach initialized_start initialized_step crossing"
proof -
  have start: "reach initialized_start initialized_step \<lparr>is_main = InRun, is_watch = Watching, is_ready = True,
      is_cancelled = False, is_ctx_done = False, is_finished = False\<rparr>"
    by (rule reach_init) (simp add: initialized_start_def RunInitialized_def)
  note r1 = reach_step [OF start ctx_done, simplified]
  note r2 = reach_step [OF r1 watch_ctx, simplified]
  note r3 = reach_step [OF r2 run_returns [of _ None], simplified]
  note r4 = reach_step [OF r3 close_finished, simplified]
  note r5 = reach_step [OF r4 clear_main, simplified]
  note r6 = reach_step [OF r5 cancel_main, simplified]
  show ?thesis using r6 by (simp add: crossing_def)
qed

theorem RunInitialized_keeps_contract_witness:
  "reach contract_init contract_step (Ended, False)"
  using RunInitialized_keeps_contract [OF crossing_reached] by (simp add: crossing_def initialized_mode_def)

end
