(* ===== verification/Http_Server.thy ===== *)
theory Http_Server
  imports Transition Go_Text
begin

text \<open>
  \<^verbatim>\<open>internal/httpserver\<close>: the health endpoints and the operational HTTP server.  A handler is
  the sequence of operations it performs on its response writer, and \<^verbatim>\<open>net/http\<close>'s writer is the
  state those operations act on, so that a wrapper around the writer can be compared with it.
  \<^verbatim>\<open>Server.Serve\<close> is a step relation: its own steps interleave with the goroutine that accepts
  connections and with the cancellation of the context.
\<close>

section \<open>Responses\<close>

datatype write_op =
    SetHeader string string
  | WriteHeader int
  | WriteBody string

record response_writer =
  rw_header :: "(string \<times> string) list"
  rw_wroteHeader :: bool
  rw_status :: int
  rw_sent :: "(string \<times> string) list"
  rw_body :: string

definition new_writer :: response_writer where
  "new_writer = \<lparr>rw_header = [], rw_wroteHeader = False, rw_status = 0, rw_sent = [], rw_body = []\<rparr>"

definition StatusOK :: int where "StatusOK = 200"
definition StatusSwitchingProtocols :: int where "StatusSwitchingProtocols = 101"
definition StatusInternalServerError :: int where "StatusInternalServerError = 500"
definition StatusServiceUnavailable :: int where "StatusServiceUnavailable = 503"

lemmas status_codes = StatusOK_def StatusSwitchingProtocols_def StatusInternalServerError_def StatusServiceUnavailable_def

text \<open>
  \<^verbatim>\<open>ResponseWriter.WriteHeader\<close> of \<^verbatim>\<open>net/http\<close>: \<^const>\<open>None\<close> is the panic on a code outside 100 to
  999; an informational status is sent on its own and does not end the header; a second call is
  ignored.
\<close>

definition informational :: "int \<Rightarrow> bool" where
  "informational code \<longleftrightarrow> 100 \<le> code \<and> code \<le> 199 \<and> code \<noteq> StatusSwitchingProtocols"

definition http_WriteHeader :: "int \<Rightarrow> response_writer \<Rightarrow> response_writer option" where
  "http_WriteHeader code w =
     (if rw_wroteHeader w then Some w
      else if code < 100 \<or> 999 < code then None
      else if informational code then Some w
      else Some (w\<lparr>rw_wroteHeader := True, rw_status := code, rw_sent := rw_header w\<rparr>))"

definition http_Write :: "string \<Rightarrow> response_writer \<Rightarrow> response_writer option" where
  "http_Write body w =
     map_option (\<lambda>w. w\<lparr>rw_body := rw_body w @ body\<rparr>)
       (if rw_wroteHeader w then Some w else http_WriteHeader StatusOK w)"

definition header_Set :: "string \<Rightarrow> string \<Rightarrow> (string \<times> string) list \<Rightarrow> (string \<times> string) list" where
  "header_Set k v hs = filter (\<lambda>(k', v'). k' \<noteq> k) hs @ [(k, v)]"

fun http_op :: "write_op \<Rightarrow> response_writer \<Rightarrow> response_writer option" where
  "http_op (SetHeader k v) w = Some (w\<lparr>rw_header := header_Set k v (rw_header w)\<rparr>)"
| "http_op (WriteHeader code) w = http_WriteHeader code w"
| "http_op (WriteBody body) w = http_Write body w"

fun http_ops :: "write_op list \<Rightarrow> response_writer \<Rightarrow> response_writer option" where
  "http_ops [] w = Some w"
| "http_ops (x # xs) w = (case http_op x w of None \<Rightarrow> None | Some w' \<Rightarrow> http_ops xs w')"

text \<open>When the handler returns, a header that was not written is sent with status 200.\<close>

definition http_finish :: "response_writer \<Rightarrow> response_writer option" where
  "http_finish w = (if rw_wroteHeader w then Some w else http_WriteHeader StatusOK w)"

definition http_respond :: "write_op list \<Rightarrow> response_writer option" where
  "http_respond xs = (case http_ops xs new_writer of None \<Rightarrow> None | Some w \<Rightarrow> http_finish w)"

section \<open>Health\<close>

record Health =
  health_ready :: bool

definition SetReady :: "bool \<Rightarrow> Health \<Rightarrow> Health" where
  "SetReady ready h = h\<lparr>health_ready := ready\<rparr>"

definition Ready :: "Health \<Rightarrow> bool" where
  "Ready h = health_ready h"

text \<open>\<^verbatim>\<open>json.NewEncoder(w).Encode\<close> of a map with one entry whose strings need no escape.\<close>

definition encode_status :: "string \<Rightarrow> string" where
  "encode_status state = ''{'' @ [CHR 0x22] @ ''status'' @ [CHR 0x22] @ '':'' @ [CHR 0x22] @ state @ [CHR 0x22] @ ''}'' @ [CHR 10]"

definition writeHealth :: "int \<Rightarrow> string \<Rightarrow> write_op list" where
  "writeHealth status state =
     [SetHeader ''Cache-Control'' ''no-store'', SetHeader ''Content-Type'' ''application/json'',
      WriteHeader status, WriteBody (encode_status state)]"

definition live :: "Health \<Rightarrow> write_op list" where
  "live h = writeHealth StatusOK ''live''"

definition readiness :: "Health \<Rightarrow> write_op list" where
  "readiness h =
     (if \<not> health_ready h then writeHealth StatusServiceUnavailable ''not_ready''
      else writeHealth StatusOK ''ready'')"

text \<open>
  The router is a parameter: \<open>Handler\<close> gives it the routes in the order of registration, a
  method (\<^const>\<open>None\<close> for every method), a path and the handler.  What the program relies on is
  \<open>router_ok\<close>: a static path that is registered for the request's method is dispatched to its
  handler.
\<close>

datatype route_target = LiveEndpoint | ReadyEndpoint | MetricsEndpoint

definition Handler :: "bool \<Rightarrow> (string option \<times> string \<times> route_target) list" where
  "Handler has_metrics =
     [(Some ''GET'', ''/health/live'', LiveEndpoint), (Some ''GET'', ''/health/ready'', ReadyEndpoint)] @
     (if has_metrics then [(None, ''/metrics'', MetricsEndpoint)] else [])"

type_synonym router = "(string option \<times> string \<times> route_target) list \<Rightarrow> string \<Rightarrow> string \<Rightarrow> route_target option"

definition route_matches :: "string \<Rightarrow> string \<Rightarrow> string option \<times> string \<times> route_target \<Rightarrow> bool" where
  "route_matches method path r = (case r of (m, p, h) \<Rightarrow> p = path \<and> (m = None \<or> m = Some method))"

definition router_ok :: "router \<Rightarrow> bool" where
  "router_ok mux \<longleftrightarrow> (\<forall>routes method path.
     distinct (map (fst \<circ> snd) routes) \<longrightarrow>
       mux routes method path = map_option (snd \<circ> snd) (find (route_matches method path) routes))"

fun endpoint :: "Health \<Rightarrow> write_op list \<Rightarrow> route_target \<Rightarrow> write_op list" where
  "endpoint h metrics LiveEndpoint = live h"
| "endpoint h metrics ReadyEndpoint = readiness h"
| "endpoint h metrics MetricsEndpoint = metrics"

text \<open>The router's own answers, for a path or a method that is not registered, are its parameter.\<close>

definition serve_health :: "router \<Rightarrow> write_op list \<Rightarrow> Health \<Rightarrow> write_op list option \<Rightarrow> string \<Rightarrow> string \<Rightarrow> write_op list" where
  "serve_health mux refuse h metrics method path =
     (case mux (Handler (metrics \<noteq> None)) method path of
        None \<Rightarrow> refuse
      | Some t \<Rightarrow> endpoint h (case metrics of None \<Rightarrow> [] | Some xs \<Rightarrow> xs) t)"

lemma writeHealth_response:
  assumes "200 \<le> status" "status \<le> 999"
  shows "http_respond (writeHealth status state) = Some \<lparr>
    rw_header = [(''Cache-Control'', ''no-store''), (''Content-Type'', ''application/json'')],
    rw_wroteHeader = True, rw_status = status,
    rw_sent = [(''Cache-Control'', ''no-store''), (''Content-Type'', ''application/json'')],
    rw_body = encode_status state\<rparr>"
  using assms
  by (simp add: http_respond_def writeHealth_def new_writer_def header_Set_def http_WriteHeader_def
      http_Write_def http_finish_def informational_def)

lemma serve_ready:
  assumes "router_ok mux"
  shows "serve_health mux refuse h metrics ''GET'' ''/health/ready'' = readiness h"
proof -
  have "mux (Handler b) ''GET'' ''/health/ready'' = Some ReadyEndpoint" for b
    using assms by (simp add: router_ok_def Handler_def route_matches_def)
  then show ?thesis by (simp add: serve_health_def)
qed

section \<open>The operational server\<close>

record Server =
  srv_Addr :: string
  srv_ReadHeaderTimeout :: int
  srv_shutdownGrace :: int

definition New_server :: "string \<Rightarrow> int \<Rightarrow> Server" where
  "New_server address shutdownGrace =
     \<lparr>srv_Addr = address, srv_ReadHeaderTimeout = 10 * 1000000000, srv_shutdownGrace = shutdownGrace\<rparr>"

text \<open>
  What \<^verbatim>\<open>http.Server.Serve\<close> returns is never nil: \<^verbatim>\<open>ErrServerClosed\<close> once \<^verbatim>\<open>Shutdown\<close> or \<^verbatim>\<open>Close\<close> was
  called, and the error of the listener before.
\<close>

datatype accept_error = ErrServerClosed | AcceptFailed string

datatype accept_state = NotStarted | Running | AcceptSent accept_error | AcceptTaken accept_error

datatype serve_phase =
    Listening
  | Selecting
  | Stopping
  | ShuttingDown
  | CloseAll string
  | CloseWait string
  | AcceptWait
  | ServeReturned "string option"

record http_state =
  hs_phase :: serve_phase
  hs_accept :: accept_state
  hs_ctx_done :: bool
  hs_stopped :: bool

definition serve_init :: http_state where
  "serve_init = \<lparr>hs_phase = Listening, hs_accept = NotStarted, hs_ctx_done = False, hs_stopped = False\<rparr>"

definition accept_result :: "accept_error \<Rightarrow> string option" where
  "accept_result err = (case err of
     ErrServerClosed \<Rightarrow> None
   | AcceptFailed m \<Rightarrow> Some (''serve operational HTTP: '' @ m))"

inductive http_step :: "http_state \<Rightarrow> http_state \<Rightarrow> bool" where
  listen_failed: "hs_phase s = Listening \<Longrightarrow>
    http_step s (s\<lparr>hs_phase := ServeReturned (Some (''listen on operational HTTP address: '' @ m))\<rparr>)"
| listening: "hs_phase s = Listening \<Longrightarrow> http_step s (s\<lparr>hs_phase := Selecting, hs_accept := Running\<rparr>)"
| accept_failed: "hs_accept s = Running \<Longrightarrow> \<not> hs_stopped s \<Longrightarrow>
    http_step s (s\<lparr>hs_accept := AcceptSent (AcceptFailed m)\<rparr>)"
| accept_closed: "hs_accept s = Running \<Longrightarrow> hs_stopped s \<Longrightarrow>
    http_step s (s\<lparr>hs_accept := AcceptSent ErrServerClosed\<rparr>)"
| select_result: "hs_phase s = Selecting \<Longrightarrow> hs_accept s = AcceptSent err \<Longrightarrow>
    http_step s (s\<lparr>hs_phase := ServeReturned (accept_result err), hs_accept := AcceptTaken err\<rparr>)"
| select_ctx: "hs_phase s = Selecting \<Longrightarrow> hs_ctx_done s \<Longrightarrow> http_step s (s\<lparr>hs_phase := Stopping\<rparr>)"
| shutdown_call: "hs_phase s = Stopping \<Longrightarrow> http_step s (s\<lparr>hs_phase := ShuttingDown, hs_stopped := True\<rparr>)"
| shutdown_failed: "hs_phase s = ShuttingDown \<Longrightarrow> http_step s (s\<lparr>hs_phase := CloseAll m\<rparr>)"
| shutdown_done: "hs_phase s = ShuttingDown \<Longrightarrow> http_step s (s\<lparr>hs_phase := AcceptWait\<rparr>)"
| close_all: "hs_phase s = CloseAll m \<Longrightarrow> http_step s (s\<lparr>hs_phase := CloseWait m\<rparr>)"
| close_wait: "hs_phase s = CloseWait m \<Longrightarrow> hs_accept s = AcceptSent err \<Longrightarrow>
    http_step s (s\<lparr>hs_phase := ServeReturned (Some (''shut down operational HTTP: '' @ m)), hs_accept := AcceptTaken err\<rparr>)"
| accept_wait: "hs_phase s = AcceptWait \<Longrightarrow> hs_accept s = AcceptSent err \<Longrightarrow>
    http_step s (s\<lparr>hs_phase := ServeReturned (accept_result err), hs_accept := AcceptTaken err\<rparr>)"

inductive http_any :: "http_state \<Rightarrow> http_state \<Rightarrow> bool" where
  http_own: "http_step s t \<Longrightarrow> http_any s t"
| http_cancel: "http_any s (s\<lparr>hs_ctx_done := True\<rparr>)"

inductive_cases http_stepE: "http_step s t"
inductive_cases http_anyE: "http_any s t"

text \<open>What holds between the phase, the accepting goroutine and the two flags.\<close>

definition serve_result_ok :: "http_state \<Rightarrow> string option \<Rightarrow> bool" where
  "serve_result_ok s r \<longleftrightarrow>
     (r = None \<and> hs_accept s = AcceptTaken ErrServerClosed \<and> hs_ctx_done s) \<or>
     (\<exists>m. r = Some (''listen on operational HTTP address: '' @ m) \<and> hs_accept s = NotStarted) \<or>
     (\<exists>m. r = Some (''serve operational HTTP: '' @ m) \<and> hs_accept s = AcceptTaken (AcceptFailed m)) \<or>
     (\<exists>m err. r = Some (''shut down operational HTTP: '' @ m) \<and> hs_accept s = AcceptTaken err \<and> hs_ctx_done s)"

definition serve_inv :: "http_state \<Rightarrow> bool" where
  "serve_inv s \<longleftrightarrow> (hs_stopped s \<longrightarrow> hs_ctx_done s) \<and>
     (hs_accept s = AcceptSent ErrServerClosed \<longrightarrow> hs_stopped s) \<and>
     (case hs_phase s of
        Listening \<Rightarrow> hs_accept s = NotStarted \<and> \<not> hs_stopped s
      | ServeReturned r \<Rightarrow> serve_result_ok s r
      | Selecting \<Rightarrow> (hs_accept s = Running \<or> (\<exists>err. hs_accept s = AcceptSent err)) \<and> \<not> hs_stopped s
      | Stopping \<Rightarrow> (hs_accept s = Running \<or> (\<exists>err. hs_accept s = AcceptSent err)) \<and> hs_ctx_done s \<and> \<not> hs_stopped s
      | _ \<Rightarrow> (hs_accept s = Running \<or> (\<exists>err. hs_accept s = AcceptSent err)) \<and> hs_stopped s)"

lemma serve_inv_step: "serve_inv s \<Longrightarrow> http_step s t \<Longrightarrow> serve_inv t"
  by (erule http_stepE)
     (auto simp: serve_inv_def serve_result_ok_def accept_result_def split: serve_phase.splits accept_error.splits)

lemma serve_inv_cancel: "serve_inv s \<Longrightarrow> serve_inv (s\<lparr>hs_ctx_done := True\<rparr>)"
  by (auto simp: serve_inv_def serve_result_ok_def split: serve_phase.splits)

interpretation serve_machine: inductive_invariant "\<lambda>s. s = serve_init" http_any serve_inv
proof unfold_locales
  fix s t
  show "s = serve_init \<Longrightarrow> serve_inv s" by (simp add: serve_init_def serve_inv_def)
  assume "serve_inv s" "http_any s t"
  then show "serve_inv t" by (elim http_anyE) (auto intro: serve_inv_step serve_inv_cancel)
qed

text \<open>The server cannot block for ever once it was told to stop: some step of its own is enabled.\<close>

lemma serve_progress:
  assumes "serve_inv s" "hs_ctx_done s" "\<And>r. hs_phase s \<noteq> ServeReturned r"
  shows "\<exists>t. http_step s t"
proof (cases "hs_phase s")
  case (CloseWait m)
  with assms show ?thesis by (auto simp: serve_inv_def intro: http_step.intros)
next
  case AcceptWait
  with assms show ?thesis by (auto simp: serve_inv_def intro: http_step.intros)
qed (use assms in \<open>auto intro: http_step.intros\<close>)

section \<open>Properties\<close>


text \<open>A server that is stopped after it has started to listen.\<close>

definition stopped_server :: http_state where
  "stopped_server = \<lparr>hs_phase = ServeReturned None, hs_accept = AcceptTaken ErrServerClosed, hs_ctx_done = True, hs_stopped = True\<rparr>"

lemma stopped_server_reached: "reach (\<lambda>s. s = serve_init) http_any stopped_server"
proof -
  have start: "reach (\<lambda>s. s = serve_init) http_any serve_init" by (rule reach_init) simp
  note r1 = reach_step [OF start http_own [OF listening], simplified serve_init_def, simplified]
  note r2 = reach_step [OF r1 http_cancel, simplified]
  note r3 = reach_step [OF r2 http_own [OF select_ctx], simplified]
  note r4 = reach_step [OF r3 http_own [OF shutdown_call], simplified]
  note r5 = reach_step [OF r4 http_own [OF accept_closed], simplified]
  note r6 = reach_step [OF r5 http_own [OF shutdown_done], simplified]
  note r7 = reach_step [OF r6 http_own [OF accept_wait], simplified]
  show ?thesis using r7 by (simp add: serve_init_def stopped_server_def accept_result_def)
qed


end
