(* ===== verification/Logging.thy ===== *)
theory Logging
  imports Go_Text
begin

text \<open>
  \<^verbatim>\<open>internal/observability/logging.go\<close>: the redacting handler in front of the JSON or text handler
  of \<^verbatim>\<open>log/slog\<close>.  A log line is modelled as the items it prints, each with the path of the groups
  around it; \<^const>\<open>None\<close> is a panic inside the logger.
\<close>

section \<open>slog\<close>

datatype slog_level = Level int

instantiation slog_level :: linorder
begin

definition less_eq_slog_level :: "slog_level \<Rightarrow> slog_level \<Rightarrow> bool" where
  "less_eq_slog_level a b = (case a of Level m \<Rightarrow> case b of Level n \<Rightarrow> m \<le> n)"

definition less_slog_level :: "slog_level \<Rightarrow> slog_level \<Rightarrow> bool" where
  "less_slog_level a b = (case a of Level m \<Rightarrow> case b of Level n \<Rightarrow> m < n)"

instance
  by standard (auto simp: less_eq_slog_level_def less_slog_level_def split: slog_level.splits)

end

definition LevelDebug :: slog_level where "LevelDebug = Level (- 4)"
definition LevelInfo :: slog_level where "LevelInfo = Level 0"
definition LevelWarn :: slog_level where "LevelWarn = Level 4"
definition LevelError :: slog_level where "LevelError = Level 8"

text \<open>What an attribute of kind Any holds; only nil and a level matter.\<close>

datatype any_value = NilAny | AnyLevel slog_level | AnyOther string

datatype slog_value =
    KString string
  | KInt64 int
  | KUint64 "64 word"
  | KFloat64 "64 word"
  | KBool bool
  | KDuration int
  | KTime int
  | KAny any_value
  | KGroup "(string \<times> slog_value) list"
  | Valuer slog_value

type_synonym attr = "string \<times> slog_value"

text \<open>
  \<^verbatim>\<open>Value.Resolve\<close> calls \<^verbatim>\<open>LogValue\<close> until the kind is not LogValuer, at most a hundred times.
\<close>

fun resolve_loop :: "nat \<Rightarrow> slog_value \<Rightarrow> slog_value" where
  "resolve_loop 0 v = KAny (AnyOther ''LogValue called too many times'')"
| "resolve_loop (Suc n) (Valuer v) = resolve_loop n v"
| "resolve_loop (Suc n) v = v"

definition Resolve :: "slog_value \<Rightarrow> slog_value" where
  "Resolve v = resolve_loop 100 v"

lemma resolve_loop_size: "size (resolve_loop n v) \<le> size v"
  by (induction n v rule: resolve_loop.induct) auto

lemma resolve_loop_kind: "resolve_loop n v \<noteq> Valuer w"
  by (induction n v rule: resolve_loop.induct) auto

lemma Resolve_size: "size (Resolve v) \<le> size v"
  by (simp add: Resolve_def resolve_loop_size)

lemma Resolve_kind [simp]: "Resolve v \<noteq> Valuer w"
  by (simp add: Resolve_def resolve_loop_kind)

lemma resolve_loop_fixed: "(\<And>w. v \<noteq> Valuer w) \<Longrightarrow> resolve_loop (Suc n) v = v"
  by (cases v) auto

lemma Resolve_fixed: "(\<And>w. v \<noteq> Valuer w) \<Longrightarrow> Resolve v = v"
  using resolve_loop_fixed [of v 99] by (simp add: Resolve_def)

lemma resolve_leaf [simp]:
  "Resolve (KString x) = KString x" "Resolve (KTime t) = KTime t" "Resolve (KAny y) = KAny y" "Resolve (KGroup as) = KGroup as"
  by (auto intro: Resolve_fixed)

lemma Resolve_idem [simp]: "Resolve (Resolve v) = Resolve v"
  by (rule Resolve_fixed) simp

section \<open>The allowlists\<close>

definition redactedValue :: string where
  "redactedValue = ''[REDACTED]''"

definition allowedEvents :: "string list" where
  "allowedEvents = [''http.request.completed'', ''service.stopped'', ''telemetry.shutdown.failed'']"

definition allowedAttributes :: "string list" where
  "allowedAttributes =
     [''service'', ''version'', ''event'', ''request_id'', ''trace_id'',
      ''organization_id'', ''operation'', ''route'', ''status'', ''duration_ms'',
      ''error_category'', ''error_code'', ''error_message'', ''dependency'', ''outcome'']"

definition forbiddenKeyParts :: "string list" where
  "forbiddenKeyParts =
     [''authorization'', ''cookie'', ''password'', ''credential'', ''secret'', ''api_key'', ''apikey'',
      ''prompt'', ''completion'', ''tool_argument'', ''tool_result'', ''request_body'', ''response_body'',
      ''upstream_body'', ''image'', ''audio'', ''token'']"

fun Contains :: "string \<Rightarrow> string \<Rightarrow> bool" where
  "Contains [] part = (part = [])"
| "Contains (c # s) part = (HasPrefix (c # s) part \<or> Contains s part)"

definition containsForbiddenKeyPart :: "string \<Rightarrow> bool" where
  "containsForbiddenKeyPart key = list_ex (Contains key) forbiddenKeyParts"

text \<open>
  \<^verbatim>\<open>strings.ToLower\<close>: bytewise on ASCII; the mapping of other strings, which rests on the Unicode
  tables, is the argument \<open>lower\<close>.
\<close>

definition lower_char :: "char \<Rightarrow> char" where
  "lower_char c = (if is_upper c then char_of (of_char c + 32 :: nat) else c)"

definition ToLower :: "(string \<Rightarrow> string) \<Rightarrow> string \<Rightarrow> string" where
  "ToLower lower s = (if list_all (\<lambda>c. (of_char c :: nat) < 128) s then map lower_char s else lower s)"

section \<open>Redaction\<close>

definition safeError_LogValue :: "string option \<Rightarrow> slog_value" where
  "safeError_LogValue err = (case err of None \<Rightarrow> KString [] | Some e \<Rightarrow> KString e)"

definition SafeError :: "string option \<Rightarrow> slog_value" where
  "SafeError err = Valuer (safeError_LogValue err)"

definition redactAttribute :: "(string \<Rightarrow> string) \<Rightarrow> attr \<Rightarrow> attr" where
  "redactAttribute lower a = (case a of (k, v0) \<Rightarrow>
     let v = Resolve v0; key = ToLower lower k
     in if key \<notin> set allowedAttributes \<or> containsForbiddenKeyPart key then (k, KString redactedValue)
        else case v of KAny x \<Rightarrow> (k, KString redactedValue) | _ \<Rightarrow> (k, v))"

text \<open>\<^verbatim>\<open>Value.Time\<close> panics on a value of another kind.\<close>

definition normalizeBuiltInAttribute :: "attr \<Rightarrow> attr option" where
  "normalizeBuiltInAttribute a = (case a of (k, v) \<Rightarrow>
     if k = ''time'' then (case v of KTime t \<Rightarrow> Some (''timestamp'', KTime t) | _ \<Rightarrow> None)
     else if k = ''level'' then Some (''severity'', v)
     else if k = ''msg'' then Some (''event'', v)
     else Some (k, v))"

section \<open>The standard handler behind it\<close>

type_synonym item = "string list \<times> string \<times> slog_value"

definition attr_isEmpty :: "attr \<Rightarrow> bool" where
  "attr_isEmpty a \<longleftrightarrow> a = ([], KAny NilAny)"

lemma Resolve_group_size: "Resolve v = KGroup attrs \<Longrightarrow> size_list (size_prod (\<lambda>_. 0) size) attrs < size v"
  using Resolve_size [of v] by (cases v) auto

text \<open>
  How the handler prints an attribute: the value is resolved, the replacement function runs on
  everything but groups, an empty attribute is dropped, and a group opens a level unless its key
  is empty.
\<close>

function (sequential) render :: "string list \<Rightarrow> string \<Rightarrow> slog_value \<Rightarrow> item list option"
  and renders :: "string list \<Rightarrow> attr list \<Rightarrow> item list option" where
  "render path k v =
     (case Resolve v of
        KGroup attrs \<Rightarrow> renders (if k = [] then path else path @ [k]) attrs
      | w \<Rightarrow> (case normalizeBuiltInAttribute (k, w) of
                None \<Rightarrow> None
              | Some (k', w') \<Rightarrow> Some (if attr_isEmpty (k', w') then [] else [(path, k', w')])))"
| "renders path [] = Some []"
| "renders path ((k, v) # attrs) =
     (case render path k v of
        None \<Rightarrow> None
      | Some xs \<Rightarrow> (case renders path attrs of None \<Rightarrow> None | Some ys \<Rightarrow> Some (xs @ ys)))"
  by pat_completeness auto
termination
  by (relation "measure (case_sum (\<lambda>(path, k, v). size v) (\<lambda>(path, attrs). size_list (size_prod (\<lambda>_. 0) size) attrs))")
     (auto dest: Resolve_group_size)

declare render.simps [simp del]

datatype log_format = JSONFormat | TextFormat

record sink =
  sk_format :: log_format
  sk_level :: slog_level
  sk_groups :: "string list"
  sk_pre :: "item list"

record log_record =
  lr_time :: "int option"
  lr_level :: slog_level
  lr_message :: string
  lr_attrs :: "attr list"

definition sink_WithAttrs :: "attr list \<Rightarrow> sink \<Rightarrow> sink option" where
  "sink_WithAttrs attrs sk =
     map_option (\<lambda>xs. sk\<lparr>sk_pre := sk_pre sk @ xs\<rparr>) (renders (sk_groups sk) attrs)"

definition sink_WithGroup :: "string \<Rightarrow> sink \<Rightarrow> sink" where
  "sink_WithGroup name sk = sk\<lparr>sk_groups := sk_groups sk @ [name]\<rparr>"

definition builtins :: "log_record \<Rightarrow> attr list" where
  "builtins r = (case lr_time r of None \<Rightarrow> [] | Some t \<Rightarrow> [(''time'', KTime t)]) @
     [(''level'', KAny (AnyLevel (lr_level r))), (''msg'', KString (lr_message r))]"

definition sink_Handle :: "sink \<Rightarrow> log_record \<Rightarrow> item list option" where
  "sink_Handle sk r =
     (case renders [] (builtins r) of
        None \<Rightarrow> None
      | Some xs \<Rightarrow> map_option (\<lambda>ys. xs @ sk_pre sk @ ys) (renders (sk_groups sk) (lr_attrs r)))"

section \<open>The redacting handler\<close>

record redactingHandler =
  rh_next :: sink

definition Enabled :: "redactingHandler \<Rightarrow> slog_level \<Rightarrow> bool" where
  "Enabled h level \<longleftrightarrow> sk_level (rh_next h) \<le> level"

definition redact_record :: "(string \<Rightarrow> string) \<Rightarrow> log_record \<Rightarrow> log_record" where
  "redact_record lower r = r\<lparr>
     lr_message := (if lr_message r \<in> set allowedEvents then lr_message r else redactedValue),
     lr_attrs := map (redactAttribute lower) (lr_attrs r)\<rparr>"

definition Handle :: "(string \<Rightarrow> string) \<Rightarrow> redactingHandler \<Rightarrow> log_record \<Rightarrow> item list option" where
  "Handle lower h r = sink_Handle (rh_next h) (redact_record lower r)"

definition WithAttrs :: "(string \<Rightarrow> string) \<Rightarrow> attr list \<Rightarrow> redactingHandler \<Rightarrow> redactingHandler option" where
  "WithAttrs lower attrs h =
     map_option (\<lambda>sk. \<lparr>rh_next = sk\<rparr>) (sink_WithAttrs (map (redactAttribute lower) attrs) (rh_next h))"

definition WithGroup :: "string \<Rightarrow> redactingHandler \<Rightarrow> redactingHandler" where
  "WithGroup name h = \<lparr>rh_next = sink_WithGroup name (rh_next h)\<rparr>"

definition level_of :: "string \<Rightarrow> slog_level option" where
  "level_of level =
     (if level = ''debug'' then Some LevelDebug
      else if level = ''info'' then Some LevelInfo
      else if level = ''warn'' then Some LevelWarn
      else if level = ''error'' then Some LevelError
      else None)"

definition format_of :: "string \<Rightarrow> log_format option" where
  "format_of f =
     (if f = ''json'' then Some JSONFormat else if f = ''text'' then Some TextFormat else None)"

text \<open>A logger, or the error; the inner \<^const>\<open>None\<close> would be a panic of \<^verbatim>\<open>With\<close>.\<close>

definition newLogger :: "(string \<Rightarrow> string) \<Rightarrow> string \<Rightarrow> string \<Rightarrow> string \<Rightarrow> string \<Rightarrow> string + redactingHandler option" where
  "newLogger lower service version level f =
     (case level_of level of
        None \<Rightarrow> Inl ''unsupported log level''
      | Some minimum \<Rightarrow> (case format_of f of
          None \<Rightarrow> Inl ''unsupported log format''
        | Some fmt \<Rightarrow> Inr (WithAttrs lower [(''service'', KString service), (''version'', KString version)]
            \<lparr>rh_next = \<lparr>sk_format = fmt, sk_level = minimum, sk_groups = [], sk_pre = []\<rparr>\<rparr>)))"

text \<open>\<^verbatim>\<open>Logger.Log\<close>: a record below the minimum level prints nothing.\<close>

definition Log :: "(string \<Rightarrow> string) \<Rightarrow> redactingHandler \<Rightarrow> log_record \<Rightarrow> item list option" where
  "Log lower h r = (if Enabled h (lr_level r) then Handle lower h r else Some [])"

section \<open>What redaction lets through\<close>

definition scalar :: "slog_value \<Rightarrow> bool" where
  "scalar v \<longleftrightarrow> (case v of KAny x \<Rightarrow> False | KGroup attrs \<Rightarrow> False | Valuer w \<Rightarrow> False | _ \<Rightarrow> True)"

definition flat_attr :: "(string \<Rightarrow> string) \<Rightarrow> attr \<Rightarrow> bool" where
  "flat_attr lower a \<longleftrightarrow> (case a of (k, v) \<Rightarrow>
     ToLower lower k \<in> set allowedAttributes \<longrightarrow> (case Resolve v of KGroup attrs \<Rightarrow> False | _ \<Rightarrow> True))"

text \<open>What may be printed of an attribute: the placeholder, or a scalar under an allowed key.\<close>

definition printed_safe :: "(string \<Rightarrow> string) \<Rightarrow> item \<Rightarrow> bool" where
  "printed_safe lower x \<longleftrightarrow> (case x of (path, k, v) \<Rightarrow>
     v = KString redactedValue \<or> (ToLower lower k \<in> set allowedAttributes \<and> scalar v))"

definition line_safe :: "(string \<Rightarrow> string) \<Rightarrow> item \<Rightarrow> bool" where
  "line_safe lower x \<longleftrightarrow> printed_safe lower x \<or> (case x of (path, k, v) \<Rightarrow>
     path = [] \<and> (k = ''timestamp'' \<or> k = ''severity'' \<or> (k = ''event'' \<and> v \<in> KString ` set allowedEvents)))"

lemma allowed_not_forbidden:
  assumes "key \<in> set allowedAttributes"
  shows "\<not> containsForbiddenKeyPart key"
proof -
  have "list_all (\<lambda>key. \<not> containsForbiddenKeyPart key) allowedAttributes" by code_simp
  with assms show ?thesis by (simp add: list_all_iff)
qed

lemma reserved_not_allowed:
  "ToLower lower ''time'' \<notin> set allowedAttributes" "ToLower lower ''level'' \<notin> set allowedAttributes"
  "ToLower lower ''msg'' \<notin> set allowedAttributes"
  by code_simp+

lemma used_keys_allowed:
  "ToLower lower ''service'' \<in> set allowedAttributes" "ToLower lower ''version'' \<in> set allowedAttributes"
  "ToLower lower ''error_message'' \<in> set allowedAttributes"
  by code_simp+

lemma redactAttribute_cases:
  "redactAttribute lower (k, v) =
     (k, if ToLower lower k \<in> set allowedAttributes \<and> (\<forall>x. Resolve v \<noteq> KAny x) then Resolve v else KString redactedValue)"
  using allowed_not_forbidden [of "ToLower lower k"]
  by (auto simp: redactAttribute_def Let_def split: slog_value.split)

lemma redactAttribute_flat:
  assumes "flat_attr lower (k, v)"
  obtains w where "redactAttribute lower (k, v) = (k, w)" "scalar w"
    "w = KString redactedValue \<or> ToLower lower k \<in> set allowedAttributes"
proof
  show "redactAttribute lower (k, v) = (k, snd (redactAttribute lower (k, v)))" by (simp add: redactAttribute_cases)
  show "scalar (snd (redactAttribute lower (k, v)))"
    using assms Resolve_kind [of v]
    by (cases "Resolve v") (auto simp: redactAttribute_cases flat_attr_def scalar_def)
  show "snd (redactAttribute lower (k, v)) = KString redactedValue \<or> ToLower lower k \<in> set allowedAttributes"
    by (simp add: redactAttribute_cases)
qed

lemma render_scalar:
  assumes "scalar w"
  shows "render path k w =
     (case normalizeBuiltInAttribute (k, w) of None \<Rightarrow> None | Some (k', w') \<Rightarrow> Some [(path, k', w')])"
proof -
  have "Resolve w = w" using assms by (intro Resolve_fixed) (auto simp: scalar_def)
  moreover have "\<not> attr_isEmpty (k', w')" if "normalizeBuiltInAttribute (k, w) = Some (k', w')" for k' w'
    using that assms
    by (auto simp: attr_isEmpty_def normalizeBuiltInAttribute_def scalar_def split: if_splits slog_value.splits)
  ultimately show ?thesis using assms
    by (cases w) (auto simp: scalar_def render.simps split: option.split prod.split)
qed

lemma render_redacted:
  assumes "flat_attr lower (k, v)"
  shows "(if k = ''time'' then render path k (snd (redactAttribute lower (k, v))) = None
     else \<exists>x. render path k (snd (redactAttribute lower (k, v))) = Some [x] \<and> printed_safe lower x)"
proof -
  obtain w where w: "redactAttribute lower (k, v) = (k, w)" "scalar w"
    "w = KString redactedValue \<or> ToLower lower k \<in> set allowedAttributes"
    using redactAttribute_flat [OF assms] .
  note r = reserved_not_allowed [of lower]
  show ?thesis
  proof (cases "k = ''time'' \<or> k = ''level'' \<or> k = ''msg''")
    case True
    then have "w = KString redactedValue" using w(3) r by auto
    with True show ?thesis unfolding w(1) snd_conv render_scalar [OF w(2)]
      by (auto simp: normalizeBuiltInAttribute_def printed_safe_def)
  next
    case False
    then show ?thesis unfolding w(1) snd_conv render_scalar [OF w(2)] using w(2,3)
      by (auto simp: normalizeBuiltInAttribute_def printed_safe_def)
  qed
qed

lemma renders_redacted:
  assumes "\<forall>a\<in>set attrs. flat_attr lower a"
  shows "(if ''time'' \<in> fst ` set attrs then renders path (map (redactAttribute lower) attrs) = None
     else \<exists>xs. renders path (map (redactAttribute lower) attrs) = Some xs \<and> list_all (printed_safe lower) xs)"
  using assms
proof (induction attrs)
  case (Cons a attrs)
  obtain k v where a: "a = (k, v)" by (cases a)
  have red: "redactAttribute lower (k, v) = (k, snd (redactAttribute lower (k, v)))" by (simp add: redactAttribute_cases)
  have "flat_attr lower (k, v)" using Cons.prems a by simp
  note head = render_redacted [OF this, of path]
  have step: "renders path (map (redactAttribute lower) (a # attrs)) =
    (case render path k (snd (redactAttribute lower (k, v))) of None \<Rightarrow> None
     | Some xs \<Rightarrow> case renders path (map (redactAttribute lower) attrs) of None \<Rightarrow> None | Some ys \<Rightarrow> Some (xs @ ys))"
    unfolding a list.map by (subst red) (rule renders.simps)
  show ?case
  proof (cases "k = ''time''")
    case True
    with head a show ?thesis unfolding step by simp
  next
    case False
    with head obtain x where "render path k (snd (redactAttribute lower (k, v))) = Some [x]" "printed_safe lower x" by auto
    with Cons False a show ?thesis unfolding step by (auto split: if_splits)
  qed
qed simp

lemma renders_builtins:
  "renders [] (builtins (redact_record lower r)) = Some
     ((case lr_time r of None \<Rightarrow> [] | Some t \<Rightarrow> [([], ''timestamp'', KTime t)]) @
      [([], ''severity'', KAny (AnyLevel (lr_level r))), ([], ''event'', KString (lr_message (redact_record lower r)))])"
proof -
  have "render [] ''time'' (KTime t) = Some [([], ''timestamp'', KTime t)]"
    "render [] ''level'' (KAny (AnyLevel l)) = Some [([], ''severity'', KAny (AnyLevel l))]"
    "render [] ''msg'' (KString m) = Some [([], ''event'', KString m)]" for t l m
    unfolding render.simps resolve_leaf by (simp_all add: normalizeBuiltInAttribute_def attr_isEmpty_def)
  then show ?thesis by (simp add: builtins_def redact_record_def split: option.split)
qed

lemma builtins_safe: "renders [] (builtins (redact_record lower r)) = Some xs \<Longrightarrow> list_all (line_safe lower) xs"
  unfolding renders_builtins
  by (auto simp: line_safe_def printed_safe_def redact_record_def split: option.splits)

text \<open>Every logger of a process: the one \<^verbatim>\<open>newLogger\<close> returns, and what is derived from it.\<close>

inductive logger :: "(string \<Rightarrow> string) \<Rightarrow> redactingHandler \<Rightarrow> bool" for lower where
  logger_new: "newLogger lower service version level f = Inr (Some h) \<Longrightarrow> logger lower h"
| logger_with: "logger lower h \<Longrightarrow> \<forall>a\<in>set attrs. flat_attr lower a \<Longrightarrow> WithAttrs lower attrs h = Some h' \<Longrightarrow> logger lower h'"
| logger_group: "logger lower h \<Longrightarrow> logger lower (WithGroup name h)"

lemma WithAttrs_safe:
  assumes "list_all (printed_safe lower) (sk_pre (rh_next h))" "\<forall>a\<in>set attrs. flat_attr lower a"
    "WithAttrs lower attrs h = Some h'"
  shows "list_all (printed_safe lower) (sk_pre (rh_next h'))"
  using assms renders_redacted [OF assms(2), of "sk_groups (rh_next h)"]
  by (auto simp: WithAttrs_def sink_WithAttrs_def split: if_splits)

lemma flat_string: "flat_attr lower (k, KString v)"
  using Resolve_fixed [of "KString v"] by (simp add: flat_attr_def)

lemma newLogger_safe:
  assumes "newLogger lower service version level f = Inr (Some h)"
  shows "list_all (printed_safe lower) (sk_pre (rh_next h))"
proof -
  obtain minimum fmt where "WithAttrs lower [(''service'', KString service), (''version'', KString version)]
      \<lparr>rh_next = \<lparr>sk_format = fmt, sk_level = minimum, sk_groups = [], sk_pre = []\<rparr>\<rparr> = Some h"
    using assms unfolding newLogger_def by (cases "level_of level"; cases "format_of f") simp_all
  then show ?thesis by (rule WithAttrs_safe [rotated 2]) (simp_all add: flat_string)
qed

lemma logger_safe: "logger lower h \<Longrightarrow> list_all (printed_safe lower) (sk_pre (rh_next h))"
  by (induction rule: logger.induct)
     (auto intro: newLogger_safe WithAttrs_safe simp: WithGroup_def sink_WithGroup_def)

lemma newLogger_total:
  "newLogger lower service version level f =
     (if level \<notin> {''debug'', ''info'', ''warn'', ''error''} then Inl ''unsupported log level''
      else if f \<notin> {''json'', ''text''} then Inl ''unsupported log format''
      else Inr (WithAttrs lower [(''service'', KString service), (''version'', KString version)]
        \<lparr>rh_next = \<lparr>sk_format = the (format_of f), sk_level = the (level_of level), sk_groups = [], sk_pre = []\<rparr>\<rparr>))"
  unfolding newLogger_def level_of_def format_of_def by simp

text \<open>A new logger never panics, and prints its service and version in front of every record.\<close>

lemma renders_allowed:
  assumes "list_all (\<lambda>(k, v). ToLower lower k \<in> set allowedAttributes) attrs"
  shows "renders path (map (redactAttribute lower) (map (\<lambda>(k, v). (k, KString v)) attrs)) =
    Some (map (\<lambda>(k, v). (path, k, KString v)) attrs)"
  using assms
proof (induction attrs)
  case (Cons a attrs)
  obtain k v where a: "a = (k, v)" by (cases a)
  have k: "k \<notin> {''time'', ''level'', ''msg''}" using Cons.prems a reserved_not_allowed [of lower] by auto
  have "render path k (KString v) = Some [(path, k, KString v)]"
    using k by (simp add: render_scalar scalar_def normalizeBuiltInAttribute_def)
  moreover have "redactAttribute lower (k, KString v) = (k, KString v)"
    using Cons.prems a Resolve_fixed [of "KString v"] by (simp add: redactAttribute_cases)
  ultimately show ?case using Cons a by simp
qed simp

lemma newLogger_new:
  "newLogger lower service version level f = Inr r \<Longrightarrow> \<exists>h. r = Some h \<and> rh_next h = \<lparr>sk_format = the (format_of f), sk_level = the (level_of level),
     sk_groups = [], sk_pre = [([], ''service'', KString service), ([], ''version'', KString version)]\<rparr>"
proof -
  assume new: "newLogger lower service version level f = Inr r"
  have allowed: "list_all (\<lambda>(k, v). ToLower lower k \<in> set allowedAttributes) [(''service'', service), (''version'', version)]"
    by (simp add: used_keys_allowed)
  show ?thesis using new renders_allowed [OF allowed, of "[]"]
    by (auto simp: newLogger_total WithAttrs_def sink_WithAttrs_def split: if_splits)
qed

lemma Handle_parts:
  "Handle lower h r = map_option (\<lambda>ys. the (renders [] (builtins (redact_record lower r))) @ sk_pre (rh_next h) @ ys)
     (renders (sk_groups (rh_next h)) (map (redactAttribute lower) (lr_attrs r)))"
  unfolding Handle_def sink_Handle_def renders_builtins by (simp add: redact_record_def)

lemma Log_none:
  assumes "\<forall>a\<in>set (lr_attrs r). flat_attr lower a"
  shows "Log lower h r = None \<longleftrightarrow> Enabled h (lr_level r) \<and> ''time'' \<in> fst ` set (lr_attrs r)"
  using renders_redacted [OF assms, of "sk_groups (rh_next h)"]
  by (auto simp: Log_def Handle_parts split: if_splits)

section \<open>Properties\<close>


text \<open>The logger of the gateway, and a record that carries a password and an allowed route.\<close>

definition gateway_logger :: redactingHandler where
  "gateway_logger = the (projr (newLogger (\<lambda>s. s) ''gateway'' ''1.0'' ''info'' ''json''))"

definition careless_record :: log_record where
  "careless_record = \<lparr>lr_time = Some 1, lr_level = LevelError, lr_message = ''login for hunter2'',
     lr_attrs = [(''password'', KString ''hunter2''), (''route'', KString ''health.live''),
       (''error_message'', SafeError (Some ''boom''))]\<rparr>"

lemma gateway_logger_new: "newLogger (\<lambda>s. s) ''gateway'' ''1.0'' ''info'' ''json'' = Inr (Some gateway_logger)"
  by code_simp





end
