(* ===== verification/Telemetry.thy ===== *)
theory Telemetry
  imports Http_Server Logging Config_Parts
begin

text \<open>
  \<^verbatim>\<open>internal/observability/observability.go\<close> and \<^verbatim>\<open>http.go\<close>: the telemetry runtime of a process, its
  metrics, and the middleware around every request.  A metric is the map from label values to
  what was recorded under them; the OTLP exporter, the trace resource and the span identifiers
  come from libraries and are arguments.
\<close>

section \<open>Bounded labels\<close>

definition boundedRoute :: "string \<Rightarrow> string \<Rightarrow> string" where
  "boundedRoute method path =
     (if method = ''GET'' \<and> path = ''/health/live'' then ''health.live''
      else if method = ''GET'' \<and> path = ''/health/ready'' then ''health.ready''
      else if method = ''GET'' \<and> path = ''/metrics'' then ''metrics''
      else ''unknown'')"

definition boundedMethod :: "string \<Rightarrow> string" where
  "boundedMethod method =
     (if method \<in> set [''GET'', ''HEAD'', ''POST'', ''PUT'', ''PATCH'', ''DELETE'', ''OPTIONS''] then method else ''OTHER'')"

definition boundedStatus :: "int \<Rightarrow> string" where
  "boundedStatus status =
     (if status < 100 \<or> 599 < status then ''unknown'' else FormatInt (status div 100) @ ''xx'')"

definition boundedDependency :: "string \<Rightarrow> string" where
  "boundedDependency name = (if name = ''postgresql'' \<or> name = ''redis'' then name else ''unknown'')"

section \<open>The runtime\<close>

text \<open>
  The instruments that are registered, with their label names, and what they have recorded; the
  two collectors of the Go runtime and the process are the library's.
\<close>

record metrics =
  mt_registered :: "(string \<times> string list) list"
  mt_const_labels :: "(string \<times> string) list"
  mt_requests :: "string \<times> string \<rightharpoonup> nat"
  mt_latency :: "string \<rightharpoonup> int list"
  mt_dependency :: "string \<times> string \<rightharpoonup> int list"
  mt_dependency_ready :: "string \<rightharpoonup> int"
  mt_service_ready :: int

text \<open>
  What the trace libraries are given: the endpoint of the exporter with the settings of its HTTP
  client, and the attributes of the resource.  A tracer is the no-op one or one of a provider,
  under the instrumentation name.
\<close>

definition instrumentationName :: string where
  "instrumentationName = ''github.com/PrakashSewani/NexusRelay/internal/observability''"

record exporter_options =
  eo_Endpoint :: URL
  eo_Headers :: "(string \<times> string) list"
  eo_Timeout :: int
  eo_ForceAttemptHTTP2 :: bool
  eo_MaxIdleConns :: int
  eo_IdleConnTimeout :: int
  eo_TLSHandshakeTimeout :: int
  eo_ResponseHeaderTimeout :: int

datatype tracer =
    NoopTracer string
  | ProviderTracer exporter_options "(string \<times> string) list" string

record Runtime =
  rt_logger :: redactingHandler
  rt_metrics :: "metrics option"
  rt_tracer :: tracer

text \<open>\<^verbatim>\<open>r.provider != nil\<close>.\<close>

definition rt_provider :: "Runtime \<Rightarrow> bool" where
  "rt_provider r = (case rt_tracer r of NoopTracer name \<Rightarrow> False | ProviderTracer exporter resource name \<Rightarrow> True)"

definition configureMetrics :: "string \<Rightarrow> string \<Rightarrow> metrics" where
  "configureMetrics service version =
     \<lparr>mt_registered = [(''nexusrelay_http_requests_total'', [''route'', ''status'']),
        (''nexusrelay_http_request_duration_seconds'', [''route'']),
        (''nexusrelay_dependency_probe_duration_seconds'', [''dependency'', ''outcome'']),
        (''nexusrelay_dependency_ready'', [''dependency'']), (''nexusrelay_service_ready'', [])],
      mt_const_labels = [(''service'', service), (''version'', version)], mt_requests = Map.empty,
      mt_latency = Map.empty, mt_dependency = Map.empty, mt_dependency_ready = Map.empty, mt_service_ready = 0\<rparr>"

definition exporter_for :: "URL \<Rightarrow> exporter_options" where
  "exporter_for target = \<lparr>eo_Endpoint = target, eo_Headers = [], eo_Timeout = 10 * Second, eo_ForceAttemptHTTP2 = True,
     eo_MaxIdleConns = 10, eo_IdleConnTimeout = 30 * Second, eo_TLSHandshakeTimeout = 5 * Second,
     eo_ResponseHeaderTimeout = 5 * Second\<rparr>"

text \<open>
  The exporter and the resource are made by the libraries: \<open>exporter_err\<close> and \<open>resource_err\<close> are the
  errors of their constructors.  The inner \<^const>\<open>None\<close> is the nil dereference of a missing endpoint,
  which an accepted configuration excludes (\<open>parsed_endpoint\<close>).
\<close>

definition configureTracing :: "string \<Rightarrow> string \<Rightarrow> Observability \<Rightarrow> (exporter_options \<Rightarrow> string option) \<Rightarrow>
    ((string \<times> string) list \<Rightarrow> string option) \<Rightarrow> string + tracer option" where
  "configureTracing service version settings exporter_err resource_err =
     (if \<not> obs_OTel settings then Inr (Some (NoopTracer instrumentationName))
      else case obs_OTLPEndpoint settings of
        None \<Rightarrow> Inr None
      | Some target \<Rightarrow>
          (let exporter = exporter_for target; attributes = [(''service.name'', service), (''service.version'', version)]
           in case exporter_err exporter of
                Some e \<Rightarrow> Inl (''configure OTLP/HTTP trace exporter: '' @ e)
              | None \<Rightarrow> (case resource_err attributes of
                  Some e \<Rightarrow> Inl (''configure trace resource: '' @ e)
                | None \<Rightarrow> Inr (Some (ProviderTracer exporter attributes instrumentationName)))))"

text \<open>\<^verbatim>\<open>InstallBootstrapLogger\<close> installs a logger with fixed level and format.\<close>

definition InstallBootstrapLogger :: "(string \<Rightarrow> string) \<Rightarrow> string \<Rightarrow> redactingHandler option" where
  "InstallBootstrapLogger lower service =
     (case newLogger lower service ''unknown'' ''info'' ''json'' of Inl e \<Rightarrow> None | Inr h \<Rightarrow> h)"

text \<open>The inner \<^const>\<open>None\<close> is a panic, which does not happen for an accepted configuration (\<open>New_never_panics\<close>).\<close>

definition New_runtime :: "(string \<Rightarrow> string) \<Rightarrow> string \<Rightarrow> string \<Rightarrow> Observability \<Rightarrow> (exporter_options \<Rightarrow> string option) \<Rightarrow>
    ((string \<times> string) list \<Rightarrow> string option) \<Rightarrow> string + Runtime option" where
  "New_runtime lower service version settings exporter_err resource_err =
     (case newLogger lower service version (obs_LogLevel settings) (obs_LogFormat settings) of
        Inl e \<Rightarrow> Inl e
      | Inr None \<Rightarrow> Inr None
      | Inr (Some lg) \<Rightarrow>
          (case configureTracing service version settings exporter_err resource_err of
             Inl e \<Rightarrow> Inl e
           | Inr t \<Rightarrow> Inr (map_option (\<lambda>t. \<lparr>rt_logger = lg,
                 rt_metrics = (if obs_Metrics settings then Some (configureMetrics service version) else None),
                 rt_tracer = t\<rparr>) t)))"

lemma parsed_endpoint: "parseObservability v = Inr settings \<Longrightarrow> obs_OTel settings \<Longrightarrow> obs_OTLPEndpoint settings \<noteq> None"
  by (auto simp: parseObservability_def result_simps)

lemma New_never_panics:
  assumes "parseObservability v = Inr settings"
  shows "New_runtime lower service version settings exporter_err resource_err \<noteq> Inr None"
  using parsed_endpoint [OF assms] newLogger_new [of lower service version "obs_LogLevel settings" "obs_LogFormat settings"]
  by (fastforce simp: New_runtime_def configureTracing_def Let_def split: sum.splits option.splits if_splits)

definition Logger :: "Runtime \<Rightarrow> redactingHandler" where
  "Logger r = rt_logger r"

definition MetricsHandler :: "Runtime \<Rightarrow> metrics option" where
  "MetricsHandler r = rt_metrics r"

definition Runtime_SetReady :: "bool \<Rightarrow> Runtime \<Rightarrow> Runtime" where
  "Runtime_SetReady ready r = r\<lparr>rt_metrics := map_option (\<lambda>m. m\<lparr>mt_service_ready := (if ready then 1 else 0)\<rparr>) (rt_metrics r)\<rparr>"

text \<open>\<^verbatim>\<open>WithLabelValues(...).Observe\<close>: a series is created on first use.\<close>

definition observe :: "('k \<rightharpoonup> int list) \<Rightarrow> 'k \<Rightarrow> int \<Rightarrow> ('k \<rightharpoonup> int list)" where
  "observe series k x = series(k \<mapsto> (case series k of None \<Rightarrow> [] | Some xs \<Rightarrow> xs) @ [x])"

definition incr :: "('k \<rightharpoonup> nat) \<Rightarrow> 'k \<Rightarrow> ('k \<rightharpoonup> nat)" where
  "incr series k = series(k \<mapsto> (case series k of None \<Rightarrow> 0 | Some n \<Rightarrow> n) + 1)"

definition ObserveDependency :: "string \<Rightarrow> int \<Rightarrow> string option \<Rightarrow> Runtime \<Rightarrow> Runtime" where
  "ObserveDependency name elapsed err r = r\<lparr>rt_metrics := map_option (\<lambda>m.
     m\<lparr>mt_dependency := observe (mt_dependency m) (boundedDependency name, if err \<noteq> None then ''failure'' else ''success'') elapsed,
       mt_dependency_ready := (mt_dependency_ready m)(boundedDependency name \<mapsto> if err \<noteq> None then 0 else 1)\<rparr>) (rt_metrics r)\<rparr>"

definition Shutdown_runtime :: "Runtime \<Rightarrow> string option \<Rightarrow> string option" where
  "Shutdown_runtime r provider_err =
     (if \<not> rt_provider r then None
      else case provider_err of None \<Rightarrow> None | Some e \<Rightarrow> Some (''shut down trace provider: '' @ e))"

section \<open>The status writer\<close>

record statusWriter =
  sw_writer :: response_writer
  sw_status :: int
  sw_wroteHeader :: bool

definition sw_WriteHeader :: "int \<Rightarrow> statusWriter \<Rightarrow> statusWriter option" where
  "sw_WriteHeader status w =
     (if sw_wroteHeader w then Some w
      else map_option (\<lambda>inner. w\<lparr>sw_writer := inner, sw_wroteHeader := True, sw_status := status\<rparr>)
        (http_WriteHeader status (sw_writer w)))"

definition sw_Write :: "string \<Rightarrow> statusWriter \<Rightarrow> statusWriter option" where
  "sw_Write body w =
     (case (if \<not> sw_wroteHeader w then sw_WriteHeader StatusOK w else Some w) of
        None \<Rightarrow> None
      | Some w \<Rightarrow> map_option (\<lambda>inner. w\<lparr>sw_writer := inner\<rparr>) (http_Write body (sw_writer w)))"

definition Unwrap :: "statusWriter \<Rightarrow> response_writer" where
  "Unwrap w = sw_writer w"

fun sw_op :: "write_op \<Rightarrow> statusWriter \<Rightarrow> statusWriter option" where
  "sw_op (SetHeader k v) w = map_option (\<lambda>inner. w\<lparr>sw_writer := inner\<rparr>) (http_op (SetHeader k v) (sw_writer w))"
| "sw_op (WriteHeader status) w = sw_WriteHeader status w"
| "sw_op (WriteBody body) w = sw_Write body w"

fun sw_ops :: "write_op list \<Rightarrow> statusWriter \<Rightarrow> statusWriter option" where
  "sw_ops [] w = Some w"
| "sw_ops (x # xs) w = (case sw_op x w of None \<Rightarrow> None | Some w' \<Rightarrow> sw_ops xs w')"

definition new_statusWriter :: statusWriter where
  "new_statusWriter = \<lparr>sw_writer = new_writer, sw_status = StatusOK, sw_wroteHeader = False\<rparr>"

section \<open>The middleware\<close>

record span =
  span_name :: string
  span_method :: string
  span_status :: int
  span_error :: bool

record served =
  sv_response :: response_writer
  sv_span :: span
  sv_line :: "item list"
  sv_runtime :: Runtime

definition Milliseconds :: "int \<Rightarrow> int" where
  "Milliseconds d = (if d < 0 then - (- d div 1000000) else d div 1000000)"

definition record_request :: "string \<Rightarrow> string \<Rightarrow> int \<Rightarrow> Runtime \<Rightarrow> Runtime" where
  "record_request route status elapsed r = r\<lparr>rt_metrics := map_option (\<lambda>m.
     m\<lparr>mt_requests := incr (mt_requests m) (route, status), mt_latency := observe (mt_latency m) route elapsed\<rparr>) (rt_metrics r)\<rparr>"

definition request_record :: "int option \<Rightarrow> string \<Rightarrow> int \<Rightarrow> int \<Rightarrow> string option \<Rightarrow> log_record" where
  "request_record now route status elapsed trace_id =
     \<lparr>lr_time = now, lr_level = LevelInfo, lr_message = ''http.request.completed'',
      lr_attrs = [(''route'', KString route), (''status'', KInt64 status), (''duration_ms'', KInt64 (Milliseconds elapsed))] @
        (case trace_id of None \<Rightarrow> [] | Some t \<Rightarrow> [(''trace_id'', KString t)])\<rparr>"

text \<open>
  \<^const>\<open>None\<close> when the handler or the logger panics.  \<open>trace_id\<close> is the identifier of a valid span
  context, \<open>xs\<close> what the wrapped handler writes.
\<close>

definition HTTPMiddleware :: "(string \<Rightarrow> string) \<Rightarrow> Runtime \<Rightarrow> int option \<Rightarrow> string \<Rightarrow> string \<Rightarrow> string option \<Rightarrow> int \<Rightarrow>
    write_op list \<Rightarrow> served option" where
  "HTTPMiddleware lower r now method path trace_id elapsed xs =
     (let route = boundedRoute method path
      in case sw_ops xs new_statusWriter of
           None \<Rightarrow> None
         | Some w \<Rightarrow>
             (case Log lower (rt_logger r) (request_record now route (sw_status w) elapsed trace_id) of
                None \<Rightarrow> None
              | Some line \<Rightarrow>
                  map_option (\<lambda>response. \<lparr>sv_response = response,
                    sv_span = \<lparr>span_name = route, span_method = boundedMethod method, span_status = sw_status w,
                      span_error = (StatusInternalServerError \<le> sw_status w)\<rparr>,
                    sv_line = line,
                    sv_runtime = record_request route (boundedStatus (sw_status w)) elapsed r\<rparr>)
                  (http_finish (sw_writer w))))"

section \<open>The wrapper and the writer it wraps\<close>

definition final_op :: "write_op \<Rightarrow> bool" where
  "final_op x \<longleftrightarrow> (case x of WriteHeader status \<Rightarrow> \<not> informational status | _ \<Rightarrow> True)"

definition wraps :: "statusWriter \<Rightarrow> response_writer \<Rightarrow> bool" where
  "wraps w inner \<longleftrightarrow> sw_writer w = inner \<and> sw_wroteHeader w = rw_wroteHeader inner \<and>
     sw_status w = (if rw_wroteHeader inner then rw_status inner else StatusOK)"

lemma wraps_new: "wraps new_statusWriter new_writer"
  by (simp add: wraps_def new_statusWriter_def new_writer_def)

lemma wraps_op:
  assumes "wraps w inner" "final_op x"
  shows "rel_option wraps (sw_op x w) (http_op x inner)"
proof (cases x)
  case (SetHeader k v)
  with assms show ?thesis by (simp add: wraps_def)
next
  case (WriteHeader status)
  with assms show ?thesis by (simp add: wraps_def sw_WriteHeader_def http_WriteHeader_def final_op_def)
next
  case (WriteBody body)
  have "\<not> informational StatusOK" by (simp add: informational_def StatusOK_def)
  with WriteBody assms show ?thesis
    by (simp add: wraps_def sw_Write_def sw_WriteHeader_def http_Write_def http_WriteHeader_def StatusOK_def)
qed

lemma wraps_ops: "wraps w inner \<Longrightarrow> list_all final_op xs \<Longrightarrow> rel_option wraps (sw_ops xs w) (http_ops xs inner)"
proof (induction xs arbitrary: w inner)
  case (Cons x xs)
  then have "rel_option wraps (sw_op x w) (http_op x inner)" by (intro wraps_op) simp_all
  then show ?case using Cons by (cases "sw_op x w"; cases "http_op x inner") simp_all
qed simp

lemma wraps_finish:
  "wraps w inner \<Longrightarrow> http_finish inner = Some out \<Longrightarrow> http_finish (sw_writer w) = Some out \<and> rw_status out = sw_status w"
  by (auto simp: wraps_def http_finish_def http_WriteHeader_def informational_def StatusOK_def split: if_splits)

section \<open>Metric series\<close>

definition route_labels :: "string list" where
  "route_labels = [''health.live'', ''health.ready'', ''metrics'', ''unknown'']"

definition status_labels :: "string list" where
  "status_labels = [''1xx'', ''2xx'', ''3xx'', ''4xx'', ''5xx'', ''unknown'']"

definition dependency_labels :: "string list" where
  "dependency_labels = [''postgresql'', ''redis'', ''unknown'']"

lemma boundedRoute_label: "boundedRoute method path \<in> set route_labels"
  by (simp add: boundedRoute_def route_labels_def)

lemma boundedDependency_label: "boundedDependency name \<in> set dependency_labels"
  by (simp add: boundedDependency_def dependency_labels_def)

lemma boundedStatus_label: "boundedStatus status \<in> set status_labels"
proof -
  have "FormatInt 1 @ ''xx'' = ''1xx''" "FormatInt 2 @ ''xx'' = ''2xx''" "FormatInt 3 @ ''xx'' = ''3xx''"
    "FormatInt 4 @ ''xx'' = ''4xx''" "FormatInt 5 @ ''xx'' = ''5xx''" by code_simp+
  moreover have "\<not> (status < 100 \<or> 599 < status) \<Longrightarrow> status div 100 \<in> {1, 2, 3, 4, 5}"
    by (simp, linarith)
  ultimately show ?thesis by (auto simp: boundedStatus_def status_labels_def)
qed

text \<open>The operations of a process on its runtime.\<close>

datatype telemetry_op =
    SetReadyOp bool
  | DependencyOp string int "string option"
  | RequestOp string string int int

fun telemetry_step :: "telemetry_op \<Rightarrow> Runtime \<Rightarrow> Runtime" where
  "telemetry_step (SetReadyOp ready) r = Runtime_SetReady ready r"
| "telemetry_step (DependencyOp name elapsed err) r = ObserveDependency name elapsed err r"
| "telemetry_step (RequestOp method path status elapsed) r =
     record_request (boundedRoute method path) (boundedStatus status) elapsed r"

definition series_ok :: "metrics \<Rightarrow> bool" where
  "series_ok m \<longleftrightarrow> dom (mt_requests m) \<subseteq> set route_labels \<times> set status_labels \<and>
     dom (mt_latency m) \<subseteq> set route_labels \<and>
     dom (mt_dependency m) \<subseteq> set dependency_labels \<times> {''success'', ''failure''} \<and>
     dom (mt_dependency_ready m) \<subseteq> set dependency_labels \<and> mt_service_ready m \<in> {0, 1}"

definition request_total :: "metrics \<Rightarrow> nat" where
  "request_total m = (\<Sum>k\<in>dom (mt_requests m). the (mt_requests m k))"

fun is_request :: "telemetry_op \<Rightarrow> bool" where
  "is_request (RequestOp method path status elapsed) = True"
| "is_request _ = False"

lemma incr_total:
  assumes "finite (dom f)"
  shows "(\<Sum>x\<in>dom (incr f k). the (incr f k x)) = (\<Sum>x\<in>dom f. the (f x)) + 1"
proof -
  let ?n = "case f k of None \<Rightarrow> 0 | Some n \<Rightarrow> n"
  have "(\<Sum>x\<in>dom (incr f k). the (incr f k x)) = (?n + 1) + (\<Sum>x\<in>dom f - {k}. the (f x))"
    using assms by (simp add: incr_def sum.insert_remove cong: sum.cong_simp)
  also have "\<dots> = (\<Sum>x\<in>dom f. the (f x)) + 1"
    using assms by (cases "f k") (auto simp: sum.remove [of "dom f" k] domIff)
  finally show ?thesis .
qed

lemma series_ok_finite: "series_ok m \<Longrightarrow> finite (dom (mt_requests m))"
  unfolding series_ok_def by (rule finite_subset [of _ "set route_labels \<times> set status_labels"]) simp_all

lemma telemetry_step_metrics:
  assumes "rt_metrics r = Some m" "series_ok m"
  shows "\<exists>m'. rt_metrics (telemetry_step x r) = Some m' \<and> series_ok m' \<and>
    request_total m' = request_total m + (if is_request x then 1 else 0)"
proof (cases x)
  case (SetReadyOp ready)
  with assms show ?thesis by (simp add: Runtime_SetReady_def series_ok_def request_total_def)
next
  case (DependencyOp name elapsed err)
  with assms boundedDependency_label [of name] show ?thesis
    by (simp add: ObserveDependency_def series_ok_def request_total_def observe_def)
next
  case (RequestOp m p status elapsed)
  with assms boundedRoute_label [of m p] boundedStatus_label [of status]
    incr_total [OF series_ok_finite [OF assms(2)]]
  show ?thesis by (auto simp: record_request_def series_ok_def request_total_def observe_def incr_def)
qed

lemma telemetry_steps_metrics:
  "rt_metrics r = Some m \<Longrightarrow> series_ok m \<Longrightarrow> \<exists>m'. rt_metrics (fold telemetry_step xs r) = Some m' \<and> series_ok m' \<and>
    request_total m' = request_total m + length (filter is_request xs)"
proof (induction xs arbitrary: r m)
  case (Cons x xs)
  from telemetry_step_metrics [OF Cons.prems, of x] obtain m1 where m1: "rt_metrics (telemetry_step x r) = Some m1"
    "series_ok m1" "request_total m1 = request_total m + (if is_request x then 1 else 0)" by blast
  from Cons.IH [OF m1(1,2)] m1(3) show ?case by auto
qed simp

lemma request_record_flat: "\<forall>a\<in>set (lr_attrs (request_record now route status elapsed trace_id)). flat_attr lower a"
proof -
  have "flat_attr lower (k, KInt64 n)" for k n
    using Resolve_fixed [of "KInt64 n"] by (simp add: flat_attr_def)
  then show ?thesis by (cases trace_id) (simp_all add: request_record_def flat_string)
qed

lemma request_record_logs: "Log lower h (request_record now route status elapsed trace_id) \<noteq> None"
  using Log_none [OF request_record_flat, of lower h now route status elapsed trace_id]
  by (auto simp: request_record_def split: option.splits)

section \<open>Properties\<close>

text \<open>C27. The middleware is transparent: for a handler that writes no informational status it panics exactly
  when the handler alone would, the client gets the same response, and the status in the span
  and the one that is counted are those of the response.\<close>

theorem HTTPMiddleware_transparent:
  assumes "list_all final_op xs"
  shows "map_option sv_response (HTTPMiddleware lower r now method path trace_id elapsed xs) = http_respond xs \<and>
    (\<forall>out. HTTPMiddleware lower r now method path trace_id elapsed xs = Some out \<longrightarrow>
       span_status (sv_span out) = rw_status (sv_response out) \<and>
       sv_runtime out = record_request (boundedRoute method path) (boundedStatus (rw_status (sv_response out))) elapsed r)"
proof (cases "http_ops xs new_writer")
  case None
  with wraps_ops [OF wraps_new assms] show ?thesis
    by (simp add: HTTPMiddleware_def http_respond_def)
next
  case (Some inner)
  with wraps_ops [OF wraps_new assms] obtain w where w: "sw_ops xs new_statusWriter = Some w" "wraps w inner"
    by (auto elim: option.rel_cases)
  obtain line where line: "Log lower (rt_logger r) (request_record now (boundedRoute method path) (sw_status w) elapsed trace_id) = Some line"
    using request_record_logs by blast
  obtain out where out: "http_finish inner = Some out"
    by (cases "rw_wroteHeader inner") (auto simp: http_finish_def http_WriteHeader_def StatusOK_def informational_def)
  show ?thesis using wraps_finish [OF w(2) out] w(1) line out Some
    by (auto simp: HTTPMiddleware_def http_respond_def Let_def)
qed

text \<open>A runtime with metrics, for the examples.\<close>

definition sample_settings :: Observability where
  "sample_settings = \<lparr>obs_LogLevel = ''info'', obs_LogFormat = ''json'', obs_Metrics = True, obs_OTel = False, obs_OTLPEndpoint = None\<rparr>"

definition sample_runtime :: Runtime where
  "sample_runtime = \<lparr>rt_logger = gateway_logger, rt_metrics = Some (configureMetrics ''gateway'' ''1.0''),
     rt_tracer = NoopTracer instrumentationName\<rparr>"

theorem HTTPMiddleware_transparent_witness:
  "map_option rw_status (map_option sv_response (HTTPMiddleware (\<lambda>s. s) sample_runtime None ''GET'' ''/health/ready'' None 0
     (readiness \<lparr>health_ready = False\<rparr>))) = Some 503"
proof -
  have "list_all final_op (readiness \<lparr>health_ready = False\<rparr>)" by code_simp
  note same = HTTPMiddleware_transparent [OF this, of "\<lambda>s. s" sample_runtime None "''GET''" "''/health/ready''" None 0]
  have "map_option rw_status (http_respond (readiness \<lparr>health_ready = False\<rparr>)) = Some 503" by code_simp
  then show ?thesis using same by simp
qed



end
