(* ===== verification/Clients.thy ===== *)
theory Clients
  imports Readiness
begin

text \<open>
  \<^verbatim>\<open>internal/dependency/dependency.go\<close>: the PostgreSQL and Redis clients of a process.  The two
  client libraries are parameters: \<open>pg_ParseConfig\<close> and \<open>redis_ParseURL\<close> turn a connection string
  into a configuration, \<open>pg_New\<close> says whether a pool can be made of it.
\<close>

section \<open>Connection strings\<close>

text \<open>\<^verbatim>\<open>url.QueryEscape\<close>.\<close>

definition QueryEscape :: "string \<Rightarrow> string" where
  "QueryEscape s = concat (map (\<lambda>c.
     if c = CHR '' '' then ''+''
     else if is_alnum c \<or> c \<in> set ''-_.~'' then [c]
     else [CHR ''%'', upper_hex (byte c div 16), upper_hex (byte c mod 16)]) s)"

text \<open>\<^verbatim>\<open>URL.String\<close> for a URL with userinfo and host and an unescaped path.\<close>

definition userinfo_String :: "userinfo \<Rightarrow> string" where
  "userinfo_String u = escape encodeUserPassword (ui_username u) @
     (case ui_password u of None \<Rightarrow> [] | Some p \<Rightarrow> '':'' @ escape encodeUserPassword p)"

text \<open>\<^verbatim>\<open>URL.EscapedPath\<close> without a raw path.\<close>

definition printed_path :: "string \<Rightarrow> string" where
  "printed_path path = (if path = ''*'' then ''*'' else escape encodePath path)"

definition URL_String :: "URL \<Rightarrow> string" where
  "URL_String u =
     (let path = printed_path (Path u)
      in Scheme u @ ''://'' @
         (case User u of None \<Rightarrow> [] | Some ui \<Rightarrow> userinfo_String ui @ ''@'') @
         escape encodeHost (Host u) @
         (if path \<noteq> [] \<and> \<not> HasPrefix path ''/'' \<and> Host u \<noteq> [] then ''/'' else []) @ path @
         (if ForceQuery u \<or> RawQuery u \<noteq> [] then ''?'' @ RawQuery u else []))"

section \<open>PostgreSQL\<close>

text \<open>The fields of the pool configuration that the program sets; the rest stays what the library parsed.\<close>

record 'c pool_config =
  pool_parsed :: 'c
  pool_MinConns :: int
  pool_MaxConns :: int
  pool_ConnectTimeout :: int

definition int32 :: "int \<Rightarrow> int" where
  "int32 n = (n + 2147483648) mod 4294967296 - 2147483648"

definition connectionURL :: "Database \<Rightarrow> URL" where
  "connectionURL database = empty_URL\<lparr>
     Scheme := ''postgres'',
     User := Some \<lparr>ui_username = db_User database, ui_password = Some (Reveal (db_Password database))\<rparr>,
     Host := JoinHostPort (db_Host database) (Itoa (db_Port database)),
     Path := db_Name database,
     RawQuery := ''sslmode='' @ QueryEscape (db_SSLMode database)\<rparr>"

definition postgresPoolConfig :: "(string \<Rightarrow> go_error + 'c) \<Rightarrow> Database \<Rightarrow> int \<Rightarrow> go_error + 'c pool_config" where
  "postgresPoolConfig pg_ParseConfig database probeTimeout =
     bindE (pg_ParseConfig (URL_String (connectionURL database))) (\<lambda>parsed.
     Inr \<lparr>pool_parsed = parsed, pool_MinConns = int32 (db_MinConnections database),
          pool_MaxConns = int32 (db_MaxConnections database), pool_ConnectTimeout = probeTimeout\<rparr>)"

section \<open>Redis\<close>

record redis_options =
  ro_DB :: int
  ro_Protocol :: int
  ro_DisableIdentity :: bool
  ro_MaintDisabled :: bool
  ro_MaxRetries :: int
  ro_DialerRetries :: int
  ro_DialTimeout :: int
  ro_ReadTimeout :: int
  ro_WriteTimeout :: int
  ro_ContextTimeoutEnabled :: bool
  ro_PoolSize :: int
  ro_MaxActiveConns :: int

definition redisOptions :: "(string \<Rightarrow> go_error + redis_options) \<Rightarrow> Redis \<Rightarrow> int \<Rightarrow> go_error + redis_options" where
  "redisOptions redis_ParseURL redisConfig probeTimeout =
     bindE (redis_ParseURL (Reveal (redis_URL redisConfig))) (\<lambda>options.
     guardE (ro_DB options \<noteq> 0) ''redis database must be zero''
     (Inr (options\<lparr>ro_Protocol := 2, ro_DisableIdentity := True, ro_MaintDisabled := True, ro_MaxRetries := - 1,
        ro_DialerRetries := 1, ro_DialTimeout := probeTimeout, ro_ReadTimeout := probeTimeout,
        ro_WriteTimeout := probeTimeout, ro_ContextTimeoutEnabled := True,
        ro_PoolSize := redis_MaxConnections redisConfig, ro_MaxActiveConns := redis_MaxConnections redisConfig\<rparr>)))"

section \<open>Clients\<close>

record 'c Clients =
  cl_PostgreSQL :: "'c pool_config option"
  cl_Redis :: "redis_options option"

text \<open>The effects of opening and closing, in order.\<close>

datatype client_event = PoolOpened | PoolClosed | RedisOpened | RedisClosed

definition Open :: "(string \<Rightarrow> go_error + 'c) \<Rightarrow> ('c pool_config \<Rightarrow> bool) \<Rightarrow> (string \<Rightarrow> go_error + redis_options) \<Rightarrow>
    Database \<Rightarrow> Redis \<Rightarrow> int \<Rightarrow> (go_error + 'c Clients) \<times> client_event list" where
  "Open pg_ParseConfig pg_New redis_ParseURL database redisConfig probeTimeout =
     (case postgresPoolConfig pg_ParseConfig database probeTimeout of
        Inl e \<Rightarrow> (Inl ''configure PostgreSQL client'', [])
      | Inr pool \<Rightarrow>
          if \<not> pg_New pool then (Inl ''configure PostgreSQL client'', [])
          else case redisOptions redis_ParseURL redisConfig probeTimeout of
            Inl e \<Rightarrow> (Inl ''configure Redis client'', [PoolOpened, PoolClosed])
          | Inr options \<Rightarrow> (Inr \<lparr>cl_PostgreSQL = Some pool, cl_Redis = Some options\<rparr>, [PoolOpened, RedisOpened]))"

definition Close :: "'c Clients option \<Rightarrow> client_event list" where
  "Close c = (case c of
     None \<Rightarrow> []
   | Some c \<Rightarrow> (if cl_Redis c \<noteq> None then [RedisClosed] else []) @ (if cl_PostgreSQL c \<noteq> None then [PoolClosed] else []))"

definition Probes :: "bool \<Rightarrow> 'c Clients \<Rightarrow> Probe list" where
  "Probes has_observe c =
     [\<lparr>probe_Name = ''postgresql'', probe_has_Ping = True, probe_has_Observe = has_observe\<rparr>,
      \<lparr>probe_Name = ''redis'', probe_has_Ping = True, probe_has_Observe = has_observe\<rparr>]"

section \<open>Escaping\<close>

lemma upper_hex_value: "0 \<le> n \<Longrightarrow> n < 16 \<Longrightarrow> hex_value (upper_hex n) = Some n"
proof -
  have "list_all (\<lambda>n. hex_value (upper_hex n) = Some n) [0..15]" by code_simp
  then show "0 \<le> n \<Longrightarrow> n < 16 \<Longrightarrow> hex_value (upper_hex n) = Some n" by (auto simp: list_all_iff)
qed

lemma byte_split: "char_of (byte c div 16 * 16 + byte c mod 16) = c"
  by simp

definition free_mode :: "encoding \<Rightarrow> bool" where
  "free_mode mode \<longleftrightarrow> mode = encodeUserPassword \<or> mode = encodePath"

lemma unescape_byte:
  "free_mode mode \<Longrightarrow> unescape mode (CHR ''%'' # upper_hex (byte c div 16) # upper_hex (byte c mod 16) # t) = map_option ((#) c) (unescape mode t)"
  using upper_hex_value [of "byte c div 16"] upper_hex_value [of "byte c mod 16"] byte_range [of c] byte_split [of c]
  by (auto simp: free_mode_def simp del: char_of_def)

lemma unescape_plain: "free_mode mode \<Longrightarrow> c \<noteq> CHR ''%'' \<Longrightarrow> unescape mode (c # t) = map_option ((#) c) (unescape mode t)"
  by (auto simp: free_mode_def)

lemma percent_escaped: "free_mode mode \<Longrightarrow> shouldEscape (CHR ''%'') mode"
proof -
  have "shouldEscape (CHR ''%'') encodeUserPassword" "shouldEscape (CHR ''%'') encodePath" by code_simp+
  then show "free_mode mode \<Longrightarrow> shouldEscape (CHR ''%'') mode" by (auto simp: free_mode_def)
qed

lemma escape_Cons:
  "escape mode (c # s) = (if shouldEscape c mode then [CHR ''%'', upper_hex (byte c div 16), upper_hex (byte c mod 16)] else [c]) @ escape mode s"
  by (simp add: escape_def)

lemma unescape_escape:
  assumes "free_mode mode"
  shows "unescape mode (escape mode s) = Some s"
proof (induction s)
  case Nil
  show ?case by (simp add: escape_def)
next
  case (Cons c s)
  show ?case
  proof (cases "shouldEscape c mode")
    case True
    then show ?thesis using unescape_byte [OF assms, of c "escape mode s"] Cons.IH by (simp add: escape_Cons)
  next
    case False
    then have "c \<noteq> CHR ''%''" using percent_escaped [OF assms] by auto
    from unescape_plain [OF assms this] show ?thesis using Cons.IH False by (simp add: escape_Cons)
  qed
qed

text \<open>The characters an escaped string can hold, by cases over the 256 bytes.\<close>

lemma all_chars: "list_all (\<lambda>n. P (char_of (n :: int))) [0..255] \<Longrightarrow> P c"
proof -
  assume "list_all (\<lambda>n. P (char_of (n :: int))) [0..255]"
  then have "\<forall>n\<in>{0..255}. P (char_of (n :: int))" by (simp add: list_all_iff)
  moreover have "byte c \<in> {0..255}" using byte_range [of c] by simp
  ultimately have "P (char_of (byte c))" by blast
  then show ?thesis by simp
qed

definition user_char :: "char \<Rightarrow> bool" where
  "user_char c \<longleftrightarrow> \<not> shouldEscape c encodeUserPassword \<or> c = CHR ''%''"

definition path_char :: "char \<Rightarrow> bool" where
  "path_char c \<longleftrightarrow> \<not> shouldEscape c encodePath \<or> c = CHR ''%''"

definition query_char :: "char \<Rightarrow> bool" where
  "query_char c \<longleftrightarrow> is_alnum c \<or> c \<in> set ''-_.~+%=''"

definition host_char :: "char \<Rightarrow> bool" where
  "host_char c \<longleftrightarrow> is_alnum c \<or> c \<in> set ''-._''"

text \<open>What a string of each class avoids; the classes are compared byte by byte.\<close>

definition avoids :: "string \<Rightarrow> string \<Rightarrow> bool" where
  "avoids bad s \<longleftrightarrow> list_all (\<lambda>c. c \<notin> set bad \<and> \<not> control_byte c) s"

lemma avoidsD: "avoids bad s \<Longrightarrow> list_ex ((=) c) bad \<Longrightarrow> c \<notin> set s"
  by (auto simp: avoids_def list_all_iff list_ex_iff)

lemma avoids_control: "avoids bad s \<Longrightarrow> \<not> list_ex control_byte s"
  by (auto simp: avoids_def list_all_iff list_ex_iff)

lemma avoids_mono: "avoids bad s \<Longrightarrow> list_all (\<lambda>c. list_ex ((=) c) bad) some \<Longrightarrow> avoids some s"
  unfolding avoids_def list_all_iff list_ex_iff by blast

lemma avoids_Cons: "avoids bad (c # s) \<longleftrightarrow> c \<notin> set bad \<and> \<not> control_byte c \<and> avoids bad s"
  by (simp add: avoids_def)

lemma avoids_append [simp]: "avoids bad (s @ t) \<longleftrightarrow> avoids bad s \<and> avoids bad t"
  by (simp add: avoids_def)

definition class_avoids :: "(char \<Rightarrow> bool) \<Rightarrow> string \<Rightarrow> bool" where
  "class_avoids P bad \<longleftrightarrow> list_all (\<lambda>n. P (char_of (n :: int)) \<longrightarrow> char_of n \<notin> set bad \<and> \<not> control_byte (char_of n)) [0..255]"

lemma avoids_class: "class_avoids P bad \<Longrightarrow> list_all P s \<Longrightarrow> avoids bad s"
proof -
  assume "class_avoids P bad"
  from all_chars [OF this [unfolded class_avoids_def]] show "list_all P s \<Longrightarrow> avoids bad s"
    unfolding avoids_def list_all_iff by blast
qed

lemma classes_avoid:
  "class_avoids user_char ''@/?:#''" "class_avoids path_char ''?#''" "class_avoids query_char ''?#''" "class_avoids host_char ''[]:@/?#%''"
  by code_simp+

lemmas user_avoids = avoids_class [OF classes_avoid(1)]
lemmas path_avoids = avoids_class [OF classes_avoid(2)]
lemmas query_avoids = avoids_class [OF classes_avoid(3)]
lemmas host_avoids = avoids_class [OF classes_avoid(4)]

lemma user_valid: "list_all user_char s \<Longrightarrow> validUserinfo s"
proof -
  have "user_char c \<longrightarrow> is_alnum c \<or> c \<in> set ''-._:~!$&()*+,;=%@'' \<or> byte c = 39" for c by (rule all_chars) code_simp
  then show "list_all user_char s \<Longrightarrow> validUserinfo s" unfolding validUserinfo_def list_all_iff by blast
qed

lemma host_plain: "host_char c \<Longrightarrow> \<not> shouldEscape c encodeHost \<and> c \<noteq> CHR ''%''"
proof -
  have "host_char c \<longrightarrow> \<not> shouldEscape c encodeHost \<and> c \<noteq> CHR ''%''" by (rule all_chars) code_simp
  then show "host_char c \<Longrightarrow> \<not> shouldEscape c encodeHost \<and> c \<noteq> CHR ''%''" by blast
qed

lemma upper_hex_alnum: "0 \<le> n \<Longrightarrow> n < 16 \<Longrightarrow> is_alnum (upper_hex n)"
proof -
  have "list_all (\<lambda>n. is_alnum (upper_hex n)) [0..15]" by code_simp
  then show "0 \<le> n \<Longrightarrow> n < 16 \<Longrightarrow> is_alnum (upper_hex n)" by (auto simp: list_all_iff)
qed

lemma nibbles_alnum: "is_alnum (upper_hex (byte c div 16))" "is_alnum (upper_hex (byte c mod 16))"
  using byte_range [of c] by (auto intro!: upper_hex_alnum)

lemma escape_chars: "c \<in> set (escape mode s) \<Longrightarrow> is_alnum c \<or> c = CHR ''%'' \<or> \<not> shouldEscape c mode"
  by (induction s) (auto simp: escape_Cons escape_def nibbles_alnum split: if_splits)

lemma alnum_plain: "is_alnum c \<Longrightarrow> \<not> shouldEscape c mode"
  by (simp add: shouldEscape_def)

lemma escape_user: "list_all user_char (escape encodeUserPassword s)"
  unfolding list_all_iff user_char_def using escape_chars alnum_plain by blast

lemma escape_path: "list_all path_char (escape encodePath s)"
  unfolding list_all_iff path_char_def using escape_chars alnum_plain by blast

lemma escape_query: "list_all query_char (QueryEscape s)"
  by (induction s) (auto simp: QueryEscape_def query_char_def nibbles_alnum)

lemma escape_host: "list_all (\<lambda>c. \<not> shouldEscape c encodeHost) s \<Longrightarrow> escape encodeHost s = s"
  by (induction s) (simp_all add: escape_def)

section \<open>Reading a connection string back\<close>

lemma from_last_append: "c \<notin> set b \<Longrightarrow> from_last c (a @ c # b) = Some (a, b)"
  by (simp add: from_last_def takeWhile_append dropWhile_append)

lemma from_last_none: "c \<notin> set s \<Longrightarrow> from_last c s = None"
  by (simp add: from_last_def)

lemma unescape_host: "list_all (\<lambda>c. \<not> shouldEscape c encodeHost \<and> c \<noteq> CHR ''%'') s \<Longrightarrow> unescape encodeHost s = Some s"
  by (induction s) simp_all

lemma digit_host: "is_digit c \<Longrightarrow> host_char c"
  by (simp add: host_char_def is_alnum_def)

lemma parseHost_plain:
  assumes "list_all host_char h" "list_all is_digit p"
  shows "parseHost (h @ CHR '':'' # p) = Some (h @ CHR '':'' # p)"
proof -
  have p: "list_all host_char p" using assms(2) digit_host unfolding list_all_iff by blast
  have colon: "\<not> shouldEscape (CHR '':'') encodeHost \<and> CHR '':'' \<noteq> CHR ''%''" by code_simp
  have "CHR ''['' \<notin> set h" "CHR ''['' \<notin> set p" "CHR '':'' \<notin> set p"
    using avoidsD [OF host_avoids [OF assms(1)]] avoidsD [OF host_avoids [OF p]] by simp_all
  moreover have "unescape encodeHost (h @ CHR '':'' # p) = Some (h @ CHR '':'' # p)"
    by (rule unescape_host) (use assms(1) p colon host_plain in \<open>unfold list_all_iff set_append list.set, blast\<close>)
  ultimately show ?thesis using assms(2)
    by (simp only: parseHost_def from_last_none from_last_append set_append list.set) (simp add: from_last_none from_last_append validOptionalPort_def)
qed

lemma parseAuthority_parts:
  assumes "list_all user_char a" "list_all user_char b" "unescape encodeUserPassword a = Some u" "unescape encodeUserPassword b = Some p"
    "parseHost hp = Some h" "CHR ''@'' \<notin> set hp"
  shows "parseAuthority (a @ CHR '':'' # b @ CHR ''@'' # hp) = Some (Some \<lparr>ui_username = u, ui_password = Some p\<rparr>, h)"
proof -
  have last: "from_last (CHR ''@'') (a @ CHR '':'' # b @ CHR ''@'' # hp) = Some (a @ CHR '':'' # b, hp)"
    using from_last_append [OF assms(6), of "a @ CHR '':'' # b"] by simp
  have valid: "validUserinfo (a @ CHR '':'' # b)"
    using user_valid [OF assms(1)] user_valid [OF assms(2)] by (simp add: validUserinfo_def)
  have "CHR '':'' \<notin> set a" by (rule avoidsD [OF user_avoids [OF assms(1)]]) simp
  then have cut: "Cut (CHR '':'') (a @ CHR '':'' # b) = Some (a, b)" by (simp add: Cut_Some)
  show ?thesis unfolding parseAuthority_def last using assms(3,4,5) valid cut by simp
qed

lemma split_query_parts:
  assumes "CHR ''?'' \<notin> set front" "CHR ''?'' \<notin> set q" "q \<noteq> []"
  shows "split_query (front @ CHR ''?'' # q) = (False, front, q)"
proof -
  have cut: "Cut (CHR ''?'') (front @ CHR ''?'' # q) = Some (front, q)" using assms by (simp add: Cut_Some)
  have "last (front @ CHR ''?'' # q) \<noteq> CHR ''?''" using assms(2,3) last_in_set [of q] by (cases "last q = CHR ''?''") simp_all
  then have "\<not> HasSuffix (front @ CHR ''?'' # q) ''?''"
    unfolding HasSuffix_iff by (metis last_snoc)
  then show ?thesis unfolding split_query_def cut by simp
qed

lemma split_query_none: "CHR ''?'' \<notin> set s \<Longrightarrow> split_query s = (False, s, [])"
  by (simp add: split_query_def Cut_def)

text \<open>A hierarchical URL from its parts; \<open>tail\<close> is the query with its question mark, or nothing.\<close>

lemma url_Parse_hier:
  assumes scheme: "list_all is_lower scheme" "scheme \<noteq> []"
    and auth: "avoids ''?#'' auth" "CHR ''/'' \<notin> set auth" "parseAuthority auth = Some (user, h)"
    and path: "avoids ''?#'' p" "unescape encodePath (CHR ''/'' # p) = Some path"
    and tail: "avoids ''#'' tail" "split_query (''//'' @ auth @ CHR ''/'' # p @ tail) = (False, ''//'' @ auth @ CHR ''/'' # p, q)"
  shows "\<exists>raw. url_Parse (scheme @ ''://'' @ auth @ CHR ''/'' # p @ tail) =
    Some (empty_URL\<lparr>Scheme := scheme, User := user, Host := h, Path := path, RawPath := raw, RawQuery := q\<rparr>)"
proof -
  let ?rest = "''//'' @ auth @ CHR ''/'' # p"
  let ?s = "scheme @ CHR '':'' # ?rest @ tail"
  have "is_lower c \<longrightarrow> c \<noteq> CHR ''#'' \<and> \<not> control_byte c \<and> ascii_lower c = c \<and> scheme_char c \<and> c \<noteq> CHR '':'' \<and> is_alpha c" for c
    by (rule all_chars) code_simp
  then have low: "CHR ''#'' \<notin> set scheme" "\<not> list_ex control_byte scheme" "map ascii_lower scheme = scheme"
    "\<forall>c\<in>set scheme. scheme_char c \<and> c \<noteq> CHR '':'' \<and> is_alpha c"
    using scheme(1) by (auto simp: list_all_iff list_ex_iff map_idI)
  have "CHR ''#'' \<notin> set auth \<and> CHR ''#'' \<notin> set p \<and> CHR ''#'' \<notin> set tail"
    using avoidsD [OF auth(1)] avoidsD [OF path(1)] avoidsD [OF tail(1)] by simp
  then have nohash: "CHR ''#'' \<notin> set ?s" using low(1) by simp
  have noctl: "\<not> list_ex control_byte ?s"
    using avoids_control [OF auth(1)] avoids_control [OF path(1)] avoids_control [OF tail(1)] low(2) by (simp add: control_byte_def)
  have get: "getScheme (scheme @ CHR '':'' # t) = Some (scheme, t)" for t
  proof -
    have "\<not> scheme_char (CHR '':'')" by code_simp
    then have "takeWhile scheme_char (scheme @ CHR '':'' # t) = scheme" "dropWhile scheme_char (scheme @ CHR '':'' # t) = CHR '':'' # t"
      using low(4) takeWhile_append2 [of scheme scheme_char] dropWhile_append2 [of scheme scheme_char] by simp_all
    then show ?thesis using low(4) scheme(2) by (simp add: getScheme_def)
  qed
  let ?u = "empty_URL\<lparr>Scheme := scheme, ForceQuery := False, RawQuery := q\<rparr>"
  have "takeWhile (\<lambda>c. c \<noteq> CHR ''/'') (auth @ CHR ''/'' # p) = auth"
    "dropWhile (\<lambda>c. c \<noteq> CHR ''/'') (auth @ CHR ''/'' # p) = CHR ''/'' # p"
    using auth(2) by (auto simp: takeWhile_append dropWhile_append)
  then have "parse_hier ?u ?rest = setPath (?u\<lparr>User := user, Host := h\<rparr>) (CHR ''/'' # p)"
    using auth(3) scheme(2) by (simp add: parse_hier_def HasPrefix_def)
  then have "\<exists>raw. parse_hier ?u ?rest = Some (?u\<lparr>User := user, Host := h, Path := path, RawPath := raw\<rparr>)"
    using path(2) by (auto simp: setPath_def)
  moreover have "url_Parse ?s = parse_hier ?u ?rest"
    using nohash noctl get [of "?rest @ tail"] tail(2) low(3) scheme(2)
    by (simp add: url_Parse_def url_parse_def Cut_def)
  ultimately show ?thesis by (auto simp: empty_URL_def)
qed

lemma url_Parse_parts:
  assumes auth: "avoids ''?#'' auth" "CHR ''/'' \<notin> set auth" "parseAuthority auth = Some (user, h)"
    and path: "avoids ''?#'' p" "unescape encodePath (CHR ''/'' # p) = Some path"
    and query: "avoids ''?#'' q" "q \<noteq> []"
  shows "\<exists>raw. url_Parse (''postgres://'' @ auth @ CHR ''/'' # p @ CHR ''?'' # q) =
    Some (empty_URL\<lparr>Scheme := ''postgres'', User := user, Host := h, Path := path, RawPath := raw, RawQuery := q\<rparr>)"
proof -
  have lower: "list_all is_lower ''postgres''" by code_simp
  have tail: "avoids ''#'' (CHR ''?'' # q)"
    using avoids_mono [OF query(1), of "''#''"] by (simp add: avoids_Cons control_byte_def)
  have "split_query ((''//'' @ auth @ CHR ''/'' # p) @ CHR ''?'' # q) = (False, ''//'' @ auth @ CHR ''/'' # p, q)"
    using avoidsD [OF auth(1)] avoidsD [OF path(1)] avoidsD [OF query(1)] query(2) by (intro split_query_parts) simp_all
  from url_Parse_hier [OF lower _ auth path tail] this show ?thesis by simp
qed

lemma int32_small: "- 2147483648 \<le> n \<Longrightarrow> n < 2147483648 \<Longrightarrow> int32 n = n"
  by (simp add: int32_def)

lemma parseDatabase_ranges:
  assumes "parseDatabase h v settings = Inr db"
  shows "1 \<le> db_Port db \<and> db_Port db \<le> 65535 \<and> 0 \<le> db_MinConnections db \<and>
    db_MinConnections db \<le> db_MaxConnections db \<and> db_MaxConnections db \<le> 10000 \<and> db_Name db \<noteq> []"
  using assms unfolding parseDatabase_def Let_def
  by (auto simp: result_simps setting_simps)

lemma escape_path_slash: "\<not> HasPrefix s ''/'' \<Longrightarrow> \<not> HasPrefix (escape encodePath s) ''/''"
  by (cases s) (auto simp: HasPrefix_def escape_Cons escape_def)

lemma escape_nonempty [simp]: "escape mode s = [] \<longleftrightarrow> s = []"
  by (cases s) (auto simp: escape_Cons escape_def)

lemma printed_path_parses: "unescape encodePath (CHR ''/'' # printed_path name) = Some (CHR ''/'' # name)"
proof -
  have "free_mode encodePath" by (simp add: free_mode_def)
  from unescape_escape [OF this, of name] show ?thesis by (simp add: printed_path_def)
qed

lemma printed_path_avoids: "avoids ''?#'' (printed_path name)"
  using path_avoids [OF escape_path] by (auto simp: printed_path_def avoids_def control_byte_def)

lemma JoinHostPort_plain: "list_all host_char h \<Longrightarrow> JoinHostPort h p = h @ CHR '':'' # p"
  using avoidsD [OF host_avoids, of h "CHR '':''"] by (simp add: JoinHostPort_def)

lemma hostport_facts:
  assumes "list_all host_char h" "list_all is_digit p"
  shows "escape encodeHost (h @ CHR '':'' # p) = h @ CHR '':'' # p" "avoids ''?#'' (h @ CHR '':'' # p)"
    "CHR ''/'' \<notin> set (h @ CHR '':'' # p)" "CHR ''@'' \<notin> set (h @ CHR '':'' # p)"
proof -
  have p: "list_all host_char p" using assms(2) digit_host unfolding list_all_iff by blast
  note h = host_avoids [OF assms(1)] and q = host_avoids [OF p]
  have "\<not> shouldEscape (CHR '':'') encodeHost" by code_simp
  then show "escape encodeHost (h @ CHR '':'' # p) = h @ CHR '':'' # p"
    using assms(1) p host_plain by (intro escape_host) (unfold list_all_iff set_append list.set, blast)
  show "CHR ''/'' \<notin> set (h @ CHR '':'' # p)" "CHR ''@'' \<notin> set (h @ CHR '':'' # p)"
    using avoidsD [OF h] avoidsD [OF q] by simp_all
  show "avoids ''?#'' (h @ CHR '':'' # p)"
    using avoids_mono [OF h, of "''?#''"] avoids_mono [OF q, of "''?#''"] by (simp add: avoids_Cons control_byte_def)
qed

lemma connection_string_parts:
  assumes "list_all host_char (db_Host db)" "db_Name db \<noteq> []" "\<not> HasPrefix (db_Name db) ''/''"
  shows "URL_String (connectionURL db) = ''postgres://'' @
    (escape encodeUserPassword (db_User db) @ CHR '':'' # escape encodeUserPassword (Reveal (db_Password db)) @ CHR ''@'' #
      escape encodeHost (db_Host db @ CHR '':'' # Itoa (db_Port db))) @
    CHR ''/'' # printed_path (db_Name db) @ CHR ''?'' # (''sslmode='' @ QueryEscape (db_SSLMode db))"
proof -
  have "\<not> HasPrefix (printed_path (db_Name db)) ''/''" "printed_path (db_Name db) \<noteq> []"
    using assms(2) escape_path_slash [OF assms(3)] by (auto simp: printed_path_def HasPrefix_def)
  then show ?thesis
    by (simp add: URL_String_def connectionURL_def empty_URL_def userinfo_String_def JoinHostPort_plain [OF assms(1)]
        Let_def)
qed

section \<open>Properties\<close>


text \<open>A password full of characters that mean something in a URL.\<close>

definition hostile_password :: string where
  "hostile_password = ''p@ss:w/o?r#d%20''"

definition hostile_host :: host where
  "hostile_host = memory_host [(''/run/secrets/postgres_gateway_password'', hostile_password)]"


end
