(* ===== verification/Go_Files.thy ===== *)
theory Go_Files
  imports Secrets "HOL-Library.AList"
begin

text \<open>
  Paths and a file system for the operations that change one.  \<^verbatim>\<open>path/filepath\<close> is its algorithm on
  Unix; a file system is an association list from clean paths to directories and regular files,
  and \<open>fs_host\<close> is the host whose observations are those of a file system.  Relative paths are
  names of their own: the working directory does not change.
\<close>

section \<open>Paths\<close>

definition filepath_Join :: "string \<Rightarrow> string \<Rightarrow> string" where
  "filepath_Join d name = (if d = [] then filepath_Clean name else filepath_Clean (d @ ''/'' @ name))"

definition upto_last :: "char \<Rightarrow> string \<Rightarrow> string" where
  "upto_last c s = rev (dropWhile (\<lambda>x. x \<noteq> c) (rev s))"

definition filepath_Dir :: "string \<Rightarrow> string" where
  "filepath_Dir path = filepath_Clean (upto_last (CHR ''/'') path)"

text \<open>Normal forms of the parts of a path.\<close>

definition part_ok :: "string \<Rightarrow> bool" where
  "part_ok p \<longleftrightarrow> p \<noteq> [] \<and> p \<noteq> ''.'' \<and> CHR ''/'' \<notin> set p"

definition normal :: "bool \<Rightarrow> string list \<Rightarrow> bool" where
  "normal rooted ps \<longleftrightarrow> list_all part_ok ps \<and> ''..'' \<notin> set (dropWhile (\<lambda>p. p = ''..'') ps) \<and> (rooted \<longrightarrow> ''..'' \<notin> set ps)"

definition simple_name :: "string \<Rightarrow> bool" where
  "simple_name n \<longleftrightarrow> n \<noteq> [] \<and> n \<noteq> ''.'' \<and> n \<noteq> ''..'' \<and> CHR ''/'' \<notin> set n"

lemma clean_parts_snoc: "simple_name n \<Longrightarrow> clean_parts rooted out (ps @ [n]) = clean_parts rooted out ps @ [n]"
  by (induction rooted out ps rule: clean_parts.induct) (auto simp: simple_name_def split: list.splits)

lemma normal_Nil [simp]: "normal rooted []"
  by (simp add: normal_def)

lemma dotdot_ok [simp]: "part_ok ''..''"
  by (simp add: part_ok_def)

lemma normal_snoc: "normal rooted ps \<Longrightarrow> part_ok p \<Longrightarrow> p \<noteq> ''..'' \<Longrightarrow> normal rooted (ps @ [p])"
  by (auto simp: normal_def dropWhile_append)

lemma normal_butlast:
  assumes "normal rooted (ps @ [p])"
  shows "normal rooted ps"
proof (cases "\<forall>x\<in>set ps. x = ''..''")
  case True
  then have "dropWhile (\<lambda>p. p = ''..'') ps = []" by (simp only: dropWhile_eq_Nil_conv)
  with assms show ?thesis unfolding normal_def list_all_append set_append by (simp del: dropWhile_eq_Nil_conv)
next
  case False
  then obtain x where x: "x \<in> set ps" "x \<noteq> ''..''" by blast
  have "dropWhile (\<lambda>p. p = ''..'') (ps @ [p]) = dropWhile (\<lambda>p. p = ''..'') ps @ [p]"
    by (rule dropWhile_append1 [OF x(1)]) (rule x(2))
  note eq = this
  have "list_all part_ok (ps @ [p])" "''..'' \<notin> set (dropWhile (\<lambda>p. p = ''..'') ps @ [p])" "rooted \<longrightarrow> ''..'' \<notin> set (ps @ [p])"
    using assms unfolding normal_def eq by blast+
  then show ?thesis unfolding normal_def list_all_append set_append by blast
qed

lemma normal_dots: "normal False (ps @ [''..'']) \<Longrightarrow> normal False (ps @ [''..'', ''..''])"
  by (auto simp: normal_def dropWhile_append split: if_splits)

lemma normal_head_dots: "\<not> normal True (ps @ [''..''])"
  by (simp add: normal_def)

lemma clean_parts_normal:
  "normal rooted (rev out) \<Longrightarrow> \<forall>p\<in>set ps. CHR ''/'' \<notin> set p \<Longrightarrow> normal rooted (clean_parts rooted out ps)"
proof (induction rooted out ps rule: clean_parts.induct)
  case (2 rooted out p ps)
  show ?case
  proof (cases "p = [] \<or> p = ''.''")
    case True
    then show ?thesis using 2 by simp
  next
    case skip: False
    show ?thesis
    proof (cases "p = ''..''")
      case False
      then have "normal rooted (rev (p # out))"
        using 2(6,7) skip by (simp add: normal_snoc part_ok_def)
      then show ?thesis using 2(5) [OF skip False] 2(7) skip False by simp
    next
      case True
      show ?thesis
      proof (cases out)
        case Nil
        have "normal rooted (rev (if rooted then [] else [p]))"
          using True by (simp add: normal_def)
        then show ?thesis using 2(2) [OF skip True Nil] 2(7) Nil skip True by (cases rooted) simp_all
      next
        case (Cons q qs)
        show ?thesis
        proof (cases "q = ''..''")
          case q: True
          have "rooted = False" using 2(6) Cons q normal_head_dots [of "rev qs"] by (cases rooted) auto
          then have "normal rooted (rev (p # out))" using 2(6) Cons q True normal_dots [of "rev qs"] by simp
          then show ?thesis using 2(3) [OF skip True Cons q] 2(7) Cons q skip True by simp
        next
          case q: False
          have "normal rooted (rev qs)" using 2(6) Cons normal_butlast by simp
          then show ?thesis using 2(4) [OF skip True Cons q] 2(7) Cons q skip True by simp
        qed
      qed
    qed
  qed
qed simp

lemma clean_parts_fixed: "normal rooted (rev out @ ps) \<Longrightarrow> clean_parts rooted out ps = rev out @ ps"
proof (induction ps arbitrary: out)
  case (Cons p ps)
  have ok: "p \<noteq> []" "p \<noteq> ''.''" using Cons.prems by (auto simp: normal_def part_ok_def)
  have rest: "clean_parts rooted (p # out) ps = rev out @ p # ps" using Cons.IH [of "p # out"] Cons.prems by simp
  show ?case
  proof (cases "p = ''..''")
    case True
    have "out = [] \<or> hd out = ''..''"
    proof (cases out)
      case (Cons q qs)
      have "q = ''..''"
      proof (rule ccontr)
        assume q: "q \<noteq> ''..''"
        have "dropWhile (\<lambda>p. p = ''..'') ((rev qs @ [q]) @ p # ps) = dropWhile (\<lambda>p. p = ''..'') (rev qs @ [q]) @ p # ps"
          by (rule dropWhile_append1 [of q]) (simp_all add: q)
        with Cons.prems True Cons show False unfolding normal_def by simp
      qed
      with Cons show ?thesis by simp
    qed simp
    moreover have "\<not> rooted" using Cons.prems True by (auto simp: normal_def)
    ultimately show ?thesis using rest ok True by (cases out) auto
  qed (use rest ok in simp)
qed simp

lemma Split_append: "Split c (a @ c # b) = Split c a @ Split c b"
proof (induction a)
  case (Cons x a)
  obtain y ys where "Split c a = y # ys" by (cases "Split c a") auto
  with Cons show ?case by simp
qed simp

lemma Split_single: "c \<notin> set s \<Longrightarrow> Split c s = [s]"
  by (induction s) auto

lemma Split_Join: "ps \<noteq> [] \<Longrightarrow> \<forall>p\<in>set ps. c \<notin> set p \<Longrightarrow> Split c (Join ps [c]) = ps"
proof (induction ps "[c]" rule: Join.induct)
  case (3 x y ys)
  then show ?case by (simp add: Split_append Split_single)
qed (simp_all add: Split_single)

lemma Join_snoc: "ps \<noteq> [] \<Longrightarrow> Join (ps @ [n]) sep = Join ps sep @ sep @ n"
  by (induction ps sep rule: Join.induct) auto

text \<open>The parts of a clean path, and the path they make.\<close>

definition path_parts :: "string \<Rightarrow> string list" where
  "path_parts path = clean_parts (HasPrefix path ''/'') [] (Split (CHR ''/'') path)"

definition path_of :: "bool \<Rightarrow> string list \<Rightarrow> string" where
  "path_of rooted ps = (if rooted then CHR ''/'' # Join ps ''/'' else if ps = [] then ''.'' else Join ps ''/'')"

lemma path_parts_normal: "normal (HasPrefix path ''/'') (path_parts path)"
  unfolding path_parts_def using Split_no_sep by (intro clean_parts_normal) auto

lemma Join_empty: "list_all part_ok ps \<Longrightarrow> Join ps ''/'' = [] \<longleftrightarrow> ps = []"
  by (cases ps rule: list.exhaust; cases "tl ps") (auto simp: part_ok_def)

lemma filepath_Clean_parts: "filepath_Clean path = path_of (HasPrefix path ''/'') (path_parts path)"
proof -
  have "list_all part_ok (path_parts path)" using path_parts_normal [of path] by (simp add: normal_def)
  from Join_empty [OF this] show ?thesis by (cases "HasPrefix path ''/''") (simp_all add: filepath_Clean_def path_of_def path_parts_def Let_def)
qed

lemma path_of_prefix: "normal rooted ps \<Longrightarrow> HasPrefix (path_of rooted ps) ''/'' \<longleftrightarrow> rooted"
proof -
  have "\<not> HasPrefix (Join ps ''/'') ''/''" if "list_all part_ok ps" "ps \<noteq> []"
    using that by (cases ps; cases "tl ps"; cases "hd ps") (auto simp: part_ok_def HasPrefix_def)
  then show "normal rooted ps \<Longrightarrow> HasPrefix (path_of rooted ps) ''/'' \<longleftrightarrow> rooted"
    by (auto simp: path_of_def normal_def HasPrefix_def)
qed

lemma path_parts_of: "normal rooted ps \<Longrightarrow> path_parts (path_of rooted ps) = ps"
proof -
  assume n: "normal rooted ps"
  then have sep: "\<forall>p\<in>set ps. CHR ''/'' \<notin> set p" by (auto simp: normal_def list_all_iff part_ok_def)
  have pre: "HasPrefix (path_of rooted ps) ''/'' \<longleftrightarrow> rooted" using path_of_prefix [OF n] .
  have fixed: "clean_parts rooted [] ps = ps" using clean_parts_fixed [of rooted "[]" ps] n by simp
  show ?thesis
  proof (cases "ps = []")
    case True
    then show ?thesis unfolding path_parts_def pre by (cases rooted) (simp_all add: path_of_def)
  next
    case False
    from Split_Join [OF this sep] have "Split (CHR ''/'') (path_of rooted ps) = (if rooted then [] # ps else ps)"
      using False by (simp add: path_of_def)
    then show ?thesis unfolding path_parts_def pre using fixed by (cases rooted) simp_all
  qed
qed

lemma filepath_Clean_idem [simp]: "filepath_Clean (filepath_Clean path) = filepath_Clean path"
  using path_parts_of [OF path_parts_normal [of path]] path_of_prefix [OF path_parts_normal [of path]]
  by (simp add: filepath_Clean_parts)

lemma filepath_Join_child:
  assumes "d \<noteq> []" "filepath_Clean d \<noteq> ''/''" "filepath_Clean d \<noteq> ''.''" "simple_name n"
  shows "filepath_Join d n = filepath_Clean d @ ''/'' @ n"
proof -
  let ?r = "HasPrefix d ''/''"
  have r: "HasPrefix (d @ ''/'' @ n) ''/'' \<longleftrightarrow> ?r" using assms(1) by (cases d) (auto simp: HasPrefix_def)
  have "Split (CHR ''/'') (d @ ''/'' @ n) = Split (CHR ''/'') d @ [n]"
    using assms(4) by (simp add: Split_append Split_single simple_name_def)
  then have parts: "path_parts (d @ ''/'' @ n) = path_parts d @ [n]"
    unfolding path_parts_def r using clean_parts_snoc [OF assms(4)] by simp
  have "path_parts d \<noteq> []" using assms(2,3) by (cases ?r) (auto simp: filepath_Clean_parts path_of_def)
  then show ?thesis unfolding filepath_Join_def filepath_Clean_parts r parts
    using assms(1) Join_snoc [of "path_parts d" n "''/''"] by (simp add: path_of_def)
qed

section \<open>A file system\<close>

datatype fs_node = DirNode int | FileNode int string

type_synonym fs = "(string \<times> fs_node) list"

definition fs_at :: "fs \<Rightarrow> string \<Rightarrow> fs_node option" where
  "fs_at fs path = map_of fs (filepath_Clean path)"

definition fs_put :: "string \<Rightarrow> fs_node \<Rightarrow> fs \<Rightarrow> fs" where
  "fs_put path node fs = AList.update (filepath_Clean path) node fs"

definition fs_del :: "string \<Rightarrow> fs \<Rightarrow> fs" where
  "fs_del path fs = AList.delete (filepath_Clean path) fs"

text \<open>The observations of a file system; \<^verbatim>\<open>os.SameFile\<close> is only asked about one path.\<close>

fun node_info :: "fs_node \<Rightarrow> file_info" where
  "node_info (DirNode perm) = \<lparr>fi_kind = Directory, fi_perm = perm, fi_device = 1, fi_inode = 1\<rparr>"
| "node_info (FileNode perm contents) = \<lparr>fi_kind = Regular, fi_perm = perm, fi_device = 1, fi_inode = 1\<rparr>"

fun node_file :: "fs_node \<Rightarrow> opened_file" where
  "node_file (DirNode perm) = \<lparr>of_stat = Some (node_info (DirNode perm)), of_contents = [], of_fails_after = Some 0\<rparr>"
| "node_file (FileNode perm contents) =
     \<lparr>of_stat = Some (node_info (FileNode perm contents)), of_contents = contents, of_fails_after = None\<rparr>"

definition fs_host :: "host \<Rightarrow> fs \<Rightarrow> host" where
  "fs_host h fs = h\<lparr>os_Lstat := (\<lambda>path. map_option node_info (fs_at fs path)),
     os_Stat := (\<lambda>path. map_option node_info (fs_at fs path)),
     os_Open := (\<lambda>path. map_option node_file (fs_at fs path))\<rparr>"

text \<open>The name of an entry of a directory, when the path is directly below it.\<close>

definition child_name :: "string \<Rightarrow> string \<Rightarrow> string option" where
  "child_name dir path =
     (let front = (if dir = ''/'' then ''/'' else if dir = ''.'' then [] else dir @ ''/'') in
      if HasPrefix path front \<and> simple_name (drop (length front) path)
      then Some (drop (length front) path) else None)"

definition fs_ReadDir :: "fs \<Rightarrow> string \<Rightarrow> string list option" where
  "fs_ReadDir fs dir = (case fs_at fs dir of
     Some (DirNode perm) \<Rightarrow> Some (List.map_filter (\<lambda>(path, node). child_name (filepath_Clean dir) path) fs)
   | _ \<Rightarrow> None)"

definition below :: "string \<Rightarrow> string \<Rightarrow> bool" where
  "below dir path \<longleftrightarrow> path = dir \<or> HasPrefix path (dir @ ''/'')"

text \<open>\<^verbatim>\<open>os.RemoveAll\<close> and \<^verbatim>\<open>os.Remove\<close> of a directory.\<close>

definition fs_RemoveAll :: "string \<Rightarrow> fs \<Rightarrow> fs" where
  "fs_RemoveAll path fs = filter (\<lambda>(p, node). \<not> below (filepath_Clean path) p) fs"

definition fs_empty_dir :: "fs \<Rightarrow> string \<Rightarrow> bool" where
  "fs_empty_dir fs dir \<longleftrightarrow> list_all (\<lambda>(p, node). p = filepath_Clean dir \<or> \<not> below (filepath_Clean dir) p) fs"

lemma fs_at_put: "fs_at (fs_put path node fs) q = (if filepath_Clean q = filepath_Clean path then Some node else fs_at fs q)"
  by (simp add: fs_at_def fs_put_def update_conv')

lemma fs_at_del: "fs_at (fs_del path fs) q = (if filepath_Clean q = filepath_Clean path then None else fs_at fs q)"
  by (simp add: fs_at_def fs_del_def delete_conv' restrict_map_def)

lemma fs_at_RemoveAll:
  "fs_at (fs_RemoveAll path fs) q = (if below (filepath_Clean path) (filepath_Clean q) then None else fs_at fs q)"
  unfolding fs_at_def fs_RemoveAll_def by (simp add: map_of_filter_fst)

lemma fs_distinct:
  "distinct (map fst fs) \<Longrightarrow> distinct (map fst (fs_put path node fs))"
  "distinct (map fst fs) \<Longrightarrow> distinct (map fst (fs_del path fs))"
  by (simp_all add: fs_put_def fs_del_def distinct_update distinct_delete)

lemma fs_host_fields [simp]:
  "os_Lstat (fs_host h fs) path = map_option node_info (fs_at fs path)"
  "os_Open (fs_host h fs) path = map_option node_file (fs_at fs path)"
  "GOOS_windows (fs_host h fs) = GOOS_windows h" "range_order (fs_host h fs) = range_order h"
  by (simp_all add: fs_host_def)

section \<open>Readers on two file systems\<close>

text \<open>A reader sees a file only through \<^verbatim>\<open>Lstat\<close> and \<^verbatim>\<open>Open\<close>, so a moved file reads the same.\<close>

definition same_file :: "host \<Rightarrow> string \<Rightarrow> host \<Rightarrow> string \<Rightarrow> bool" where
  "same_file h p h' p' \<longleftrightarrow> os_Lstat h p = os_Lstat h' p' \<and> os_Open h p = os_Open h' p' \<and> (p = [] \<longleftrightarrow> p' = []) \<and>
     GOOS_windows h = GOOS_windows h' \<and> SimpleFold_orbit h = SimpleFold_orbit h' \<and>
     strconv_Quote h = strconv_Quote h' \<and> json_error_text h = json_error_text h'"

lemma open_same: "same_file h p h' p' \<Longrightarrow> openProtectedFile h setting p = openProtectedFile h' setting p'"
  by (simp add: same_file_def openProtectedFile_def cong: option.case_cong)

lemma bytes_same: "same_file h p h' p' \<Longrightarrow> readSecretBytes h setting p n = readSecretBytes h' setting p' n"
  by (simp add: readSecretBytes_def open_same)

lemma simple_same: "same_file h p h' p' \<Longrightarrow> ReadSimpleSecret h setting p n = ReadSimpleSecret h' setting p' n"
  by (simp add: ReadSimpleSecret_def ReadSecretFile_def bytes_same)

lemma uri_same: "same_file h p h' p' \<Longrightarrow> ReadURISecret h setting p n schemes = ReadURISecret h' setting p' n schemes"
  by (simp add: ReadURISecret_def simple_same)

lemma key_same: "same_file h p h' p' \<Longrightarrow> ReadBase64Key h setting p n = ReadBase64Key h' setting p' n"
  by (simp add: ReadBase64Key_def simple_same)

lemma scan_same:
  assumes "strconv_Quote h = strconv_Quote h'" "json_error_text h = json_error_text h'"
  shows "scanJSONValue h schema d = scanJSONValue h' schema d"
    "scan_fields h flds seen d = scan_fields h' flds seen d"
    "scan_items h schema d = scan_items h' schema d"
  using assms
proof (induction h schema d and h flds seen d and h schema d rule: scanJSONValue_scan_fields_scan_items.induct)
  case (1 h schema d)
  then show ?case
    by (subst (1 2) scanJSONValue.simps)
      (simp add: token_error_def split: outcome.splits prod.splits token.splits jsonSchema.splits)
next
  case (2 h flds seen d)
  then show ?case
    by (subst (1 2) scan_fields.simps)
      (simp add: token_error_def split: outcome.splits prod.splits token.splits json.splits option.splits sum.splits)
next
  case (3 h element d)
  then show ?case
    by (subst (1 2) scan_items.simps) (simp split: sum.splits)
qed

lemma struct_same:
  assumes "SimpleFold_orbit h = SimpleFold_orbit h'"
  shows "decode_struct h flds store x w = decode_struct h' flds store x w"
proof -
  have "struct_field h flds = struct_field h' flds" by (rule ext) (simp add: struct_field_def assms)
  then show ?thesis by (simp add: decode_struct_def split: json.split)
qed

lemma decode_same:
  assumes "SimpleFold_orbit h = SimpleFold_orbit h'"
  shows "decode_ring h = decode_ring h'" "decode_provider h = decode_provider h'"
proof -
  note s = struct_same [OF assms]
  have "decode_entry h = decode_entry h'" by (rule ext) (simp add: decode_entry_def s)
  then have "store_wire h = store_wire h'" by (intro ext) (simp add: store_wire_def)
  then show "decode_ring h = decode_ring h'" "decode_provider h = decode_provider h'"
    by (auto simp: decode_ring_def decode_provider_def s intro!: ext)
qed

lemma strict_same:
  assumes "same_file h p h' p'"
  shows "strictJSON h setting contents dest schema = strictJSON h' setting contents dest schema"
  using assms scan_same(1) [of h h' schema "NewDecoder contents"] unfolding same_file_def strictJSON_def by simp

lemma ring_same:
  assumes "same_file h p h' p'"
  shows "ReadKeyRing h setting p = ReadKeyRing h' setting p'"
proof -
  have "SimpleFold_orbit h = SimpleFold_orbit h'" using assms by (simp add: same_file_def)
  from decode_same(1) [OF this] show ?thesis
    unfolding ReadKeyRing_def bytes_same [OF assms] strict_same [OF assms] by simp
qed

lemma provider_same:
  assumes "same_file h p h' p'"
  shows "ReadProviderKeyRing h p = ReadProviderKeyRing h' p'"
proof -
  have "SimpleFold_orbit h = SimpleFold_orbit h'" using assms by (simp add: same_file_def)
  from decode_same(2) [OF this] show ?thesis
    unfolding ReadProviderKeyRing_def bytes_same [OF assms] strict_same [OF assms] by simp
qed

lemmas readers_same = simple_same uri_same key_same ring_same provider_same

end
