(* ===== verification/Dev_Secrets.thy ===== *)
theory Dev_Secrets
  imports Go_Files Clients "HOL-Library.List_Lexorder" "HOL-Library.Char_ord"
begin

text \<open>
  \<^verbatim>\<open>internal/config/devsecrets.go\<close>: the inventory of development secrets, its validation, the
  translation of logical secret paths to a source directory, and the generator.  The generator
  changes a file system; every system call it makes may fail, and the random bytes are those the
  machine delivers.
\<close>

section \<open>The inventory\<close>

definition DevSecretDirectoryName :: string where
  "DevSecretDirectoryName = ''.local-secrets''"

definition devSecretFiles :: "string list" where
  "devSecretFiles =
     [''api_key_pepper_ring'', ''csrf_secret_ring'', ''postgres_cluster_admin_password'',
      ''postgres_control_plane_password'', ''postgres_gateway_password'', ''postgres_migration_password'',
      ''postgres_worker_password'', ''provider_master_keyring'', ''redis_password'', ''redis_url'', ''session_secret'']"

definition deploymentSecretFiles :: "(string \<times> string) list" where
  "deploymentSecretFiles =
     [(''POSTGRES_PASSWORD_FILE'', ''postgres_cluster_admin_password''),
      (''DATABASE_MIGRATION_PASSWORD_FILE'', ''postgres_migration_password''),
      (''DATABASE_GATEWAY_PASSWORD_FILE'', ''postgres_gateway_password''),
      (''DATABASE_CONTROL_PLANE_PASSWORD_FILE'', ''postgres_control_plane_password''),
      (''DATABASE_WORKER_PASSWORD_FILE'', ''postgres_worker_password''),
      (''REDIS_PASSWORD_FILE'', ''redis_password''),
      (''REDIS_URL_FILE'', ''redis_url''),
      (''MASTER_KEYRING_FILE'', ''provider_master_keyring''),
      (''API_KEY_PEPPER_RING_FILE'', ''api_key_pepper_ring''),
      (''SESSION_SECRET_FILE'', ''session_secret''),
      (''CSRF_SECRET_RING_FILE'', ''csrf_secret_ring'')]"

definition DevSecretFiles :: "string list" where
  "DevSecretFiles = devSecretFiles"

text \<open>The file of a setting; the keys of the map are visited in the order of the host.\<close>

definition secret_file :: "string \<Rightarrow> string" where
  "secret_file setting = (case map_of deploymentSecretFiles setting of None \<Rightarrow> [] | Some f \<Rightarrow> f)"

section \<open>Validation\<close>

definition perm_0700 :: int where "perm_0700 = 448"
definition perm_0600 :: int where "perm_0600 = 384"

definition database_settings :: "string list" where
  "database_settings = [''POSTGRES_PASSWORD_FILE'', ''DATABASE_MIGRATION_PASSWORD_FILE'', ''DATABASE_GATEWAY_PASSWORD_FILE'',
     ''DATABASE_CONTROL_PLANE_PASSWORD_FILE'', ''DATABASE_WORKER_PASSWORD_FILE'']"

definition base64url_cutset :: string where
  "base64url_cutset = ''ABCDEFGHIJKLMNOPQRSTUVWXYZabcdefghijklmnopqrstuvwxyz0123456789_-''"

text \<open>\<^verbatim>\<open>strings.Trim\<close> with an ASCII cutset.\<close>

definition Trim :: "string \<Rightarrow> string \<Rightarrow> string" where
  "Trim s cutset = rev (dropWhile (\<lambda>c. c \<in> set cutset) (rev (dropWhile (\<lambda>c. c \<in> set cutset) s)))"

fun check_modes :: "host \<Rightarrow> (string \<Rightarrow> string) \<Rightarrow> string list \<Rightarrow> go_error + unit" where
  "check_modes h at [] = Inr ()"
| "check_modes h at (name # names) =
     (case os_Lstat h (at name) of
        None \<Rightarrow> Inl ''development secret inventory contains an invalid file''
      | Some info \<Rightarrow>
          guardE (\<not> IsRegular info) ''development secret inventory contains an invalid file''
          (guardE (\<not> GOOS_windows h \<and> fi_perm info \<noteq> perm_0600) ''development secret files must have mode 0600''
          (check_modes h at names)))"

fun database_passwords :: "host \<Rightarrow> (string \<Rightarrow> string) \<Rightarrow> string list \<Rightarrow> string list \<Rightarrow> go_error + unit" where
  "database_passwords h at seen [] = Inr ()"
| "database_passwords h at seen (setting # settings) =
     (if setting \<notin> set database_settings then database_passwords h at seen settings
      else bindE (ReadSimpleSecret h setting (at (secret_file setting)) (4 * 1024)) (\<lambda>secret.
        guardE (Reveal secret \<in> set seen) ''development database passwords must be distinct''
        (database_passwords h at (Reveal secret # seen) settings)))"

text \<open>The checks of the files themselves; \<open>at\<close> gives the path of a name.\<close>

definition check_files :: "host \<Rightarrow> (string \<Rightarrow> string) \<Rightarrow> go_error + unit" where
  "check_files h at =
     bindE (check_modes h at devSecretFiles) (\<lambda>_.
     bindE (database_passwords h at [] (range_order h (map fst deploymentSecretFiles))) (\<lambda>_.
     bindE (ReadSimpleSecret h ''REDIS_PASSWORD_FILE'' (at ''redis_password'') (4 * 1024)) (\<lambda>redisPassword.
     guardE (length (Reveal redisPassword) < 32 \<or> Trim (Reveal redisPassword) base64url_cutset \<noteq> [])
       ''REDIS_PASSWORD_FILE must contain at least 32 base64url characters''
     (bindE (ReadURISecret h ''REDIS_URL_FILE'' (at ''redis_url'') (4 * 1024) [''redis'']) (\<lambda>(secret, redisURL).
      guardE (case User redisURL of
                None \<Rightarrow> True
              | Some ui \<Rightarrow> ui_password ui \<noteq> Some (Reveal redisPassword) \<or> Host redisURL \<noteq> ''redis:6379'' \<or> Path redisURL \<noteq> ''/0'')
        ''REDIS_URL_FILE does not match the generated development Redis contract''
      (bindE (ReadProviderKeyRing h (at ''provider_master_keyring'')) (\<lambda>_.
       bindE (ReadKeyRing h ''API_KEY_PEPPER_RING_FILE'' (at ''api_key_pepper_ring'')) (\<lambda>_.
       bindE (ReadBase64Key h ''SESSION_SECRET_FILE'' (at ''session_secret'') (4 * 1024)) (\<lambda>_.
       bindE (ReadKeyRing h ''CSRF_SECRET_RING_FILE'' (at ''csrf_secret_ring'')) (\<lambda>_.
       Inr ()))))))))))"

definition ValidateDevSecrets :: "host \<Rightarrow> (string \<Rightarrow> string list option) \<Rightarrow> string \<Rightarrow> go_error + unit" where
  "ValidateDevSecrets h os_ReadDir directory =
     (case os_Lstat h directory of
        None \<Rightarrow> Inl ''development secret root must be a directory, not a symbolic link''
      | Some info \<Rightarrow>
          guardE (fi_kind info \<noteq> Directory) ''development secret root must be a directory, not a symbolic link''
          (guardE (\<not> GOOS_windows h \<and> fi_perm info \<noteq> perm_0700) ''development secret root must have mode 0700''
          (case os_ReadDir directory of
             None \<Rightarrow> Inl ''read development secret inventory: unavailable''
           | Some entries \<Rightarrow>
               guardE (Join (sort entries) [CHR 0x00] \<noteq> Join devSecretFiles [CHR 0x00])
                 (''development secret inventory must contain exactly '' @ FormatInt (int (length devSecretFiles)) @ '' allowlisted files'')
               (check_files h (filepath_Join directory)))))"

section \<open>Source directories\<close>

definition logical_path :: "string \<Rightarrow> string" where
  "logical_path name = ''/run/secrets/'' @ name"

fun resolve_secrets :: "string \<Rightarrow> string list \<Rightarrow> env \<Rightarrow> go_error + env" where
  "resolve_secrets root [] resolved = Inr resolved"
| "resolve_secrets root (setting # settings) resolved =
     (let logical = logical_path (secret_file setting);
          val = (case map_of resolved setting of None \<Rightarrow> logical | Some x \<Rightarrow> x)
      in guardE (val \<noteq> logical) (setting @ '' must equal '' @ logical @ '' when --secret-root is used'')
         (resolve_secrets root settings (AList.update setting (filepath_Join root (secret_file setting)) resolved)))"

definition ResolveDeploymentSecretRoot :: "host \<Rightarrow> (string \<Rightarrow> string list option) \<Rightarrow> env \<Rightarrow> string \<Rightarrow> go_error + env" where
  "ResolveDeploymentSecretRoot h os_ReadDir values root =
     bindE (ValidateDevSecrets h os_ReadDir root) (\<lambda>_.
     resolve_secrets root (range_order h (map fst deploymentSecretFiles)) values)"

definition cloudflareSecretFiles :: "(string \<times> string) list" where
  "cloudflareSecretFiles =
     [(''ACME_DNS_API_TOKEN_FILE'', ''acme_dns_api_token''),
      (''CLOUDFLARE_TUNNEL_CREDENTIALS_FILE'', ''cloudflare_tunnel_credentials.json'')]"

definition cloudflare_expected :: "string list" where
  "cloudflare_expected = [''acme_dns_api_token'', ''cloudflare_tunnel_credentials.json'']"

fun resolve_cloudflare :: "host \<Rightarrow> string \<Rightarrow> string list \<Rightarrow> env \<Rightarrow> go_error + env" where
  "resolve_cloudflare h root [] resolved = Inr resolved"
| "resolve_cloudflare h root (setting # settings) resolved =
     (let name = (case map_of cloudflareSecretFiles setting of None \<Rightarrow> [] | Some f \<Rightarrow> f);
          logical = logical_path name;
          val = (case map_of resolved setting of None \<Rightarrow> [] | Some x \<Rightarrow> x);
          path = filepath_Join root name
      in guardE (val \<noteq> [] \<and> val \<noteq> logical) (setting @ '' must equal '' @ logical @ '' when --cloudflare-secret-root is used'')
         (bindE (validateProtectedFile h setting path) (\<lambda>_.
          resolve_cloudflare h root settings (AList.update setting path resolved))))"

definition ResolveCloudflareSecretRoot :: "host \<Rightarrow> (string \<Rightarrow> string list option) \<Rightarrow> env \<Rightarrow> string \<Rightarrow> go_error + env" where
  "ResolveCloudflareSecretRoot h os_ReadDir values root =
     guardE (root = []) ''Cloudflare secret root is required''
     (case os_Lstat h root of
        None \<Rightarrow> Inl ''Cloudflare secret root must be a directory''
      | Some info \<Rightarrow>
          guardE (fi_kind info \<noteq> Directory) ''Cloudflare secret root must be a directory''
          (guardE (\<not> GOOS_windows h \<and> fi_perm info \<noteq> perm_0700) ''Cloudflare secret root must have mode 0700''
          (case os_ReadDir root of
             None \<Rightarrow> Inl ''Cloudflare secret inventory differs from the exact allowlist''
           | Some entries \<Rightarrow>
               guardE (length entries \<noteq> length cloudflare_expected) ''Cloudflare secret inventory differs from the exact allowlist''
               (guardE (sort entries \<noteq> cloudflare_expected) ''Cloudflare secret inventory differs from the exact allowlist''
               (resolve_cloudflare h root (range_order h (map fst cloudflareSecretFiles)) values)))))"

section \<open>The generator\<close>

datatype syscall =
    SysLstat
  | SysMkdirTemp
  | SysChmod
  | SysCreate string
  | SysWrite string
  | SysClose string
  | SysMkdir
  | SysRename string
  | SysRemove

text \<open>
  What the machine contributes: which calls fail, the bytes of each read of the random source, the
  suffix of the temporary directory and how much of a failing write reaches the file.
\<close>

record world =
  w_fails :: "syscall \<Rightarrow> bool"
  w_random :: "nat \<Rightarrow> string option"
  w_suffix :: string
  w_partial :: nat

type_synonym 'a io = "fs \<Rightarrow> (go_error + 'a) \<times> fs"

definition ioBind :: "'a io \<Rightarrow> ('a \<Rightarrow> 'b io) \<Rightarrow> 'b io" where
  "ioBind m f s = (case m s of (Inl e, s') \<Rightarrow> (Inl e, s') | (Inr x, s') \<Rightarrow> f x s')"

definition ioPure :: "go_error + 'a \<Rightarrow> 'a io" where
  "ioPure r s = (r, s)"

fun ioEach :: "('a \<Rightarrow> unit io) \<Rightarrow> 'a list \<Rightarrow> unit io" where
  "ioEach f [] = ioPure (Inr ())"
| "ioEach f (x # xs) = ioBind (f x) (\<lambda>_. ioEach f xs)"

definition RawURLEncoding :: "string \<Rightarrow> string" where
  "RawURLEncoding bytes = map (\<lambda>c. if c = CHR ''+'' then CHR ''-'' else if c = CHR ''/'' then CHR ''_'' else c)
     (filter (\<lambda>c. c \<noteq> CHR ''='') (EncodeToString bytes))"

definition randomBase64URL :: "world \<Rightarrow> nat \<Rightarrow> go_error + string" where
  "randomBase64URL w k = (case w_random w k of
     None \<Rightarrow> Inl ''generate development secret: secure randomness unavailable''
   | Some bytes \<Rightarrow> Inr (RawURLEncoding bytes))"

definition randomBase64 :: "world \<Rightarrow> nat \<Rightarrow> go_error + string" where
  "randomBase64 w k = (case w_random w k of
     None \<Rightarrow> Inl ''generate development key: secure randomness unavailable''
   | Some bytes \<Rightarrow> Inr (EncodeToString bytes))"

text \<open>\<^verbatim>\<open>O_CREATE|O_EXCL\<close>: an existing path, or a directory that does not exist, is an error.\<close>

definition writeNewSecret :: "world \<Rightarrow> string \<Rightarrow> string \<Rightarrow> string \<Rightarrow> unit io" where
  "writeNewSecret w directory name contents s =
     (let path = filepath_Join directory name in
      if w_fails w (SysCreate name) \<or> fs_at s path \<noteq> None \<or> fs_at s directory = None
      then (Inl ''create development secret file: unavailable'', s)
      else if w_fails w (SysWrite name)
      then (Inl ''write development secret file: unavailable'', fs_put path (FileNode perm_0600 (take (w_partial w) contents)) s)
      else if w_fails w (SysClose name)
      then (Inl ''close development secret file: unavailable'', fs_put path (FileNode perm_0600 contents) s)
      else (Inr (), fs_put path (FileNode perm_0600 contents) s))"

definition quote :: "string \<Rightarrow> string" where
  "quote s = [CHR 0x22] @ s @ [CHR 0x22]"

text \<open>\<^verbatim>\<open>json.Marshal\<close> of the two ring structs with one key; none of the strings needs an escape.\<close>

definition keys_json :: "string \<Rightarrow> string \<Rightarrow> string" where
  "keys_json keyID key = quote ''keys'' @ '':[{'' @ quote ''key_id'' @ '':'' @ quote keyID @ '','' @ quote ''key'' @ '':'' @ quote key @ ''}]''"

definition provider_json :: "string \<Rightarrow> string" where
  "provider_json key = ''{'' @ quote ''version'' @ '':1,'' @ quote ''expected_epoch'' @ '':1,'' @
     quote ''active_key_id'' @ '':'' @ quote ''provider-dev-1'' @ '','' @ keys_json ''provider-dev-1'' key @ ''}''"

definition ring_json :: "string \<Rightarrow> string \<Rightarrow> string" where
  "ring_json keyID key = ''{'' @ quote ''version'' @ '':1,'' @
     quote ''active_key_id'' @ '':'' @ quote keyID @ '','' @ keys_json keyID key @ ''}''"

definition writeJSONSecret :: "world \<Rightarrow> string \<Rightarrow> string \<Rightarrow> string \<Rightarrow> unit io" where
  "writeJSONSecret w directory name contents = writeNewSecret w directory name contents"

definition password_names :: "(nat \<times> string) list" where
  "password_names = [(0, ''postgres_cluster_admin_password''), (1, ''postgres_migration_password''),
     (2, ''postgres_gateway_password''), (3, ''postgres_control_plane_password''),
     (4, ''postgres_worker_password''), (5, ''redis_password'')]"

definition redis_dev_url :: "string \<Rightarrow> string" where
  "redis_dev_url password = URL_String (empty_URL\<lparr>Scheme := ''redis'', Host := ''redis:6379'', Path := ''/0'',
     User := Some \<lparr>ui_username = [], ui_password = Some password\<rparr>\<rparr>)"

text \<open>Writing the inventory into the temporary directory and validating it there.\<close>

definition populate :: "host \<Rightarrow> world \<Rightarrow> string \<Rightarrow> unit io" where
  "populate h w temporary =
     ioBind (ioEach (\<lambda>(k, name). ioBind (ioPure (randomBase64URL w k)) (\<lambda>value. writeNewSecret w temporary name value)) password_names) (\<lambda>_.
     ioBind (ioPure (randomBase64URL w 5)) (\<lambda>redisPassword.
     ioBind (writeNewSecret w temporary ''redis_url'' (redis_dev_url redisPassword)) (\<lambda>_.
     ioBind (ioPure (randomBase64 w 6)) (\<lambda>providerKey.
     ioBind (writeJSONSecret w temporary ''provider_master_keyring'' (provider_json providerKey)) (\<lambda>_.
     ioBind (ioEach (\<lambda>(k, name, keyID). ioBind (ioPure (randomBase64 w k)) (\<lambda>key. writeJSONSecret w temporary name (ring_json keyID key)))
       [(7, ''api_key_pepper_ring'', ''api-pepper-dev-1''), (8, ''csrf_secret_ring'', ''csrf-dev-1'')]) (\<lambda>_.
     ioBind (ioPure (randomBase64 w 9)) (\<lambda>sessionKey.
     ioBind (writeNewSecret w temporary ''session_secret'' sessionKey) (\<lambda>_ s.
     (case ValidateDevSecrets (fs_host h s) (fs_ReadDir s) temporary of
        Inl e \<Rightarrow> Inl (''validate generated development secret inventory: '' @ e)
      | Inr u \<Rightarrow> Inr (), s)))))))))"

definition rename_one :: "world \<Rightarrow> string \<Rightarrow> string \<Rightarrow> string \<Rightarrow> unit io" where
  "rename_one w temporary directory name s =
     (case fs_at s (filepath_Join temporary name) of
        None \<Rightarrow> (Inl ''publish development secret inventory: destination is incomplete'', s)
      | Some node \<Rightarrow>
          if w_fails w (SysRename name) then (Inl ''publish development secret inventory: destination is incomplete'', s)
          else (Inr (), fs_put (filepath_Join directory name) node (fs_del (filepath_Join temporary name) s)))"

definition publish :: "world \<Rightarrow> string \<Rightarrow> string \<Rightarrow> unit io" where
  "publish w temporary directory =
     ioBind (\<lambda>s. if w_fails w SysMkdir \<or> fs_at s directory \<noteq> None
       then (Inl ''publish development secret inventory: destination already exists or is unavailable'', s)
       else (Inr (), fs_put directory (DirNode perm_0700) s)) (\<lambda>_.
     ioBind (ioEach (rename_one w temporary directory) devSecretFiles) (\<lambda>_ s.
     if w_fails w SysRemove \<or> \<not> fs_empty_dir s temporary
     then (Inl ''publish development secret inventory: temporary directory cleanup failed'', s)
     else (Inr (), fs_del temporary s)))"

definition temporary_name :: "world \<Rightarrow> string" where
  "temporary_name w = ''.nexusrelay-dev-secrets-'' @ w_suffix w"

definition temporary_path :: "world \<Rightarrow> string \<Rightarrow> string" where
  "temporary_path w parent =
     (if HasSuffix parent ''/'' then parent else parent @ ''/'') @ temporary_name w"

definition chmod_0700 :: "world \<Rightarrow> string \<Rightarrow> unit io" where
  "chmod_0700 w path s =
     (if w_fails w SysChmod then (Inl ''protect development secret directory: unavailable'', s)
      else (Inr (), fs_put path (DirNode perm_0700) s))"

text \<open>Everything between the creation of the temporary directory and its deferred removal.\<close>

definition staged :: "host \<Rightarrow> world \<Rightarrow> string \<Rightarrow> string \<Rightarrow> unit io" where
  "staged h w temporary directory s =
     ioBind (chmod_0700 w temporary) (\<lambda>_. ioBind (populate h w temporary) (\<lambda>_. publish w temporary directory))
       (fs_put temporary (DirNode perm_0700) s)"

definition GenerateDevSecrets :: "host \<Rightarrow> world \<Rightarrow> string \<Rightarrow> unit io" where
  "GenerateDevSecrets h w directory s =
     (if directory = [] then (Inl ''output directory is required'', s)
      else if w_fails w SysLstat then (Inl ''inspect development secret directory: unavailable'', s)
      else if fs_at s directory \<noteq> None then
        (case ValidateDevSecrets (fs_host h s) (fs_ReadDir s) directory of
           Inl e \<Rightarrow> (Inl ''existing development secret inventory is not complete and valid; refusing to overwrite'', s)
         | Inr u \<Rightarrow> (Inr (), s))
      else case fs_at s (filepath_Dir directory) of
        Some (DirNode perm) \<Rightarrow>
          (let temporary = temporary_path w (filepath_Dir directory) in
           if w_fails w SysMkdirTemp \<or> fs_at s temporary \<noteq> None
           then (Inl ''create development secret inventory: unavailable'', s)
           else case staged h w temporary directory s of
             (Inl e, s') \<Rightarrow> (Inl e, fs_RemoveAll temporary s')
           | (Inr u, s') \<Rightarrow> (Inr (), s'))
      | _ \<Rightarrow> (Inl ''output parent directory is unavailable'', s))"

section \<open>Names and paths\<close>

lemma dev_names: "list_all simple_name devSecretFiles" "distinct devSecretFiles" "sorted devSecretFiles"
  by code_simp+

lemma dev_simple: "n \<in> set devSecretFiles \<Longrightarrow> simple_name n"
  using dev_names(1) by (simp add: list_all_iff)

lemma simple_no_slash: "simple_name n \<Longrightarrow> CHR ''/'' \<notin> set n"
  by (simp add: simple_name_def)

lemma slash_inject:
  assumes "CHR ''/'' \<notin> set n" "CHR ''/'' \<notin> set m"
  shows "a @ ''/'' @ n = b @ ''/'' @ m \<longleftrightarrow> a = b \<and> n = m"
proof
  assume "a @ ''/'' @ n = b @ ''/'' @ m"
  then have "from_last (CHR ''/'') (a @ CHR ''/'' # n) = from_last (CHR ''/'') (b @ CHR ''/'' # m)" by simp
  then show "a = b \<and> n = m" using assms by (simp add: from_last_append)
qed simp

lemma Clean_nonempty [simp]: "filepath_Clean d \<noteq> []"
proof -
  have "list_all part_ok (path_parts d)" using path_parts_normal [of d] by (simp add: normal_def)
  from Join_empty [OF this] show ?thesis by (simp add: filepath_Clean_parts path_of_def)
qed

definition proper_dir :: "string \<Rightarrow> bool" where
  "proper_dir d \<longleftrightarrow> d \<noteq> [] \<and> filepath_Clean d \<noteq> ''/'' \<and> filepath_Clean d \<noteq> ''.''"

lemma Join_proper: "proper_dir d \<Longrightarrow> simple_name n \<Longrightarrow> filepath_Join d n = filepath_Clean d @ ''/'' @ n"
  unfolding proper_dir_def by (intro filepath_Join_child) simp_all

lemma Clean_Join [simp]: "filepath_Clean (filepath_Join d n) = filepath_Join d n"
  by (simp add: filepath_Join_def)

lemma Join_nonempty [simp]: "filepath_Join d n \<noteq> []"
  by (simp add: filepath_Join_def)

lemma Join_not_dir: "proper_dir d \<Longrightarrow> simple_name n \<Longrightarrow> filepath_Join d n \<noteq> filepath_Clean d"
  by (simp add: Join_proper)

lemma Join_inject:
  "proper_dir d \<Longrightarrow> proper_dir d' \<Longrightarrow> simple_name n \<Longrightarrow> simple_name m \<Longrightarrow>
     filepath_Join d n = filepath_Join d' m \<longleftrightarrow> filepath_Clean d = filepath_Clean d' \<and> n = m"
  by (simp only: Join_proper) (rule slash_inject; rule simple_no_slash)

lemma below_Join: "proper_dir d \<Longrightarrow> simple_name n \<Longrightarrow> below (filepath_Clean d) (filepath_Join d n)"
  by (simp add: Join_proper below_def HasPrefix_def)

lemma path_parts_slash: "simple_name n \<Longrightarrow> path_parts (d @ ''/'' @ n) = clean_parts (HasPrefix (d @ ''/'') ''/'') [] (Split (CHR ''/'') d) @ [n]"
proof -
  assume n: "simple_name n"
  have "HasPrefix (d @ ''/'' @ n) ''/'' = HasPrefix (d @ ''/'') ''/''" by (cases d) (auto simp: HasPrefix_def)
  then show ?thesis using n by (simp add: path_parts_def Split_append Split_single simple_no_slash clean_parts_snoc)
qed

lemma slash_proper: "simple_name n \<Longrightarrow> proper_dir (d @ ''/'' @ n)"
proof -
  assume n: "simple_name n"
  let ?ps = "clean_parts (HasPrefix (d @ ''/'') ''/'') [] (Split (CHR ''/'') d)"
  have parts: "path_parts (d @ ''/'' @ n) = ?ps @ [n]" using path_parts_slash [OF n] .
  have "Join (?ps @ [n]) ''/'' \<noteq> []" "Join (?ps @ [n]) ''/'' \<noteq> ''.''"
    using n Join_snoc [of ?ps n "''/''"] by (cases "?ps = []"; auto simp: simple_name_def append_eq_Cons_conv)+
  moreover have "HasPrefix (path_of (HasPrefix (d @ ''/'' @ n) ''/'') (?ps @ [n])) ''/'' = HasPrefix (d @ ''/'' @ n) ''/''"
    using path_of_prefix [OF path_parts_normal [of "d @ ''/'' @ n"]] unfolding parts .
  ultimately show ?thesis unfolding proper_dir_def filepath_Clean_parts parts
    by (cases "HasPrefix (d @ ''/'' @ n) ''/''") (auto simp: path_of_def HasPrefix_def)
qed

lemma temporary_slash: "\<exists>d. temporary_path w parent = d @ ''/'' @ temporary_name w"
proof (cases "HasSuffix parent ''/''")
  case True
  then obtain t where "parent = t @ ''/''" by (auto simp: HasSuffix_iff)
  then show ?thesis using True by (auto simp: temporary_path_def)
qed (auto simp: temporary_path_def)

section \<open>Checks on a moved inventory\<close>

lemma modes_same:
  "(\<And>n. n \<in> set names \<Longrightarrow> same_file h (at1 n) h' (at2 n)) \<Longrightarrow> check_modes h at1 names = check_modes h' at2 names"
proof (induction names)
  case (Cons n names)
  then have "same_file h (at1 n) h' (at2 n)" "check_modes h at1 names = check_modes h' at2 names" by simp_all
  then show ?case by (simp add: same_file_def cong: option.case_cong)
qed simp

lemma database_files: "setting \<in> set database_settings \<Longrightarrow> secret_file setting \<in> set devSecretFiles"
proof -
  have "list_all (\<lambda>setting. secret_file setting \<in> set devSecretFiles) database_settings" by code_simp
  then show "setting \<in> set database_settings \<Longrightarrow> secret_file setting \<in> set devSecretFiles" by (simp add: list_all_iff)
qed

lemma passwords_same:
  assumes "\<And>n. n \<in> set devSecretFiles \<Longrightarrow> same_file h (at1 n) h' (at2 n)"
  shows "database_passwords h at1 seen settings = database_passwords h' at2 seen settings"
proof (induction settings arbitrary: seen)
  case (Cons setting settings)
  show ?case
  proof (cases "setting \<in> set database_settings")
    case True
    from simple_same [OF assms [OF database_files [OF this]]] show ?thesis using True Cons.IH by simp
  qed (use Cons.IH in simp)
qed simp

lemma files_same:
  assumes same: "\<And>n. n \<in> set devSecretFiles \<Longrightarrow> same_file h (at1 n) h' (at2 n)" and "range_order h = range_order h'"
  shows "check_files h at1 = check_files h' at2"
proof -
  have "same_file h (at1 n) h' (at2 n)" if "list_ex ((=) n) devSecretFiles" for n
    using that same by (auto simp: list_ex_iff)
  then have s: "same_file h (at1 ''redis_password'') h' (at2 ''redis_password'')" "same_file h (at1 ''redis_url'') h' (at2 ''redis_url'')"
    "same_file h (at1 ''provider_master_keyring'') h' (at2 ''provider_master_keyring'')"
    "same_file h (at1 ''api_key_pepper_ring'') h' (at2 ''api_key_pepper_ring'')"
    "same_file h (at1 ''session_secret'') h' (at2 ''session_secret'')" "same_file h (at1 ''csrf_secret_ring'') h' (at2 ''csrf_secret_ring'')"
    by (simp_all add: devSecretFiles_def)
  have m: "check_modes h at1 devSecretFiles = check_modes h' at2 devSecretFiles" by (rule modes_same) (rule same)
  have p: "database_passwords h at1 seen settings = database_passwords h' at2 seen settings" for seen settings
    by (rule passwords_same) (rule same)
  show ?thesis unfolding check_files_def assms(2) m p
      simple_same [OF s(1)] uri_same [OF s(2)] provider_same [OF s(3)] ring_same [OF s(4)] key_same [OF s(5)] ring_same [OF s(6)]
    by (rule refl)
qed

section \<open>What an operation may touch\<close>

text \<open>
  The frame of an operation: keys outside it keep their node, on every path and every fault, and
  the keys stay distinct.
\<close>

locale framed =
  fixes touched :: "string \<Rightarrow> bool"
begin

definition keeps :: "'a io \<Rightarrow> bool" where
  "keeps m \<longleftrightarrow> (\<forall>s r s'. m s = (r, s') \<longrightarrow>
     (\<forall>q. \<not> touched (filepath_Clean q) \<longrightarrow> fs_at s' q = fs_at s q) \<and> (distinct (map fst s) \<longrightarrow> distinct (map fst s')))"

lemma keepsI:
  "(\<And>s r s'. m s = (r, s') \<Longrightarrow> (\<forall>q. \<not> touched (filepath_Clean q) \<longrightarrow> fs_at s' q = fs_at s q) \<and>
     (distinct (map fst s) \<longrightarrow> distinct (map fst s'))) \<Longrightarrow> keeps m"
  unfolding keeps_def by blast

lemma keeps_at: "keeps m \<Longrightarrow> m s = (r, s') \<Longrightarrow> \<not> touched (filepath_Clean q) \<Longrightarrow> fs_at s' q = fs_at s q"
  unfolding keeps_def by blast

lemma keeps_distinct: "keeps m \<Longrightarrow> m s = (r, s') \<Longrightarrow> distinct (map fst s) \<Longrightarrow> distinct (map fst s')"
  unfolding keeps_def by blast

lemma keeps_pure [intro]: "keeps (ioPure r)"
  by (simp add: keeps_def ioPure_def)

lemma keeps_bind [intro]:
  assumes "keeps m" "\<And>x. keeps (f x)"
  shows "keeps (ioBind m f)"
proof (rule keepsI)
  fix s r s'
  assume run: "ioBind m f s = (r, s')"
  obtain r1 s1 where m: "m s = (r1, s1)" by (cases "m s")
  note k = keeps_at [OF assms(1) m] keeps_distinct [OF assms(1) m]
  show "(\<forall>q. \<not> touched (filepath_Clean q) \<longrightarrow> fs_at s' q = fs_at s q) \<and> (distinct (map fst s) \<longrightarrow> distinct (map fst s'))"
  proof (cases r1)
    case (Inl e)
    then show ?thesis using run m k by (simp add: ioBind_def)
  next
    case (Inr x)
    then have f: "f x s1 = (r, s')" using run m by (simp add: ioBind_def)
    show ?thesis using keeps_at [OF assms(2) f] keeps_distinct [OF assms(2) f] k by simp
  qed
qed

lemma keeps_each [intro]: "(\<And>x. x \<in> set xs \<Longrightarrow> keeps (f x)) \<Longrightarrow> keeps (ioEach f xs)"
  by (induction xs) (auto intro!: keeps_bind)

lemma keeps_check: "keeps (\<lambda>s. (check s, s))"
  by (rule keepsI) simp

lemma keeps_put: "touched (filepath_Clean path) \<Longrightarrow> \<forall>s r s'. m s = (r, s') \<longrightarrow> s' = s \<or> (\<exists>node. s' = fs_put path node s) \<Longrightarrow> keeps m"
  by (rule keepsI) (metis fs_at_put fs_distinct(1))

end

interpretation in_temporary: framed "below (filepath_Clean temporary)" for temporary .

interpretation in_both: framed "\<lambda>p. below (filepath_Clean temporary) p \<or> below (filepath_Clean directory) p" for temporary directory .

lemma write_cases:
  "writeNewSecret w directory name contents s = (r, s') \<Longrightarrow> s' = s \<or> (\<exists>node. s' = fs_put (filepath_Join directory name) node s)"
  by (auto simp: writeNewSecret_def Let_def split: if_splits)

lemma write_keeps: "proper_dir t \<Longrightarrow> simple_name n \<Longrightarrow> in_temporary.keeps t (writeNewSecret w t n contents)"
  by (rule in_temporary.keeps_put [of _ "filepath_Join t n"]) (auto simp: below_Join dest: write_cases)

lemma name_checks: "simple_name ''redis_url'' \<and> simple_name ''provider_master_keyring'' \<and> simple_name ''session_secret'' \<and>
    simple_name ''api_key_pepper_ring'' \<and> simple_name ''csrf_secret_ring''" "list_all (\<lambda>(k, n). simple_name n) password_names"
  by code_simp+

lemma random_write_keeps:
  "proper_dir t \<Longrightarrow> simple_name n \<Longrightarrow> in_temporary.keeps t (ioBind (ioPure r) (\<lambda>x. writeNewSecret w t n (g x)))"
  by (intro in_temporary.keeps_bind in_temporary.keeps_pure write_keeps)

lemma populate_keeps:
  assumes t: "proper_dir t"
  shows "in_temporary.keeps t (populate h w t)"
proof -
  have passwords: "in_temporary.keeps t (ioEach (\<lambda>(k, name). ioBind (ioPure (randomBase64URL w k)) (\<lambda>value. writeNewSecret w t name value)) password_names)"
    using name_checks(2) by (intro in_temporary.keeps_each) (auto simp: list_all_iff intro!: random_write_keeps [OF t, of _ _ _ "\<lambda>x. x"])
  have rings: "in_temporary.keeps t (ioEach (\<lambda>(k, name, keyID). ioBind (ioPure (randomBase64 w k)) (\<lambda>key. writeNewSecret w t name (ring_json keyID key)))
       [(7, ''api_key_pepper_ring'', ''api-pepper-dev-1''), (8, ''csrf_secret_ring'', ''csrf-dev-1'')])"
    using name_checks(1) by (intro in_temporary.keeps_each) (auto intro!: random_write_keeps [OF t])
  show ?thesis unfolding populate_def writeJSONSecret_def using name_checks(1)
    by (intro in_temporary.keeps_bind in_temporary.keeps_pure in_temporary.keeps_check passwords rings write_keeps t) blast+
qed

lemma rename_cases:
  "rename_one w t d n s = (r, s') \<Longrightarrow> s' = s \<or> (\<exists>node. s' = fs_put (filepath_Join d n) node (fs_del (filepath_Join t n) s))"
  by (auto simp: rename_one_def split: option.splits if_splits)

lemma rename_keeps:
  assumes "proper_dir t" "proper_dir d" "simple_name n"
  shows "in_both.keeps t d (rename_one w t d n)"
proof (rule in_both.keepsI)
  fix s r s'
  assume "rename_one w t d n s = (r, s')"
  from rename_cases [OF this] show "(\<forall>q. \<not> (below (filepath_Clean t) (filepath_Clean q) \<or> below (filepath_Clean d) (filepath_Clean q)) \<longrightarrow>
      fs_at s' q = fs_at s q) \<and> (distinct (map fst s) \<longrightarrow> distinct (map fst s'))"
    using below_Join [OF assms(1,3)] below_Join [OF assms(2,3)]
    by (auto simp: fs_at_put fs_at_del fs_distinct)
qed

lemma publish_keeps:
  assumes "proper_dir t" "proper_dir d"
  shows "in_both.keeps t d (publish w t d)"
proof -
  have mkdir: "in_both.keeps t d (\<lambda>s. if w_fails w SysMkdir \<or> fs_at s d \<noteq> None
       then (Inl ''publish development secret inventory: destination already exists or is unavailable'', s)
       else (Inr (), fs_put d (DirNode perm_0700) s))"
    by (rule in_both.keeps_put [of _ _ d]) (auto simp: below_def split: if_splits)
  have remove: "in_both.keeps t d (\<lambda>s. if w_fails w SysRemove \<or> \<not> fs_empty_dir s t
     then (Inl ''publish development secret inventory: temporary directory cleanup failed'', s)
     else (Inr (), fs_del t s))"
    by (rule in_both.keepsI) (auto simp: fs_at_del fs_distinct below_def split: if_splits)
  show ?thesis unfolding publish_def
    by (intro in_both.keeps_bind mkdir remove in_both.keeps_each rename_keeps [OF assms] dev_simple)
qed

lemma rename_effect:
  assumes t: "proper_dir t" and d: "proper_dir d" and ne: "filepath_Clean t \<noteq> filepath_Clean d"
  shows "distinct names \<Longrightarrow> \<forall>n\<in>set names. simple_name n \<Longrightarrow> ioEach (rename_one w t d) names s = (Inr (), s') \<Longrightarrow>
    (\<forall>n\<in>set names. fs_at s' (filepath_Join d n) = fs_at s (filepath_Join t n)) \<and>
    (\<forall>q. (\<forall>n\<in>set names. filepath_Clean q \<noteq> filepath_Join d n \<and> filepath_Clean q \<noteq> filepath_Join t n) \<longrightarrow> fs_at s' q = fs_at s q)"
proof (induction names arbitrary: s)
  case Nil
  then show ?case by (simp add: ioPure_def)
next
  case (Cons n names)
  from Cons.prems(3) obtain s1 where one: "rename_one w t d n s = (Inr (), s1)" and rest: "ioEach (rename_one w t d) names s1 = (Inr (), s')"
    by (auto simp: ioBind_def split: prod.splits sum.splits)
  from one obtain node where node: "fs_at s (filepath_Join t n) = Some node"
    "s1 = fs_put (filepath_Join d n) node (fs_del (filepath_Join t n) s)"
    by (auto simp: rename_one_def split: option.splits if_splits)
  note IH = Cons.IH [OF _ _ rest]
  have inj: "filepath_Join a m \<noteq> filepath_Join b n" if "m \<in> set names" "a \<in> {t, d}" "b \<in> {t, d}" for a b m
    using that Cons.prems(1,2) t d Join_inject [of a b m n] by auto
  have dn: "filepath_Join d n \<noteq> filepath_Join t n" using Join_inject [OF d t, of n n] ne Cons.prems(2) by auto
  have at1: "fs_at s1 q = (if filepath_Clean q = filepath_Join d n then Some node
      else if filepath_Clean q = filepath_Join t n then None else fs_at s q)" for q
    by (simp add: node(2) fs_at_put fs_at_del)
  have "fs_at s' (filepath_Join d m) = fs_at s (filepath_Join t m)" if "m \<in> set (n # names)" for m
  proof (cases "m = n")
    case True
    have "fs_at s' (filepath_Join d n) = fs_at s1 (filepath_Join d n)"
      using IH Cons.prems(1,2) inj by (metis Clean_Join insert_iff distinct.simps(2) list.set_intros(2))
    then show ?thesis using True node(1) by (simp add: at1)
  next
    case False
    then have m: "m \<in> set names" using that by simp
    then have "fs_at s' (filepath_Join d m) = fs_at s1 (filepath_Join t m)" using IH Cons.prems(1,2) by simp
    then show ?thesis using inj [OF m] by (simp add: at1)
  qed
  moreover have "fs_at s' q = fs_at s q" if "\<forall>m\<in>set (n # names). filepath_Clean q \<noteq> filepath_Join d m \<and> filepath_Clean q \<noteq> filepath_Join t m" for q
    using that IH Cons.prems(1,2) by (simp add: at1)
  ultimately show ?case by blast
qed

section \<open>Publication\<close>

lemma child_name_iff:
  assumes "D \<noteq> ''/''" "D \<noteq> ''.''"
  shows "child_name D p = Some n \<longleftrightarrow> p = D @ ''/'' @ n \<and> simple_name n"
proof
  assume "child_name D p = Some n"
  then have "HasPrefix p (D @ ''/'')" "n = drop (length (D @ ''/'')) p" "simple_name n"
    using assms by (auto simp: child_name_def Let_def split: if_splits)
  then show "p = D @ ''/'' @ n \<and> simple_name n" by (auto simp: HasPrefix_def dest: take_append_drop_eq)
next
  assume "p = D @ ''/'' @ n \<and> simple_name n"
  then show "child_name D p = Some n" using assms by (simp add: child_name_def Let_def HasPrefix_def)
qed

lemma distinct_map_filter:
  assumes "distinct (map fst s)" "\<And>p q n. f p = Some n \<Longrightarrow> f q = Some n \<Longrightarrow> p = q"
  shows "distinct (List.map_filter (\<lambda>(p, x). f p) s)"
  using assms(1)
proof (induction s)
  case (Cons px s)
  obtain p x where px: "px = (p, x)" by (cases px)
  have "n \<notin> set (List.map_filter (\<lambda>(p, x). f p) s)" if n: "f p = Some n" for n
  proof
    assume "n \<in> set (List.map_filter (\<lambda>(p, x). f p) s)"
    then obtain q y where "(q, y) \<in> set s" "f q = Some n" by (auto simp: List.map_filter_def)
    with assms(2) [OF n] Cons.prems px show False by force
  qed
  then show ?case using Cons px by (auto simp: List.map_filter_simps split: option.split)
qed (simp add: List.map_filter_simps)

lemma ReadDir_exact:
  assumes d: "proper_dir d" and dir: "fs_at s d = Some (DirNode perm)" and keys: "distinct (map fst s)"
    and exact: "\<And>x. simple_name x \<Longrightarrow> fs_at s (filepath_Join d x) \<noteq> None \<longleftrightarrow> x \<in> set devSecretFiles"
  shows "\<exists>entries. fs_ReadDir s d = Some entries \<and> sort entries = devSecretFiles"
proof -
  let ?D = "filepath_Clean d"
  let ?es = "List.map_filter (\<lambda>(path, node). child_name ?D path) s"
  have D: "?D \<noteq> ''/''" "?D \<noteq> ''.''" using d by (simp_all add: proper_dir_def)
  have "distinct ?es" by (rule distinct_map_filter [OF keys]) (simp add: child_name_iff [OF D])
  moreover have "set ?es = set devSecretFiles"
  proof (rule set_eqI)
    fix x
    have "x \<in> set ?es \<longleftrightarrow> (\<exists>p node. (p, node) \<in> set s \<and> child_name ?D p = Some x)"
      by (auto simp: List.map_filter_def) force
    also have "\<dots> \<longleftrightarrow> simple_name x \<and> fs_at s (filepath_Join d x) \<noteq> None"
      unfolding child_name_iff [OF D] fs_at_def Clean_Join
      by (auto simp: map_of_eq_None_iff Join_proper [OF d]) force
    also have "\<dots> \<longleftrightarrow> x \<in> set devSecretFiles"
      using exact [of x] dev_simple [of x] by blast
    finally show "x \<in> set ?es \<longleftrightarrow> x \<in> set devSecretFiles" .
  qed
  ultimately have "sort ?es = devSecretFiles"
    by (intro sorted_distinct_set_unique) (simp_all add: dev_names)
  then show ?thesis using dir by (simp add: fs_ReadDir_def)
qed

lemma modes_ok:
  "is_ok (check_modes h at names) \<longleftrightarrow> (\<forall>n\<in>set names. \<exists>info. os_Lstat h (at n) = Some info \<and> IsRegular info \<and>
     (GOOS_windows h \<or> fi_perm info = perm_0600))"
  by (induction names) (auto simp: result_simps split: option.splits)

lemma publish_parts:
  assumes "publish w t d s = (Inr (), s')"
  obtains s1 where "fs_at s d = None" "ioEach (rename_one w t d) devSecretFiles (fs_put d (DirNode perm_0700) s) = (Inr (), s1)"
    "fs_empty_dir s1 t" "s' = fs_del t s1"
  using assms unfolding publish_def ioBind_def by (auto split: if_splits prod.splits sum.splits)

lemma published_valid:
  assumes t: "proper_dir t" and d: "proper_dir d" and keys: "distinct (map fst s)"
    and valid: "ValidateDevSecrets (fs_host h s) (fs_ReadDir s) t = Inr ()"
    and pub: "publish w t d s = (Inr (), s')"
    and fresh: "\<And>x. simple_name x \<Longrightarrow> fs_at s (filepath_Join d x) = None"
  shows "ValidateDevSecrets (fs_host h s') (fs_ReadDir s') d = Inr ()"
proof -
  from publish_parts [OF pub] obtain s1 where d0: "fs_at s d = None"
    and moved: "ioEach (rename_one w t d) devSecretFiles (fs_put d (DirNode perm_0700) s) = (Inr (), s1)"
    and s': "s' = fs_del t s1" .
  have t0: "fs_at s t \<noteq> None" and files: "check_files (fs_host h s) (filepath_Join t) = Inr ()"
    using valid by (auto simp: ValidateDevSecrets_def result_simps split: option.splits)
  then have ne: "filepath_Clean t \<noteq> filepath_Clean d" using d0 by (auto simp: fs_at_def)
  have clean_d: "filepath_Clean d \<noteq> filepath_Join t n" if "n \<in> set devSecretFiles" for n
  proof
    assume eq: "filepath_Clean d = filepath_Join t n"
    from files have "is_ok (check_modes (fs_host h s) (filepath_Join t) devSecretFiles)"
      by (auto simp: check_files_def result_simps is_ok_iff)
    then have "fs_at s (filepath_Join t n) \<noteq> None" using that by (auto simp: modes_ok)
    then show False using d0 eq by (simp add: fs_at_def)
  qed
  have simple: "\<forall>n\<in>set devSecretFiles. simple_name n" using dev_simple by blast
  note eff = rename_effect [OF t d ne dev_names(2) simple moved]
  have at: "fs_at s' (filepath_Join d n) = fs_at s (filepath_Join t n)" if n: "n \<in> set devSecretFiles" for n
  proof -
    have "filepath_Join d n \<noteq> filepath_Clean t" using t0 fresh [OF dev_simple [OF n]] by (auto simp: fs_at_def)
    moreover have "fs_at (fs_put d (DirNode perm_0700) s) (filepath_Join t n) = fs_at s (filepath_Join t n)"
      using clean_d [OF n] by (auto simp: fs_at_put)
    ultimately show ?thesis using eff n by (simp add: s' fs_at_del)
  qed
  have dir: "fs_at s' d = Some (DirNode perm_0700)"
    using eff clean_d Join_not_dir [OF d] simple ne by (force simp: s' fs_at_del fs_at_put)
  have "fs_at s' (filepath_Join d x) \<noteq> None \<longleftrightarrow> x \<in> set devSecretFiles" if x: "simple_name x" for x
  proof (cases "x \<in> set devSecretFiles")
    case True
    have "is_ok (check_modes (fs_host h s) (filepath_Join t) devSecretFiles)"
      using files by (auto simp: check_files_def result_simps is_ok_iff)
    then show ?thesis using at [OF True] True by (auto simp: modes_ok)
  next
    case False
    have "\<forall>n\<in>set devSecretFiles. filepath_Clean (filepath_Join d x) \<noteq> filepath_Join d n \<and> filepath_Clean (filepath_Join d x) \<noteq> filepath_Join t n"
      using False Join_inject [OF d d x dev_simple] Join_inject [OF d t x dev_simple] ne by auto
    then have "fs_at s1 (filepath_Join d x) = fs_at (fs_put d (DirNode perm_0700) s) (filepath_Join d x)" using eff by blast
    also have "\<dots> = None" using fresh [OF x] Join_not_dir [OF d x] by (simp add: fs_at_put)
    finally show ?thesis using False by (simp add: s' fs_at_del)
  qed
  moreover have "distinct (map fst s')" using in_both.keeps_distinct [OF publish_keeps [OF t d] pub keys] .
  ultimately obtain entries where "fs_ReadDir s' d = Some entries" "sort entries = devSecretFiles"
    using ReadDir_exact [OF d dir] by blast
  moreover have "check_files (fs_host h s') (filepath_Join d) = check_files (fs_host h s) (filepath_Join t)"
    by (rule files_same) (auto simp: same_file_def fs_host_def at)
  ultimately show ?thesis using dir files
    by (simp add: ValidateDevSecrets_def perm_0700_def)
qed

section \<open>The generator on every run\<close>

text \<open>Every entry of the file system lies in a directory of the file system.\<close>

definition fs_closed :: "fs \<Rightarrow> bool" where
  "fs_closed s \<longleftrightarrow> list_all (\<lambda>(p, node). case from_last (CHR ''/'') p of None \<Rightarrow> True | Some (d, n) \<Rightarrow> d = [] \<or> map_of s d \<noteq> None) s"

lemma closed_fresh:
  assumes "fs_closed s" "proper_dir d" "fs_at s d = None" "simple_name x"
  shows "fs_at s (filepath_Join d x) = None"
proof (rule ccontr)
  assume "fs_at s (filepath_Join d x) \<noteq> None"
  then obtain node where "map_of s (filepath_Join d x) = Some node" unfolding fs_at_def Clean_Join by blast
  then have "(filepath_Clean d @ CHR ''/'' # x, node) \<in> set s"
    using Join_proper [OF assms(2,4)] by (auto dest: map_of_SomeD)
  moreover have "from_last (CHR ''/'') (filepath_Clean d @ CHR ''/'' # x) = Some (filepath_Clean d, x)"
    using assms(4) by (intro from_last_append) (simp add: simple_name_def)
  ultimately show False using assms(1,3) by (auto simp: fs_closed_def list_all_iff fs_at_def)
qed

lemma path_of_snoc:
  assumes "normal r ps" "simple_name n"
  shows "path_of r (ps @ [n]) =
    (if path_of r ps = ''/'' then ''/'' @ n else if path_of r ps = ''.'' then n else path_of r ps @ ''/'' @ n)"
proof (cases "ps = []")
  case True
  then show ?thesis by (simp add: path_of_def)
next
  case False
  have "path_parts ''/'' = []" "path_parts ''.'' = []" by (simp_all add: path_parts_def HasPrefix_def)
  then have "path_of r ps \<noteq> ''/''" "path_of r ps \<noteq> ''.''" using path_parts_of [OF assms(1)] False by metis+
  then show ?thesis using False Join_snoc [OF False, of n "''/''"] by (simp add: path_of_def)
qed

lemma Clean_slash:
  assumes n: "simple_name n"
  shows "filepath_Clean (d @ ''/'' @ n) =
    (if filepath_Clean (d @ ''/'') = ''/'' then ''/'' @ n else if filepath_Clean (d @ ''/'') = ''.'' then n else filepath_Clean (d @ ''/'') @ ''/'' @ n)"
proof -
  have r: "HasPrefix (d @ ''/'' @ n) ''/'' = HasPrefix (d @ ''/'') ''/''" by (cases d) (auto simp: HasPrefix_def)
  have "Split (CHR ''/'') (d @ ''/'') = Split (CHR ''/'') d @ [[]]" using Split_append [of "CHR ''/''" d "[]"] by simp
  moreover have "clean_parts rooted out (ps @ [[]]) = clean_parts rooted out ps" for rooted out ps
    by (induction rooted out ps rule: clean_parts.induct) (auto split: list.splits)
  ultimately have parts: "path_parts (d @ ''/'' @ n) = path_parts (d @ ''/'') @ [n]"
    using path_parts_slash [OF n, of d] by (simp add: path_parts_def)
  show ?thesis unfolding filepath_Clean_parts r parts by (rule path_of_snoc [OF path_parts_normal n])
qed

text \<open>The directory and its temporary sibling differ in the last component only.\<close>

definition last_part :: "string \<Rightarrow> string" where
  "last_part path = rev (takeWhile (\<lambda>c. c \<noteq> CHR ''/'') (rev path))"

lemma upto_last_part: "path = upto_last (CHR ''/'') path @ last_part path"
  using takeWhile_dropWhile_id [of "\<lambda>c. c \<noteq> CHR ''/''" "rev path"]
  by (metis last_part_def upto_last_def rev_append rev_rev_ident)

lemma upto_last_form: "upto_last (CHR ''/'') path = [] \<or> (\<exists>u. upto_last (CHR ''/'') path = u @ ''/'')"
proof (cases "dropWhile (\<lambda>c. c \<noteq> CHR ''/'') (rev path)")
  case (Cons c cs)
  then have "c = CHR ''/''" using hd_dropWhile [of "\<lambda>c. c \<noteq> CHR ''/''" "rev path"] by auto
  with Cons show ?thesis by (auto simp: upto_last_def)
qed (simp add: upto_last_def)

definition lead :: "string \<Rightarrow> string" where
  "lead parent = (if parent = ''/'' then ''/'' else if parent = ''.'' then [] else parent @ ''/'')"

lemma Clean_name: "simple_name n \<Longrightarrow> filepath_Clean n = n"
proof -
  assume n: "simple_name n"
  then have "\<not> HasPrefix n ''/''" by (cases n) (auto simp: HasPrefix_def simple_name_def)
  then show ?thesis using n by (simp add: filepath_Clean_parts path_parts_def Split_single simple_no_slash path_of_def simple_name_def)
qed

lemma Clean_dir: "simple_name (last_part path) \<Longrightarrow> filepath_Clean path = lead (filepath_Dir path) @ last_part path"
proof -
  assume n: "simple_name (last_part path)"
  show ?thesis
  proof (cases "upto_last (CHR ''/'') path = []")
    case True
    then have "path = last_part path" using upto_last_part [of path] by simp
    moreover have "filepath_Dir path = ''.''" using True by (simp add: filepath_Dir_def filepath_Clean_def HasPrefix_def)
    ultimately show ?thesis using Clean_name [OF n] by (simp add: lead_def)
  next
    case False
    then obtain u where u: "upto_last (CHR ''/'') path = u @ ''/''" using upto_last_form by blast
    then have p: "path = u @ ''/'' @ last_part path" using upto_last_part [of path] by simp
    have "filepath_Dir path = filepath_Clean (u @ ''/'')" by (simp add: filepath_Dir_def u)
    then show ?thesis using Clean_slash [OF n, of u] by (subst (1) p) (simp add: lead_def)
  qed
qed

lemma Clean_trailing: "d \<noteq> [] \<Longrightarrow> filepath_Clean (d @ ''/'') = filepath_Clean d"
proof -
  assume d: "d \<noteq> []"
  have "Split (CHR ''/'') (d @ ''/'') = Split (CHR ''/'') d @ [[]]" using Split_append [of "CHR ''/''" d "[]"] by simp
  moreover have "clean_parts rooted out (ps @ [[]]) = clean_parts rooted out ps" for rooted out ps
    by (induction rooted out ps rule: clean_parts.induct) (auto split: list.splits)
  moreover have "HasPrefix (d @ ''/'') ''/'' = HasPrefix d ''/''" using d by (cases d) (auto simp: HasPrefix_def)
  ultimately show ?thesis by (simp add: filepath_Clean_parts path_parts_def)
qed

lemma Clean_temporary:
  assumes "simple_name (temporary_name w)"
  shows "filepath_Clean (temporary_path w (filepath_Clean p)) = lead (filepath_Clean p) @ temporary_name w"
proof (cases "HasSuffix (filepath_Clean p) ''/''")
  case True
  then obtain t where t: "filepath_Clean p = t @ ''/''" by (auto simp: HasSuffix_iff)
  show ?thesis using Clean_slash [OF assms, of t] filepath_Clean_idem [of p]
    using t by (auto simp: temporary_path_def lead_def HasSuffix_iff)
next
  case False
  show ?thesis using Clean_slash [OF assms, of "filepath_Clean p"] Clean_trailing [of "filepath_Clean p"]
    by (simp add: temporary_path_def False lead_def)
qed

lemma sibling_not_below:
  assumes "CHR ''/'' \<notin> set a" "CHR ''/'' \<notin> set b" "a \<noteq> b"
  shows "\<not> below (pre @ a) (pre @ b)" "\<not> below (pre @ a) ((pre @ b) @ ''/'' @ x)"
proof -
  have cut: "Cut (CHR ''/'') (a @ CHR ''/'' # u) = Some (a, u)" "Cut (CHR ''/'') (b @ CHR ''/'' # u) = Some (b, u)" for u
    using assms by (simp_all add: Cut_Some)
  have "b @ CHR ''/'' # x \<noteq> a @ CHR ''/'' # u" for u
    using cut assms(3) by (metis option.inject prod.inject)
  moreover have "CHR ''/'' \<in> set (a @ CHR ''/'' # u)" for u by simp
  then have "b \<noteq> a @ CHR ''/'' # u" for u using assms(2) by metis
  moreover have "b @ CHR ''/'' # x \<noteq> a" using assms(1) by auto
  ultimately show "\<not> below (pre @ a) (pre @ b)" "\<not> below (pre @ a) ((pre @ b) @ ''/'' @ x)"
    using assms(3) unfolding below_def HasPrefix_iff by auto
qed

lemma generate_cases:
  assumes "GenerateDevSecrets h w directory s = (r, s')"
  shows "s' = s \<and> (r = Inr () \<longrightarrow> fs_at s directory \<noteq> None \<and> ValidateDevSecrets (fs_host h s) (fs_ReadDir s) directory = Inr ()) \<or>
    directory \<noteq> [] \<and> fs_at s directory = None \<and> fs_at s (filepath_Dir directory) \<noteq> None \<and>
    (\<exists>s1. staged h w (temporary_path w (filepath_Dir directory)) directory s = (r, s1) \<and>
       s' = (case r of Inl e \<Rightarrow> fs_RemoveAll (temporary_path w (filepath_Dir directory)) s1 | Inr u \<Rightarrow> s1))"
proof (cases "directory = [] \<or> w_fails w SysLstat \<or> fs_at s directory \<noteq> None")
  case True
  then show ?thesis using assms unfolding GenerateDevSecrets_def by (auto split: if_splits sum.splits)
next
  case False
  show ?thesis
  proof (cases "fs_at s (filepath_Dir directory)")
    case (Some node)
    then show ?thesis using assms False unfolding GenerateDevSecrets_def Let_def
      by (cases "staged h w (temporary_path w (filepath_Dir directory)) directory s"; cases node; cases r)
         (auto split: if_splits sum.splits)
  qed (use assms False in \<open>auto simp: GenerateDevSecrets_def\<close>)
qed

lemma chmod_keeps: "in_temporary.keeps t (chmod_0700 w t)"
  by (rule in_temporary.keeps_put [of _ t]) (auto simp: chmod_0700_def below_def split: if_splits)

lemma keeps_weaken: "in_temporary.keeps t m \<Longrightarrow> in_both.keeps t d m"
  unfolding in_temporary.keeps_def in_both.keeps_def by blast

lemma staged_keeps: "proper_dir t \<Longrightarrow> proper_dir d \<Longrightarrow> in_both.keeps t d (staged h w t d)"
proof -
  assume t: "proper_dir t" and d: "proper_dir d"
  let ?put = "(\<lambda>s. (Inr (), fs_put t (DirNode perm_0700) s)) :: unit io"
  have put: "in_both.keeps t d ?put" by (rule in_both.keeps_put [where path = t]) (auto simp: below_def)
  have eq: "staged h w t d = ioBind ?put (\<lambda>_. ioBind (chmod_0700 w t) (\<lambda>_. ioBind (populate h w t) (\<lambda>_. publish w t d)))"
    by (rule ext) (simp add: staged_def ioBind_def)
  show ?thesis unfolding eq
    by (intro in_both.keeps_bind put keeps_weaken [OF chmod_keeps] keeps_weaken [OF populate_keeps [OF t]] publish_keeps [OF t d])
qed

lemma populate_valid: "populate h w t s = (Inr (), s') \<Longrightarrow> ValidateDevSecrets (fs_host h s') (fs_ReadDir s') t = Inr ()"
  unfolding populate_def by (auto simp: ioBind_def split: prod.splits sum.splits)

lemma staged_apart: "staged h w t d s = (Inr (), s') \<Longrightarrow> filepath_Clean t \<noteq> filepath_Clean d"
proof
  assume run: "staged h w t d s = (Inr (), s')" and eq: "filepath_Clean t = filepath_Clean d"
  from run obtain s1 s2 where s2: "populate h w t s1 = (Inr (), s2)" and s3: "publish w t d s2 = (Inr (), s')"
    by (auto simp: staged_def ioBind_def split: prod.splits sum.splits)
  have "fs_at s2 t \<noteq> None" using populate_valid [OF s2] by (auto simp: ValidateDevSecrets_def split: option.splits)
  moreover have "fs_at s2 d = None" using publish_parts [OF s3] by blast
  ultimately show False using eq by (simp add: fs_at_def)
qed

lemma staged_valid:
  assumes t: "proper_dir t" and d: "proper_dir d" and wf: "distinct (map fst s)"
    and run: "staged h w t d s = (Inr (), s')"
    and apart: "\<And>x. simple_name x \<Longrightarrow> \<not> below (filepath_Clean t) (filepath_Join d x)"
    and fresh: "\<And>x. simple_name x \<Longrightarrow> fs_at s (filepath_Join d x) = None"
  shows "ValidateDevSecrets (fs_host h s') (fs_ReadDir s') d = Inr () \<and> (\<forall>q. below (filepath_Clean t) (filepath_Clean q) \<longrightarrow> fs_at s' q = None)"
proof -
  let ?s0 = "fs_put t (DirNode perm_0700) s"
  from run obtain s1 s2 where s1: "chmod_0700 w t ?s0 = (Inr (), s1)" and s2: "populate h w t s1 = (Inr (), s2)"
    and s3: "publish w t d s2 = (Inr (), s')"
    by (auto simp: staged_def ioBind_def split: prod.splits sum.splits)
  have k1: "distinct (map fst s2)"
    using in_temporary.keeps_distinct [OF populate_keeps [OF t] s2] in_temporary.keeps_distinct [OF chmod_keeps s1] fs_distinct(1) [OF wf]
    by blast
  have "fs_at s2 (filepath_Join d x) = None" if x: "simple_name x" for x
  proof -
    have nb: "\<not> below (filepath_Clean t) (filepath_Clean (filepath_Join d x))" using apart [OF x] by simp
    then have "filepath_Join d x \<noteq> filepath_Clean t" by (auto simp: below_def)
    then have "fs_at ?s0 (filepath_Join d x) = None" using fresh [OF x] by (simp add: fs_at_put)
    then show ?thesis
      using in_temporary.keeps_at [OF populate_keeps [OF t] s2 nb] in_temporary.keeps_at [OF chmod_keeps s1 nb] by simp
  qed
  from published_valid [OF t d k1 populate_valid [OF s2] s3 this]
  have "ValidateDevSecrets (fs_host h s') (fs_ReadDir s') d = Inr ()" by blast
  moreover have "fs_at s' q = None" if "below (filepath_Clean t) (filepath_Clean q)" for q
  proof -
    from publish_parts [OF s3] obtain s4 where e: "fs_empty_dir s4 t" and s': "s' = fs_del t s4" by blast
    have "filepath_Clean q = filepath_Clean t \<or> fs_at s4 q = None"
    proof (cases "fs_at s4 q")
      case (Some node)
      then have "(filepath_Clean q, node) \<in> set s4" by (auto simp: fs_at_def dest: map_of_SomeD)
      then show ?thesis using e that by (auto simp: fs_empty_dir_def list_all_iff)
    qed simp
    then show ?thesis by (auto simp: s' fs_at_del)
  qed
  ultimately show ?thesis by blast
qed

section \<open>Validated roots\<close>

lemma passwords_distinct:
  "database_passwords h at seen settings = Inr () \<Longrightarrow> distinct settings \<Longrightarrow>
    \<exists>pw. (\<forall>x\<in>set settings \<inter> set database_settings. ReadSimpleSecret h x (at (secret_file x)) (4 * 1024) = Inr (pw x) \<and> Reveal (pw x) \<notin> set seen) \<and>
      inj_on (\<lambda>x. Reveal (pw x)) (set settings \<inter> set database_settings)"
proof (induction settings arbitrary: seen)
  case (Cons z settings)
  have d: "z \<notin> set settings" "distinct settings" using Cons.prems(2) by simp_all
  show ?case
  proof (cases "z \<in> set database_settings")
    case True
    then obtain p where p: "ReadSimpleSecret h z (at (secret_file z)) (4 * 1024) = Inr p" "Reveal p \<notin> set seen"
      "database_passwords h at (Reveal p # seen) settings = Inr ()"
      using Cons.prems(1) unfolding database_passwords.simps by (simp only: not_True_eq_False if_False result_simps) blast
    from Cons.IH [OF p(3) d(2)] obtain pw where pw:
      "\<forall>x\<in>set settings \<inter> set database_settings. ReadSimpleSecret h x (at (secret_file x)) (4 * 1024) = Inr (pw x) \<and> Reveal (pw x) \<notin> set (Reveal p # seen)"
      "inj_on (\<lambda>x. Reveal (pw x)) (set settings \<inter> set database_settings)" by blast
    have eq: "set (z # settings) \<inter> set database_settings = insert z (set settings \<inter> set database_settings)" using True by auto
    have z: "z \<notin> set settings \<inter> set database_settings" using d(1) by blast
    have "inj_on (\<lambda>x. Reveal ((pw(z := p)) x)) (insert z (set settings \<inter> set database_settings))"
    proof (rule inj_on_insert [THEN iffD2], intro conjI)
      show "inj_on (\<lambda>x. Reveal ((pw(z := p)) x)) (set settings \<inter> set database_settings)"
        using pw(2) z unfolding inj_on_def fun_upd_apply by metis
      show "Reveal ((pw(z := p)) z) \<notin> (\<lambda>x. Reveal ((pw(z := p)) x)) ` (set settings \<inter> set database_settings - {z})"
        using pw(1) unfolding image_iff fun_upd_apply list.set by (metis DiffE insertI1)
    qed
    moreover have "\<forall>x\<in>insert z (set settings \<inter> set database_settings).
        ReadSimpleSecret h x (at (secret_file x)) (4 * 1024) = Inr ((pw(z := p)) x) \<and> Reveal ((pw(z := p)) x) \<notin> set seen"
    proof
      fix x
      assume x: "x \<in> insert z (set settings \<inter> set database_settings)"
      show "ReadSimpleSecret h x (at (secret_file x)) (4 * 1024) = Inr ((pw(z := p)) x) \<and> Reveal ((pw(z := p)) x) \<notin> set seen"
      proof (cases "x = z")
        case False
        with x have "x \<in> set settings \<inter> set database_settings" by blast
        with pw(1) have "ReadSimpleSecret h x (at (secret_file x)) (4 * 1024) = Inr (pw x)" "Reveal (pw x) \<notin> set (Reveal p # seen)" by blast+
        with False show ?thesis by (simp only: fun_upd_apply if_False) simp
      qed (simp only: fun_upd_apply if_True p simp_thms)
    qed
    ultimately show ?thesis unfolding eq by blast
  next
    case False
    then have "set (z # settings) \<inter> set database_settings = set settings \<inter> set database_settings" by auto
    moreover have "database_passwords h at seen settings = Inr ()"
      using Cons.prems(1) False by (simp only: database_passwords.simps if_True not_False_eq_True)
    ultimately show ?thesis using Cons.IH [OF _ d(2)] by presburger
  qed
qed simp

lemma resolve_effect:
  "resolve_secrets root settings env = Inr resolved \<Longrightarrow> distinct settings \<Longrightarrow>
    (\<forall>x. map_of resolved x = (if x \<in> set settings then Some (filepath_Join root (secret_file x)) else map_of env x)) \<and>
    (\<forall>x\<in>set settings. map_of env x = None \<or> map_of env x = Some (logical_path (secret_file x)))"
proof (induction settings arbitrary: env)
  case (Cons z settings)
  then have guard: "map_of env z = None \<or> map_of env z = Some (logical_path (secret_file z))"
    and rest: "resolve_secrets root settings (AList.update z (filepath_Join root (secret_file z)) env) = Inr resolved"
    by (auto simp: Let_def result_simps split: option.splits)
  have z: "z \<notin> set settings" using Cons.prems(2) by simp
  from Cons.IH [OF rest] Cons.prems(2)
  have "(\<forall>x. map_of resolved x = (if x \<in> set settings then Some (filepath_Join root (secret_file x))
      else map_of (AList.update z (filepath_Join root (secret_file z)) env) x))"
    "\<forall>x\<in>set settings. map_of (AList.update z (filepath_Join root (secret_file z)) env) x = None \<or>
      map_of (AList.update z (filepath_Join root (secret_file z)) env) x = Some (logical_path (secret_file x))" by simp_all
  note ih = this
  have "map_of resolved x = (if x \<in> set (z # settings) then Some (filepath_Join root (secret_file x)) else map_of env x)" for x
    using ih(1) z by (simp add: update_conv')
  moreover have "map_of env x = None \<or> map_of env x = Some (logical_path (secret_file x))" if "x \<in> set (z # settings)" for x
  proof (cases "x = z")
    case False
    then have "map_of (AList.update z (filepath_Join root (secret_file z)) env) x = map_of env x" by (simp add: update_conv')
    moreover have "x \<in> set settings" using that False by simp
    ultimately show ?thesis using bspec [OF ih(2)] by metis
  qed (use guard in simp)
  ultimately show ?case by blast
qed simp

lemma Join_injective:
  assumes "Join xs [c] = Join ys [c]" "xs \<noteq> []" "ys \<noteq> []" "\<forall>x\<in>set xs. c \<notin> set x" "\<forall>y\<in>set ys. c \<notin> set y"
  shows "xs = ys"
proof -
  have "Split c (Join xs [c]) = Split c (Join ys [c])" by (simp only: assms(1))
  then show ?thesis unfolding Split_Join [OF assms(2,4)] Split_Join [OF assms(3,5)] .
qed

lemma entries_exact:
  assumes "Join (sort entries) [CHR 0x00] = Join devSecretFiles [CHR 0x00]" "\<forall>e\<in>set entries. CHR 0x00 \<notin> set e"
  shows "sort entries = devSecretFiles"
proof -
  have "list_all (\<lambda>n. CHR 0x00 \<notin> set n) devSecretFiles" "devSecretFiles \<noteq> []" by code_simp+
  moreover have "Join devSecretFiles [CHR 0x00] \<noteq> []" by code_simp
  then have "sort entries \<noteq> []" using assms(1) by auto
  ultimately show ?thesis using assms by (intro Join_injective) (auto simp: list_all_iff)
qed

lemma settings_distinct: "distinct (map fst deploymentSecretFiles)" "set database_settings \<subseteq> set (map fst deploymentSecretFiles)"
  by code_simp+

lemma setting_order:
  assumes "range_order_ok h"
  shows "distinct (range_order h (map fst deploymentSecretFiles))"
    "set (range_order h (map fst deploymentSecretFiles)) = set (map fst deploymentSecretFiles)"
proof -
  have "mset (range_order h (map fst deploymentSecretFiles)) = mset (map fst deploymentSecretFiles)"
    using assms by (simp only: range_order_ok_def)
  then show "distinct (range_order h (map fst deploymentSecretFiles))"
    "set (range_order h (map fst deploymentSecretFiles)) = set (map fst deploymentSecretFiles)"
    using settings_distinct(1) mset_eq_imp_distinct_iff mset_eq_setD by blast+
qed

lemma checked_passwords:
  assumes "check_files h at = Inr ()" "range_order_ok h"
  shows "\<exists>pw. (\<forall>x\<in>set database_settings. ReadSimpleSecret h x (at (secret_file x)) (4 * 1024) = Inr (pw x)) \<and>
    inj_on (\<lambda>x. Reveal (pw x)) (set database_settings)"
proof -
  let ?order = "range_order h (map fst deploymentSecretFiles)"
  have pws: "database_passwords h at [] ?order = Inr ()"
    using assms(1) by (auto simp: check_files_def result_simps)
  have db: "set ?order \<inter> set database_settings = set database_settings"
    using settings_distinct(2) setting_order(2) [OF assms(2)] by blast
  from passwords_distinct [OF pws setting_order(1) [OF assms(2)]] show ?thesis unfolding db by blast
qed

section \<open>Properties\<close>


text \<open>A machine whose random source dries up after the first secret has been written.\<close>

definition dry_world :: world where
  "dry_world = \<lparr>w_fails = (\<lambda>call. False), w_random = (\<lambda>k. if k = 0 then Some ''0123456789abcdef0123456789abcdef'' else None),
     w_suffix = ''1'', w_partial = 0\<rparr>"

definition work_fs :: fs where
  "work_fs = [(''/work'', DirNode 493), (''/work/README'', FileNode 420 ''relay'')]"


text \<open>C19. A source directory is used only when it is sound: it then holds exactly the eleven secret files,
  every one a regular file of mode 0600, with five readable database passwords that are pairwise
  different; every secret setting that named its logical path now names the file of the
  directory, and no other setting changes.\<close>

theorem ResolveDeploymentSecretRoot_sound:
  assumes "ResolveDeploymentSecretRoot h os_ReadDir env root = Inr resolved" "range_order_ok h" "\<not> GOOS_windows h"
    "os_ReadDir root = Some entries" "\<forall>e\<in>set entries. CHR 0x00 \<notin> set e"
  shows "sort entries = devSecretFiles \<and>
    (\<forall>n\<in>set devSecretFiles. \<exists>info. os_Lstat h (filepath_Join root n) = Some info \<and> fi_kind info = Regular \<and> fi_perm info = 384) \<and>
    (\<exists>pw. (\<forall>x\<in>set database_settings. ReadSimpleSecret h x (filepath_Join root (secret_file x)) (4 * 1024) = Inr (pw x)) \<and>
       inj_on (\<lambda>x. Reveal (pw x)) (set database_settings)) \<and>
    (\<forall>x. map_of resolved x = (case map_of deploymentSecretFiles x of Some f \<Rightarrow> Some (filepath_Join root f) | None \<Rightarrow> map_of env x)) \<and>
    (\<forall>x f. map_of deploymentSecretFiles x = Some f \<longrightarrow> map_of env x \<in> {None, Some (logical_path f)})"
proof -
  let ?order = "range_order h (map fst deploymentSecretFiles)"
  note order = setting_order [OF assms(2)]
  from assms(1) have valid: "ValidateDevSecrets h os_ReadDir root = Inr ()" and res: "resolve_secrets root ?order env = Inr resolved"
    by (auto simp: ResolveDeploymentSecretRoot_def result_simps)
  from valid have joined: "Join (sort entries) [CHR 0x00] = Join devSecretFiles [CHR 0x00]"
    and files: "check_files h (filepath_Join root) = Inr ()"
    using assms(4) by (auto simp: ValidateDevSecrets_def result_simps split: option.splits)
  have modes: "is_ok (check_modes h (filepath_Join root) devSecretFiles)"
    using files by (auto simp: check_files_def result_simps is_ok_iff)
  from checked_passwords [OF files assms(2)] obtain pw where
    pw: "\<forall>x\<in>set database_settings. ReadSimpleSecret h x (filepath_Join root (secret_file x)) (4 * 1024) = Inr (pw x)"
      "inj_on (\<lambda>x. Reveal (pw x)) (set database_settings)" by blast
  have "map_of resolved x = (case map_of deploymentSecretFiles x of Some f \<Rightarrow> Some (filepath_Join root f) | None \<Rightarrow> map_of env x)" for x
  proof (cases "map_of deploymentSecretFiles x")
    case None
    then have "x \<notin> set ?order" unfolding order(2) by (simp add: map_of_eq_None_iff)
    then show ?thesis using resolve_effect [OF res order(1)] None by simp
  next
    case (Some f)
    then have "x \<in> set ?order" unfolding order(2) by (force dest: map_of_SomeD)
    then show ?thesis using resolve_effect [OF res order(1)] Some by (simp add: secret_file_def)
  qed
  moreover have "map_of env x \<in> {None, Some (logical_path f)}" if "map_of deploymentSecretFiles x = Some f" for x f
  proof -
    have "x \<in> set ?order" using that order(2) by (force dest: map_of_SomeD)
    then show ?thesis using resolve_effect [OF res order(1)] that by (auto simp: secret_file_def)
  qed
  moreover have "\<forall>n\<in>set devSecretFiles. \<exists>info. os_Lstat h (filepath_Join root n) = Some info \<and> fi_kind info = Regular \<and> fi_perm info = 384"
    using modes assms(3) unfolding modes_ok IsRegular_def perm_0600_def by blast
  ultimately show ?thesis using entries_exact [OF joined assms(5)] pw by blast
qed

text \<open>A host with a complete inventory in \<^verbatim>\<open>/s\<close>.\<close>

definition inventory_key :: string where
  "inventory_key = ''YWFhYWFhYWFhYWFhYWFhYWFhYWFhYWFhYWFhYWFhYWE=''"

definition inventory_files :: "(string \<times> string) list" where
  "inventory_files = [(''/s/api_key_pepper_ring'', ring_json ''api-pepper-dev-1'' inventory_key),
     (''/s/csrf_secret_ring'', ring_json ''csrf-dev-1'' inventory_key),
     (''/s/postgres_cluster_admin_password'', ''one''), (''/s/postgres_control_plane_password'', ''two''),
     (''/s/postgres_gateway_password'', ''three''), (''/s/postgres_migration_password'', ''four''),
     (''/s/postgres_worker_password'', ''five''), (''/s/provider_master_keyring'', provider_json inventory_key),
     (''/s/redis_password'', ''0123456789abcdef0123456789abcdef''),
     (''/s/redis_url'', ''redis://:0123456789abcdef0123456789abcdef@redis:6379/0''), (''/s/session_secret'', inventory_key)]"

definition inventory_host :: host where
  "inventory_host = (memory_host inventory_files)\<lparr>os_Lstat := (\<lambda>path.
     if path = ''/s'' then Some \<lparr>fi_kind = Directory, fi_perm = 448, fi_device = 1, fi_inode = 2\<rparr>
     else map_option (\<lambda>_. private_info) (map_of inventory_files path))\<rparr>"

definition inventory_entries :: "string \<Rightarrow> string list option" where
  "inventory_entries dir = (if dir = ''/s'' then Some (rev devSecretFiles) else None)"

theorem ResolveDeploymentSecretRoot_sound_witness:
  "\<exists>resolved. ResolveDeploymentSecretRoot inventory_host inventory_entries [(''LOG_LEVEL'', ''info'')] ''/s'' = Inr resolved \<and>
     map_of resolved ''REDIS_URL_FILE'' = Some ''/s/redis_url'' \<and> map_of resolved ''LOG_LEVEL'' = Some ''info''"
proof -
  have "is_ok (ResolveDeploymentSecretRoot inventory_host inventory_entries [(''LOG_LEVEL'', ''info'')] ''/s'')" by code_simp
  then obtain resolved where r: "ResolveDeploymentSecretRoot inventory_host inventory_entries [(''LOG_LEVEL'', ''info'')] ''/s'' = Inr resolved"
    by (auto simp: is_ok_iff)
  have order: "range_order_ok inventory_host" by (simp add: range_order_ok_def inventory_host_def memory_host_def)
  have rest: "\<not> GOOS_windows inventory_host" "inventory_entries ''/s'' = Some (rev devSecretFiles)"
    "\<forall>e\<in>set (rev devSecretFiles). CHR 0x00 \<notin> set e" by code_simp+
  have map: "map_of resolved x = (case map_of deploymentSecretFiles x of Some f \<Rightarrow> Some (filepath_Join ''/s'' f) | None \<Rightarrow> map_of [(''LOG_LEVEL'', ''info'')] x)" for x
    using ResolveDeploymentSecretRoot_sound [OF r order rest] by blast
  have "filepath_Join ''/s'' ''redis_url'' = ''/s/redis_url''" "map_of deploymentSecretFiles ''REDIS_URL_FILE'' = Some ''redis_url''"
    "map_of deploymentSecretFiles ''LOG_LEVEL'' = None" by code_simp+
  then show ?thesis using r map [of "''REDIS_URL_FILE''"] map [of "''LOG_LEVEL''"] by simp
qed

end
