(* ===== verification/Envfile.thy ===== *)
theory Envfile
  imports Secrets
begin

text \<open>
  \<^verbatim>\<open>internal/config/envfile.go\<close>: the deployment environment file.  The file is read up to one
  byte over its limit, split into lines by \<^verbatim>\<open>bufio.Scanner\<close>, and every line is blank, a comment or
  one \<^verbatim>\<open>KEY=VALUE\<close> with a key of the inventory that has not occurred before.
\<close>

definition maximumEnvironmentFileBytes :: int where
  "maximumEnvironmentFileBytes = 1024 * 1024"

text \<open>The pattern \<^verbatim>\<open>^[A-Z][A-Z0-9_]*$\<close>.\<close>

definition environmentNamePattern :: "string \<Rightarrow> bool" where
  "environmentNamePattern s =
     (case s of
        [] \<Rightarrow> False
      | c # cs \<Rightarrow> is_upper c \<and> list_all (\<lambda>x. is_upper x \<or> is_digit x \<or> x = CHR ''_'') cs)"

section \<open>bufio.Scanner\<close>

text \<open>
  \<^verbatim>\<open>ScanLines\<close> with the default buffer of 64 KiB: the lines without their line end, and whether
  the scan stopped because a line does not fit the buffer.  One carriage return in front of the
  line feed belongs to the line end.
\<close>

definition dropCR :: "string \<Rightarrow> string" where
  "dropCR line = TrimSuffix line [CHR 0x0D]"

function scan_lines :: "string \<Rightarrow> string list \<times> bool" where
  "scan_lines s =
     (if s = [] then ([], False)
      else let line = takeWhile (\<lambda>c. c \<noteq> CHR 0x0A) s;
               rest = dropWhile (\<lambda>c. c \<noteq> CHR 0x0A) s
           in if 65536 \<le> int (length line) then ([], True)
              else (case scan_lines (tl rest) of (lines, long) \<Rightarrow> (dropCR line # lines, long)))"
  by pat_completeness auto
termination
proof (relation "measure length", goal_cases)
  case (2 s line rest)
  have "length (dropWhile (\<lambda>c. c \<noteq> CHR 0x0A) s) \<le> length s" by (rule length_dropWhile_le)
  with 2(1) have "length (tl (dropWhile (\<lambda>c. c \<noteq> CHR 0x0A) s)) < length s" by (cases s) auto
  then show ?case by (simp only: 2 in_measure)
qed simp

declare scan_lines.simps [simp del]

section \<open>Parsing\<close>

definition line_error :: "int \<Rightarrow> string \<Rightarrow> go_error" where
  "line_error lineNumber what = ''environment file line '' @ Itoa lineNumber @ '': '' @ what"

fun parse_lines :: "host \<Rightarrow> int \<Rightarrow> env \<Rightarrow> string list \<Rightarrow> go_error + env" where
  "parse_lines h lineNumber vals [] = Inr vals"
| "parse_lines h lineNumber vals (raw # raws) =
     (let n = lineNumber + 1; line = TrimSuffix raw [CHR 0x0D] in
      guardE (list_ex (\<lambda>r. r = 0 \<or> IsControl r) (runes line)) (line_error n ''contains a control character'')
      (if line = [] \<or> HasPrefix line ''#'' then parse_lines h n vals raws
       else guardE (HasPrefix line ''export '') (line_error n ''export syntax is unsupported'')
       (case Cut (CHR ''='') line of
          None \<Rightarrow> Inl (line_error n ''expected KEY=VALUE'')
        | Some (name, val) \<Rightarrow>
            guardE (\<not> environmentNamePattern name) (line_error n (''invalid key '' @ strconv_Quote h name))
            (guardE (map_of inventory name = None) (line_error n (''unknown key '' @ name))
            (guardE (map_of vals name \<noteq> None) (line_error n (''duplicate key '' @ name))
             (parse_lines h n (vals @ [(name, val)]) raws))))))"

text \<open>The argument is what \<^verbatim>\<open>io.ReadAll\<close> returns for the reader.\<close>

definition parseEnvironmentFile :: "host \<Rightarrow> string option \<Rightarrow> go_error + env" where
  "parseEnvironmentFile h reader =
     (case reader of
        None \<Rightarrow> Inl ''read environment file: unreadable''
      | Some contents \<Rightarrow>
          guardE (int (length contents) > maximumEnvironmentFileBytes)
            (''read environment file: exceeds '' @ Itoa maximumEnvironmentFileBytes @ '' bytes'')
          (guardE (\<not> utf8_Valid contents) ''read environment file: must contain valid UTF-8''
          (case scan_lines contents of (lines, long) \<Rightarrow>
            bindE (parse_lines h 0 [] lines) (\<lambda>vals.
            guardE long ''read environment file: malformed input'' (Inr vals)))))"

definition ReadEnvironmentFile :: "host \<Rightarrow> string \<Rightarrow> go_error + env" where
  "ReadEnvironmentFile h path =
     guardE (path = []) ''--env-file is required''
     (case os_Open h path of
        None \<Rightarrow> Inl ''read environment file: unavailable''
      | Some f \<Rightarrow>
          (case of_stat f of
             None \<Rightarrow> Inl ''read environment file: must be a regular file''
           | Some info \<Rightarrow>
               guardE (\<not> IsRegular info) ''read environment file: must be a regular file''
               (parseEnvironmentFile h (ReadAll_limited f (maximumEnvironmentFileBytes + 1)))))"

section \<open>What a line contributes\<close>

definition significant :: "string \<Rightarrow> bool" where
  "significant line \<longleftrightarrow> line \<noteq> [] \<and> \<not> HasPrefix line ''#''"

definition assignment :: "string \<Rightarrow> string \<times> string \<Rightarrow> bool" where
  "assignment line b \<longleftrightarrow> \<not> HasPrefix line ''export '' \<and> Cut (CHR ''='') line = Some b \<and>
     environmentNamePattern (fst b) \<and> known (fst b)"

definition clean_line :: "string \<Rightarrow> bool" where
  "clean_line line \<longleftrightarrow> \<not> list_ex (\<lambda>r. r = 0 \<or> IsControl r) (runes line)"

lemma assignment_inject: "assignment line b \<Longrightarrow> assignment line c \<Longrightarrow> b = c"
  by (simp add: assignment_def)

lemma parse_lines_ok:
  "parse_lines h n vals raws = Inr out \<longleftrightarrow>
     (\<forall>raw\<in>set raws. clean_line (TrimSuffix raw [CHR 0x0D])) \<and>
     (\<exists>bs. list_all2 assignment (filter significant (map (\<lambda>t. TrimSuffix t [CHR 0x0D]) raws)) bs \<and>
        distinct (map fst bs) \<and> fst ` set vals \<inter> fst ` set bs = {} \<and> out = vals @ bs)"
proof (induction raws arbitrary: n vals)
  case (Cons raw raws)
  let ?l = "TrimSuffix raw [CHR 0x0D]"
  show ?case
  proof (cases "significant ?l \<and> clean_line ?l")
    case False
    then show ?thesis
      by (auto simp: Let_def result_simps Cons.IH significant_def clean_line_def)
  next
    case True
    then have "parse_lines h n vals (raw # raws) = Inr out \<longleftrightarrow>
        (\<exists>b. assignment ?l b \<and> fst b \<notin> fst ` set vals \<and> parse_lines h (n + 1) (vals @ [b]) raws = Inr out)"
      by (auto simp: Let_def result_simps significant_def clean_line_def assignment_def known_def
          map_of_eq_None_iff split: option.splits prod.splits)
    with True show ?thesis
      by (auto simp: Cons.IH list_all2_Cons1 dest: assignment_inject)
  qed
qed auto

section \<open>Writing a file\<close>

text \<open>The file with one assignment per line, and the bindings that such a file can hold.\<close>

definition assignment_line :: "string \<times> string \<Rightarrow> string" where
  "assignment_line b = fst b @ CHR ''='' # snd b"

definition render :: "env \<Rightarrow> string" where
  "render vals = concat (map (\<lambda>b. assignment_line b @ [CHR 0x0A]) vals)"

definition renderable :: "string \<times> string \<Rightarrow> bool" where
  "renderable b \<longleftrightarrow>
     environmentNamePattern (fst b) \<and> map_of inventory (fst b) \<noteq> None \<and> clean_line (assignment_line b) \<and>
     CHR 0x0A \<notin> set (snd b) \<and> CHR 0x0D \<notin> set (snd b) \<and> int (length (assignment_line b)) < 65536"

lemma scan_lines_Cons:
  assumes "CHR 0x0A \<notin> set l" "int (length l) < 65536"
  shows "scan_lines (l @ CHR 0x0A # s) = (dropCR l # fst (scan_lines s), snd (scan_lines s))"
proof -
  have "\<forall>x\<in>set l. x \<noteq> CHR 0x0A" using assms(1) by auto
  with assms(2) show ?thesis
    by (subst scan_lines.simps) (simp add: takeWhile_append dropWhile_append split: prod.splits)
qed

lemma name_chars: "environmentNamePattern n \<Longrightarrow>
    CHR ''='' \<notin> set n \<and> CHR 0x0A \<notin> set n \<and> CHR 0x0D \<notin> set n \<and> n \<noteq> [] \<and> is_upper (hd n)"
  by (auto simp: environmentNamePattern_def list_all_iff char_class_defs split: list.splits)

lemma renderable_chars:
  assumes "renderable b"
  shows "CHR 0x0A \<notin> set (assignment_line b)" "CHR 0x0D \<notin> set (assignment_line b)"
  using assms name_chars [of "fst b"] by (auto simp: renderable_def assignment_line_def)

lemma TrimSuffix_absent: "c \<notin> set l \<Longrightarrow> TrimSuffix l [c] = l"
  by (cases "HasSuffix l [c]") (auto simp: TrimSuffix_def HasSuffix_iff)

lemma renderable_assignment:
  assumes "renderable b"
  shows "assignment (assignment_line b) b" "significant (assignment_line b)"
proof -
  have n: "environmentNamePattern (fst b)" using assms by (simp add: renderable_def)
  obtain c cs where c: "fst b = c # cs" "is_upper c" using name_chars [OF n] by (cases "fst b") auto
  then have "c \<noteq> CHR ''#''" "c \<noteq> CHR ''e''" by (auto simp: char_class_defs)
  moreover have "Cut (CHR ''='') (assignment_line b) = Some b"
    using name_chars [OF n] by (cases b) (simp add: assignment_line_def Cut_Some)
  ultimately show "assignment (assignment_line b) b" "significant (assignment_line b)"
    using c assms
    by (simp_all add: assignment_def significant_def renderable_def known_def HasPrefix_def assignment_line_def)
qed

lemma scan_lines_render:
  "list_all renderable vals \<Longrightarrow> scan_lines (render vals) = (map assignment_line vals, False)"
proof (induction vals)
  case (Cons b vals)
  then have b: "renderable b" and IH: "scan_lines (render vals) = (map assignment_line vals, False)" by auto
  have "render (b # vals) = assignment_line b @ CHR 0x0A # render vals" by (simp add: render_def)
  moreover have "dropCR (assignment_line b) = assignment_line b"
    using renderable_chars(2) [OF b] by (simp add: dropCR_def TrimSuffix_absent)
  ultimately show ?case
    using b renderable_chars(1) [OF b] IH by (simp add: scan_lines_Cons renderable_def)
qed (simp add: render_def scan_lines.simps)

lemma parse_render:
  assumes "list_all renderable vals" "distinct (map fst vals)"
  shows "parse_lines h n [] (map assignment_line vals) = Inr vals"
proof -
  let ?ls = "map assignment_line vals"
  have t: "TrimSuffix l [CHR 0x0D] = l" if "l \<in> set ?ls" for l
    using assms(1) that renderable_chars(2) by (auto simp: list_all_iff intro!: TrimSuffix_absent)
  then have "map (\<lambda>t. TrimSuffix t [CHR 0x0D]) ?ls = ?ls" by (simp add: map_idI)
  moreover have "list_all2 assignment ?ls vals"
    using assms(1) by (induction vals) (auto intro: renderable_assignment(1))
  moreover have "filter significant ?ls = ?ls"
    using assms(1) by (induction vals) (auto intro: renderable_assignment(2))
  moreover have "\<forall>raw\<in>set ?ls. clean_line (TrimSuffix raw [CHR 0x0D])"
    using assms(1) t by (auto simp: list_all_iff renderable_def)
  ultimately show ?thesis
    using assms(2) by (simp only: parse_lines_ok) (simp del: map_map)
qed

section \<open>Properties\<close>

text \<open>C29. An environment file is accepted exactly when it fits the limit, is valid UTF-8, has no
  line of 64 KiB or more, and each of its lines is free of control characters and is blank, a
  comment or an assignment to a key of the inventory, no key twice; the result is the list of
  those assignments in the order of the lines.\<close>

theorem parseEnvironmentFile_exact:
  "parseEnvironmentFile h (Some contents) = Inr vals \<longleftrightarrow>
     int (length contents) \<le> 1024 * 1024 \<and> utf8_Valid contents \<and> \<not> snd (scan_lines contents) \<and>
     list_all (\<lambda>raw. clean_line (TrimSuffix raw [CHR 0x0D])) (fst (scan_lines contents)) \<and>
     list_all2 (\<lambda>line b. \<not> HasPrefix line ''export '' \<and> Cut (CHR ''='') line = Some b \<and>
         environmentNamePattern (fst b) \<and> map_of inventory (fst b) \<noteq> None)
       (filter significant (map (\<lambda>raw. TrimSuffix raw [CHR 0x0D]) (fst (scan_lines contents)))) vals \<and>
     distinct (map fst vals)"
  by (cases "scan_lines contents")
    (auto simp: parseEnvironmentFile_def maximumEnvironmentFileBytes_def result_simps parse_lines_ok
      list_all_iff assignment_def [abs_def] known_def)

text \<open>C30. Writing settings to an environment file and reading the file gives the same settings: the
  keys are distinct keys of the inventory, the values are free of control characters and line
  ends, no line reaches 64 KiB, and the file as a whole fits the limit and is valid UTF-8.\<close>

theorem environment_file_roundtrip:
  assumes "list_all renderable vals" "distinct (map fst vals)"
    and "int (length (render vals)) \<le> 1024 * 1024" "utf8_Valid (render vals)"
    and "path \<noteq> []" "os_Open h path = Some f" "of_stat f = Some info" "fi_kind info = Regular"
    and "of_contents f = render vals" "of_fails_after f = None"
  shows "ReadEnvironmentFile h path = Inr vals"
  using assms
  by (simp add: ReadEnvironmentFile_def IsRegular_def parseEnvironmentFile_def ReadAll_limited_def
      limited_def maximumEnvironmentFileBytes_def scan_lines_render parse_render)

definition sample_settings :: env where
  "sample_settings = [(''NEXUSRELAY_ENV'', ''production''), (''HTTP_PORT'', ''8443''), (''OPENCODE_PROVIDER_NAME'', ''a=b #c'')]"

theorem environment_file_roundtrip_witness:
  "ReadEnvironmentFile (memory_host [(''.env'', render sample_settings)]) ''.env'' = Inr sample_settings"
proof (rule environment_file_roundtrip)
  let ?f = "\<lparr>of_stat = Some private_info, of_contents = render sample_settings, of_fails_after = None\<rparr>"
  show "list_all renderable sample_settings" by code_simp
  show "distinct (map fst sample_settings)" by code_simp
  show "int (length (render sample_settings)) \<le> 1024 * 1024" by code_simp
  show "utf8_Valid (render sample_settings)" by code_simp
  show "os_Open (memory_host [(''.env'', render sample_settings)]) ''.env'' = Some ?f"
    by (simp add: memory_host_def)
  show "of_stat ?f = Some private_info" "fi_kind private_info = Regular" by (simp_all add: private_info_def)
qed simp_all

end
