(* ===== verification/Config_Process.thy ===== *)
theory Config_Process
  imports Config_Parts Envfile
begin

text \<open>
  The configuration of each process in \<^verbatim>\<open>internal/config/config.go\<close>: the parts only the
  deployment inventory has, the five process parsers, and \<^verbatim>\<open>ValidateComplete\<close> of
  \<^verbatim>\<open>envfile.go\<close>, which runs four of them on their views of one environment.
\<close>

section \<open>Deployment parts\<close>

record TLS =
  tls_Mode :: string
  tls_CertificateFile :: string
  tls_KeyFile :: string
  tls_ACMEEmail :: string
  tls_ACMEDNSProvider :: string
  tls_ACMEDNSAPIToken :: Secret

text \<open>The scheme behind a URL pointer; the deployment parser always sets both pointers.\<close>

definition scheme_of :: "URL option \<Rightarrow> string" where
  "scheme_of u = (case u of None \<Rightarrow> [] | Some w \<Rightarrow> Scheme w)"

definition tls_files :: "host \<Rightarrow> TLS \<Rightarrow> go_error + unit" where
  "tls_files h tls =
     (if tls_Mode tls = ''files'' then
        bindE (readableRegular h ''TLS_CERT_FILE'' (tls_CertificateFile tls)) (\<lambda>_.
        validateProtectedFile h ''TLS_KEY_FILE'' (tls_KeyFile tls))
      else Inr ())"

definition tls_acme :: "host \<Rightarrow> env \<Rightarrow> TLS \<Rightarrow> go_error + TLS" where
  "tls_acme h v tls =
     (if tls_Mode tls = ''acme'' then
        guardE (mail_ParseAddress h (tls_ACMEEmail tls) = None)
          ''ACME_EMAIL must be a valid email address in acme mode''
        (bindE (cleanNonempty ''ACME_DNS_PROVIDER'' (tls_ACMEDNSProvider tls)) (\<lambda>_.
         bindE (ReadSimpleSecret h ''ACME_DNS_API_TOKEN_FILE''
           (requiredPath v ''ACME_DNS_API_TOKEN_FILE'' ''/run/secrets/acme_dns_api_token'') (8 * 1024)) (\<lambda>token.
         Inr (tls\<lparr>tls_ACMEDNSAPIToken := token\<rparr>))))
      else Inr tls)"

definition parseTLS :: "host \<Rightarrow> env \<Rightarrow> string \<Rightarrow> Endpoints \<Rightarrow> go_error + TLS" where
  "parseTLS h v environment endpoints =
     (let tls = \<lparr>tls_Mode = value_of v ''TLS_MODE'' ''disabled'', tls_CertificateFile = value_of v ''TLS_CERT_FILE'' [],
                 tls_KeyFile = value_of v ''TLS_KEY_FILE'' [], tls_ACMEEmail = value_of v ''ACME_EMAIL'' [],
                 tls_ACMEDNSProvider = value_of v ''ACME_DNS_PROVIDER'' [], tls_ACMEDNSAPIToken = Secret []\<rparr> in
      guardE (\<not> oneOf (tls_Mode tls) [''disabled'', ''files'', ''acme''])
        ''TLS_MODE must be disabled, files, or acme''
      (bindE (tls_files h tls) (\<lambda>_.
       bindE (tls_acme h v tls) (\<lambda>tls1.
       guardE (isProductionGrade environment \<and>
           (scheme_of (ep_PublicAPIBaseURL endpoints) \<noteq> ''https'' \<or> scheme_of (ep_AdminBaseURL endpoints) \<noteq> ''https''))
         ''production endpoints require https''
       (Inr tls1)))))"

record DatabaseInventory =
  di_Name :: string
  di_ClusterAdmin :: string
  di_MigrationUser :: string
  di_GatewayUser :: string
  di_ControlUser :: string
  di_WorkerUser :: string
  di_PasswordFiles :: "(string \<times> string) list"
  di_SSLMode :: string

definition fixed_users :: "(string \<times> string) list" where
  "fixed_users = [(''POSTGRES_USER'', clusterAdminUser), (''DATABASE_MIGRATION_USER'', migrationUser),
     (''DATABASE_GATEWAY_USER'', gatewayUser), (''DATABASE_CONTROL_PLANE_USER'', controlPlaneUser),
     (''DATABASE_WORKER_USER'', workerUser)]"

definition password_files :: "env \<Rightarrow> (string \<times> string) list" where
  "password_files v =
     [(''POSTGRES_PASSWORD_FILE'', value_of v ''POSTGRES_PASSWORD_FILE'' ''/run/secrets/postgres_cluster_admin_password''),
      (''DATABASE_MIGRATION_PASSWORD_FILE'', value_of v ''DATABASE_MIGRATION_PASSWORD_FILE'' ''/run/secrets/postgres_migration_password''),
      (''DATABASE_GATEWAY_PASSWORD_FILE'', value_of v ''DATABASE_GATEWAY_PASSWORD_FILE'' ''/run/secrets/postgres_gateway_password''),
      (''DATABASE_CONTROL_PLANE_PASSWORD_FILE'', value_of v ''DATABASE_CONTROL_PLANE_PASSWORD_FILE'' ''/run/secrets/postgres_control_plane_password''),
      (''DATABASE_WORKER_PASSWORD_FILE'', value_of v ''DATABASE_WORKER_PASSWORD_FILE'' ''/run/secrets/postgres_worker_password'')]"

text \<open>The entries of a map in the order a \<^verbatim>\<open>range\<close> loop visits them.\<close>

definition range_map :: "host \<Rightarrow> (string \<times> 'a) list \<Rightarrow> (string \<times> 'a) list" where
  "range_map h m = concat (map (\<lambda>n. case map_of m n of None \<Rightarrow> [] | Some x \<Rightarrow> [(n, x)]) (range_order h (map fst m)))"

fun check_users :: "env \<Rightarrow> (string \<times> string) list \<Rightarrow> go_error + unit" where
  "check_users v [] = Inr ()"
| "check_users v ((name, expected) # rest) =
     guardE (value_of v name expected \<noteq> expected) (name @ '' must equal '' @ expected) (check_users v rest)"

fun check_passwords ::
  "host \<Rightarrow> (string \<times> string) list \<Rightarrow> (string \<times> string) list \<Rightarrow> (string \<times> string) list \<Rightarrow> go_error + unit" where
  "check_passwords h seen seenValues [] = Inr ()"
| "check_passwords h seen seenValues ((name, path) # rest) =
     guardE (path = []) (name @ '' must name a secret file'')
     (case map_of seen (filepath_Clean path) of
        Some previous \<Rightarrow> Inl (previous @ '' and '' @ name @ '' must name distinct files'')
      | None \<Rightarrow>
          bindE (ReadSimpleSecret h name path (4 * 1024)) (\<lambda>secret.
          case map_of seenValues (Reveal secret) of
            Some previous \<Rightarrow> Inl (previous @ '' and '' @ name @ '' must contain distinct passwords'')
          | None \<Rightarrow> check_passwords h ((filepath_Clean path, name) # seen) ((Reveal secret, name) # seenValues) rest))"

definition parseDatabaseInventory :: "host \<Rightarrow> env \<Rightarrow> string \<Rightarrow> go_error + DatabaseInventory" where
  "parseDatabaseInventory h v environment =
     (let postgresDB = value_of v ''POSTGRES_DB'' ''nexusrelay'' in
      guardE (postgresDB \<noteq> value_of v ''DATABASE_NAME'' ''nexusrelay'') ''POSTGRES_DB must equal DATABASE_NAME''
      (bindE (check_users v (range_map h fixed_users)) (\<lambda>_.
       let paths = password_files v in
       bindE (check_passwords h [] [] (range_map h paths)) (\<lambda>_.
       bindE (parseDatabaseSSLMode v environment) (\<lambda>sslmode.
       Inr \<lparr>di_Name = postgresDB, di_ClusterAdmin = clusterAdminUser, di_MigrationUser = migrationUser,
            di_GatewayUser = gatewayUser, di_ControlUser = controlPlaneUser, di_WorkerUser = workerUser,
            di_PasswordFiles = paths, di_SSLMode = sslmode\<rparr>)))))"

text \<open>The pattern \<^verbatim>\<open>^[A-Za-z0-9_-]{32,}$\<close>.\<close>

definition redis_password_pattern :: "string \<Rightarrow> bool" where
  "redis_password_pattern s \<longleftrightarrow> 32 \<le> length s \<and>
     list_all (\<lambda>c. is_alnum c \<or> c = CHR ''_'' \<or> c = CHR ''-'') s"

definition parseRedisDeployment :: "host \<Rightarrow> env \<Rightarrow> go_error + Secret" where
  "parseRedisDeployment h v =
     bindE (ReadSimpleSecret h ''REDIS_PASSWORD_FILE''
       (requiredPath v ''REDIS_PASSWORD_FILE'' ''/run/secrets/redis_password'') (4 * 1024)) (\<lambda>password.
     guardE (\<not> redis_password_pattern (Reveal password))
       ''REDIS_PASSWORD_FILE must contain at least 32 base64url characters''
     (bindE (ReadURISecret h ''REDIS_URL_FILE'' (requiredPath v ''REDIS_URL_FILE'' ''/run/secrets/redis_url'')
        (4 * 1024) [''redis'', ''rediss'']) (\<lambda>(secret, redisURL).
      case User redisURL of
        None \<Rightarrow> Inl ''REDIS_URL_FILE must contain Redis authentication credentials''
      | Some user \<Rightarrow>
          guardE (ui_username user \<noteq> [] \<and> ui_username user \<noteq> ''default'')
            ''REDIS_URL_FILE username must be empty or default''
          (guardE (ui_password user \<noteq> Some (Reveal password))
            ''REDIS_PASSWORD_FILE must match the password in REDIS_URL_FILE''
          (Inr password)))))"

record Cloudflare =
  cf_Enabled :: bool
  cf_TunnelID :: string
  cf_CredentialsFile :: string

definition validatePublicTunnelHosts :: "host \<Rightarrow> Endpoints \<Rightarrow> go_error + unit" where
  "validatePublicTunnelHosts h endpoints =
     (if \<not> EqualFold (SimpleFold_orbit h) (ep_PublicAPIHost endpoints) (ep_AdminHost endpoints) then Inr ()
      else if ep_AdminExposure endpoints = ''private''
      then Inl ''ENABLE_CLOUDFLARE_TUNNEL cannot publish the private ADMIN_HOST''
      else Inl ''ENABLE_CLOUDFLARE_TUNNEL requires PUBLIC_API_HOST and ADMIN_HOST to differ'')"

definition parseCloudflare :: "host \<Rightarrow> env \<Rightarrow> Endpoints \<Rightarrow> TLS \<Rightarrow> go_error + Cloudflare" where
  "parseCloudflare h v endpoints tls =
     bindE (boolean v ''ENABLE_CLOUDFLARE_TUNNEL'' False) (\<lambda>enabled.
     let config = \<lparr>cf_Enabled = enabled, cf_TunnelID = value_of v ''CLOUDFLARE_TUNNEL_ID'' [],
                   cf_CredentialsFile = value_of v ''CLOUDFLARE_TUNNEL_CREDENTIALS_FILE''
                     ''/run/secrets/cloudflare_tunnel_credentials.json''\<rparr> in
     if \<not> enabled then Inr config
     else guardE (scheme_of (ep_PublicAPIBaseURL endpoints) \<noteq> ''https'')
       ''ENABLE_CLOUDFLARE_TUNNEL requires PUBLIC_API_BASE_URL to use https''
     (guardE (tls_Mode tls \<noteq> ''acme'' \<or> tls_ACMEDNSProvider tls \<noteq> ''cloudflare'')
       ''ENABLE_CLOUDFLARE_TUNNEL requires TLS_MODE=acme and ACME_DNS_PROVIDER=cloudflare''
     (bindE (validatePublicTunnelHosts h endpoints) (\<lambda>_.
      bindE (cleanNonempty ''CLOUDFLARE_TUNNEL_ID'' (cf_TunnelID config)) (\<lambda>_.
      bindE (ReadCloudflareCredentials h (cf_CredentialsFile config)) (\<lambda>credentials.
      guardE (TunnelID credentials \<noteq> cf_TunnelID config)
        ''CLOUDFLARE_TUNNEL_CREDENTIALS_FILE must match CLOUDFLARE_TUNNEL_ID''
      (Inr config)))))))"

record Tailscale =
  ts_Enabled :: bool

definition parseTailscale :: "env \<Rightarrow> go_error + Tailscale" where
  "parseTailscale v =
     bindE (boolean v ''ENABLE_TAILSCALE_PRIVATE_ADMIN'' False) (\<lambda>enabled.
     if \<not> enabled then Inr \<lparr>ts_Enabled = False\<rparr>
     else Inl ''ENABLE_TAILSCALE_PRIVATE_ADMIN=true is unsupported while ADR 0002 is Proposed'')"

section \<open>Processes\<close>

record OptionalIngress =
  oi_CloudflareEnabled :: bool
  oi_TailscaleEnabled :: bool

definition zero_OptionalIngress :: OptionalIngress where
  "zero_OptionalIngress = \<lparr>oi_CloudflareEnabled = False, oi_TailscaleEnabled = False\<rparr>"

record Deployment =
  dp_Shared :: SharedDeployment
  dp_Endpoints :: Endpoints
  dp_HTTP :: HTTP
  dp_HTTPSPort :: int
  dp_TLS :: TLS
  dp_Database :: DatabaseInventory
  dp_RedisPassword :: Secret
  dp_Cloudflare :: Cloudflare
  dp_Tailscale :: Tailscale

record Gateway =
  gw_Shared :: SharedDeployment
  gw_Endpoints :: Endpoints
  gw_HTTP :: HTTP
  gw_Database :: Database
  gw_Redis :: Redis
  gw_Readiness :: DependencyReadiness
  gw_Observability :: Observability
  gw_Policy :: GatewayPolicy
  gw_ProviderKeys :: ProviderKeyRing
  gw_APIKeyPeppers :: KeyRing
  gw_Ingress :: OptionalIngress

record ControlPlane =
  cp_Shared :: SharedDeployment
  cp_Endpoints :: Endpoints
  cp_HTTP :: HTTP
  cp_Database :: Database
  cp_Redis :: Redis
  cp_Readiness :: DependencyReadiness
  cp_Observability :: Observability
  cp_Sessions :: SessionPolicy
  cp_ProviderKeys :: ProviderKeyRing
  cp_APIKeyPeppers :: KeyRing
  cp_AgentExport :: AgentExport
  cp_Ingress :: OptionalIngress

record Worker =
  wk_Shared :: SharedDeployment
  wk_Endpoints :: Endpoints
  wk_HTTP :: HTTP
  wk_Database :: Database
  wk_Redis :: Redis
  wk_Readiness :: DependencyReadiness
  wk_Observability :: Observability
  wk_Policy :: WorkerPolicy
  wk_ProviderKeys :: ProviderKeyRing
  wk_Ingress :: OptionalIngress

record Bootstrap =
  bs_Shared :: SharedDeployment
  bs_Database :: Database
  bs_Observability :: Observability
  bs_PasswordPolicy :: PasswordPolicy
  bs_OwnerEmail :: string
  bs_OwnerName :: string
  bs_OrganizationName :: string
  bs_OrganizationSlug :: string
  bs_Password :: Secret

definition ParseGateway :: "host \<Rightarrow> env \<Rightarrow> go_error + Gateway" where
  "ParseGateway h v =
     bindE (preflight v ProcessGateway) (\<lambda>_.
     bindE (parseServiceCommon v) (\<lambda>(shared, http, obs).
     bindE (parseGatewayEndpoints v (sd_Environment shared)) (\<lambda>endpoints.
     bindE (parseDatabase h v gatewayDatabaseSettings) (\<lambda>db.
     bindE (parseRedis h v ''REDIS_MAX_CONNECTIONS_GATEWAY'' 50) (\<lambda>redis.
     bindE (parseDependencyReadiness v) (\<lambda>readiness.
     bindE (ReadProviderKeyRing h (requiredPath v ''MASTER_KEYRING_FILE'' ''/run/secrets/provider_master_keyring'')) (\<lambda>provider.
     bindE (ReadKeyRing h ''API_KEY_PEPPER_RING_FILE''
       (requiredPath v ''API_KEY_PEPPER_RING_FILE'' ''/run/secrets/api_key_pepper_ring'')) (\<lambda>peppers.
     bindE (parseGatewayPolicy v) (\<lambda>policy.
     Inr \<lparr>gw_Shared = shared, gw_Endpoints = endpoints, gw_HTTP = http, gw_Database = db,
          gw_Redis = redis, gw_Readiness = readiness, gw_Observability = obs, gw_Policy = policy,
          gw_ProviderKeys = provider, gw_APIKeyPeppers = peppers, gw_Ingress = zero_OptionalIngress\<rparr>)))))))))"

definition ParseControlPlane :: "host \<Rightarrow> env \<Rightarrow> go_error + ControlPlane" where
  "ParseControlPlane h v =
     bindE (preflight v ProcessControlPlane) (\<lambda>_.
     bindE (parseServiceCommon v) (\<lambda>(shared, http, obs).
     bindE (parseControlPlaneEndpoints v (sd_Environment shared)) (\<lambda>endpoints.
     bindE (parseDatabase h v controlPlaneDatabaseSettings) (\<lambda>db.
     bindE (parseRedis h v ''REDIS_MAX_CONNECTIONS_CONTROL_PLANE'' 20) (\<lambda>redis.
     bindE (parseDependencyReadiness v) (\<lambda>readiness.
     bindE (ReadProviderKeyRing h (requiredPath v ''MASTER_KEYRING_FILE'' ''/run/secrets/provider_master_keyring'')) (\<lambda>provider.
     bindE (ReadKeyRing h ''API_KEY_PEPPER_RING_FILE''
       (requiredPath v ''API_KEY_PEPPER_RING_FILE'' ''/run/secrets/api_key_pepper_ring'')) (\<lambda>peppers.
     bindE (parseSessionPolicy h v) (\<lambda>sessions.
     guardE (isProductionGrade (sd_Environment shared) \<and> \<not> HasPrefix (sp_CookieName sessions) ''__Host-'')
       ''SESSION_COOKIE_NAME must use the __Host- prefix in production''
     (bindE (parseAgent v) (\<lambda>agent.
      Inr \<lparr>cp_Shared = shared, cp_Endpoints = endpoints, cp_HTTP = http, cp_Database = db,
           cp_Redis = redis, cp_Readiness = readiness, cp_Observability = obs, cp_Sessions = sessions,
           cp_ProviderKeys = provider, cp_APIKeyPeppers = peppers, cp_AgentExport = agent,
           cp_Ingress = zero_OptionalIngress\<rparr>)))))))))))"

definition ParseWorker :: "host \<Rightarrow> env \<Rightarrow> go_error + Worker" where
  "ParseWorker h v =
     bindE (preflight v ProcessWorker) (\<lambda>_.
     bindE (parseServiceCommon v) (\<lambda>(shared, http, obs).
     bindE (parseDatabase h v workerDatabaseSettings) (\<lambda>db.
     bindE (parseRedis h v ''REDIS_MAX_CONNECTIONS_WORKER'' 20) (\<lambda>redis.
     bindE (parseDependencyReadiness v) (\<lambda>readiness.
     bindE (ReadProviderKeyRing h (requiredPath v ''MASTER_KEYRING_FILE'' ''/run/secrets/provider_master_keyring'')) (\<lambda>provider.
     bindE (parseWorkerPolicy v) (\<lambda>policy.
     Inr \<lparr>wk_Shared = shared, wk_Endpoints = zero_Endpoints, wk_HTTP = http, wk_Database = db,
          wk_Redis = redis, wk_Readiness = readiness, wk_Observability = obs, wk_Policy = policy,
          wk_ProviderKeys = provider, wk_Ingress = zero_OptionalIngress\<rparr>)))))))"

text \<open>The pattern \<^verbatim>\<open>^[a-z0-9](?:[a-z0-9-]{0,61}[a-z0-9])?$\<close>.\<close>

definition slug_pattern :: "string \<Rightarrow> bool" where
  "slug_pattern s \<longleftrightarrow>
     (let plain = (\<lambda>c. is_lower c \<or> is_digit c) in
      s \<noteq> [] \<and> plain (hd s) \<and> plain (last s) \<and> length s \<le> 63 \<and>
      list_all (\<lambda>c. plain c \<or> c = CHR ''-'') s)"

definition ParseBootstrap :: "host \<Rightarrow> env \<Rightarrow> go_error + Bootstrap" where
  "ParseBootstrap h v =
     bindE (preflight v ProcessBootstrap) (\<lambda>_.
     let shared = \<lparr>sd_Environment = value_of v ''NEXUSRELAY_ENV'' ''development'',
                   sd_Version = value_of v ''NEXUSRELAY_VERSION'' ''dev''\<rparr> in
     bindE (validateEnvironment (sd_Environment shared)) (\<lambda>_.
     bindE (cleanNonempty ''NEXUSRELAY_VERSION'' (sd_Version shared)) (\<lambda>_.
     bindE (parseLogging v) (\<lambda>obs.
     bindE (parseDatabase h v controlPlaneDatabaseSettings) (\<lambda>db.
     bindE (parsePasswordPolicy v) (\<lambda>passwordPolicy.
     bindE (requiredText v ''BOOTSTRAP_OWNER_EMAIL'') (\<lambda>email.
     guardE (mail_ParseAddress h email \<noteq> Some email) ''BOOTSTRAP_OWNER_EMAIL must be one valid email address''
     (bindE (requiredText v ''BOOTSTRAP_OWNER_NAME'') (\<lambda>name.
      bindE (requiredText v ''BOOTSTRAP_ORGANIZATION_NAME'') (\<lambda>org.
      bindE (requiredText v ''BOOTSTRAP_ORGANIZATION_SLUG'') (\<lambda>slug.
      guardE (\<not> slug_pattern slug) ''BOOTSTRAP_ORGANIZATION_SLUG has invalid format''
      (bindE (ReadSimpleSecret h ''BOOTSTRAP_PASSWORD_FILE''
         (requiredPath v ''BOOTSTRAP_PASSWORD_FILE'' ''/run/secrets/bootstrap_password'') (4 * 1024)) (\<lambda>password.
       Inr \<lparr>bs_Shared = shared, bs_Database = db, bs_Observability = obs,
            bs_PasswordPolicy = passwordPolicy, bs_OwnerEmail = email, bs_OwnerName = name,
            bs_OrganizationName = org, bs_OrganizationSlug = slug, bs_Password = password\<rparr>)))))))))))))"

definition ParseDeployment :: "host \<Rightarrow> env \<Rightarrow> go_error + Deployment" where
  "ParseDeployment h v =
     bindE (preflight v ProcessDeployment) (\<lambda>_.
     let shared = \<lparr>sd_Environment = value_of v ''NEXUSRELAY_ENV'' ''development'',
                   sd_Version = value_of v ''NEXUSRELAY_VERSION'' ''dev''\<rparr> in
     bindE (validateEnvironment (sd_Environment shared)) (\<lambda>_.
     bindE (cleanNonempty ''NEXUSRELAY_VERSION'' (sd_Version shared)) (\<lambda>_.
     bindE (parseEndpoints h v (sd_Environment shared)) (\<lambda>endpoints.
     bindE (parseHTTP v) (\<lambda>http.
     bindE (integer v ''HTTPS_PORT'' 8443 1 65535) (\<lambda>httpsPort.
     bindE (parseTLS h v (sd_Environment shared) endpoints) (\<lambda>tls.
     bindE (parseDatabaseInventory h v (sd_Environment shared)) (\<lambda>database.
     bindE (parseRedisDeployment h v) (\<lambda>redisPassword.
     bindE (parseCloudflare h v endpoints tls) (\<lambda>cloudflare.
     bindE (parseTailscale v) (\<lambda>tailscale.
     Inr \<lparr>dp_Shared = shared, dp_Endpoints = endpoints, dp_HTTP = http, dp_HTTPSPort = httpsPort,
          dp_TLS = tls, dp_Database = database, dp_RedisPassword = redisPassword,
          dp_Cloudflare = cloudflare, dp_Tailscale = tailscale\<rparr>)))))))))))"

definition ValidateComplete :: "host \<Rightarrow> env \<Rightarrow> go_error + unit" where
  "ValidateComplete h values =
     bindE (ParseDeployment h (ValuesForProcess values ProcessDeployment)) (\<lambda>_.
     bindE (ParseGateway h (ValuesForProcess values ProcessGateway)) (\<lambda>_.
     bindE (ParseControlPlane h (ValuesForProcess values ProcessControlPlane)) (\<lambda>_.
     bindE (ParseWorker h (ValuesForProcess values ProcessWorker)) (\<lambda>_. Inr ()))))"

section \<open>The process environment\<close>

text \<open>
  \<^verbatim>\<open>environment()\<close> folds the entries of \<^verbatim>\<open>os.Environ()\<close> into a map; a later entry for the same
  name replaces an earlier one.
\<close>

fun environment_loop :: "env \<Rightarrow> string list \<Rightarrow> env" where
  "environment_loop vals [] = vals"
| "environment_loop vals (e # es) =
     (case Cut (CHR ''='') e of
        None \<Rightarrow> environment_loop vals es
      | Some (name, x) \<Rightarrow> environment_loop ((name, x) # filter (\<lambda>b. fst b \<noteq> name) vals) es)"

definition environment :: "string list \<Rightarrow> env" where
  "environment environ = environment_loop [] environ"

definition LoadGateway :: "host \<Rightarrow> string list \<Rightarrow> go_error + Gateway" where
  "LoadGateway h environ = ParseGateway h (environment environ)"

definition LoadControlPlane :: "host \<Rightarrow> string list \<Rightarrow> go_error + ControlPlane" where
  "LoadControlPlane h environ = ParseControlPlane h (environment environ)"

definition LoadWorker :: "host \<Rightarrow> string list \<Rightarrow> go_error + Worker" where
  "LoadWorker h environ = ParseWorker h (environment environ)"

definition LoadBootstrap :: "host \<Rightarrow> string list \<Rightarrow> go_error + Bootstrap" where
  "LoadBootstrap h environ = ParseBootstrap h (environment environ)"

definition LoadDeployment :: "host \<Rightarrow> string list \<Rightarrow> go_error + Deployment" where
  "LoadDeployment h environ = ParseDeployment h (environment environ)"

end
