(* ===== verification/Commands.thy ===== *)
theory Commands
  imports Dev_Secrets Config_Process
begin

text \<open>
  The command line programs: \<^verbatim>\<open>internal/buildinfo\<close>, \<^verbatim>\<open>apps/bootstrap\<close>, \<^verbatim>\<open>apps/health-probe\<close> and the two
  commands of \<^verbatim>\<open>internal/config/cmd\<close>.  A command is a function of its arguments that returns its
  error and what it wrote; \<^verbatim>\<open>flag.FlagSet\<close> is its algorithm, the HTTP client of the probe a
  parameter.
\<close>

section \<open>Build information\<close>

text \<open>The two variables the linker sets.\<close>

record build =
  bi_Version :: string
  bi_Revision :: string

definition defaultVersion :: string where "defaultVersion = ''dev''"
definition defaultRevision :: string where "defaultRevision = ''unknown''"

definition GetVersion :: "build \<Rightarrow> string" where
  "GetVersion b = (if bi_Version b = [] then defaultVersion else bi_Version b)"

definition GetRevision :: "build \<Rightarrow> string" where
  "GetRevision b = (if bi_Revision b = [] then defaultRevision else bi_Revision b)"

definition version_line :: "build \<Rightarrow> string \<Rightarrow> string" where
  "version_line b name = name @ '' '' @ GetVersion b @ '' (revision '' @ GetRevision b @ '')'' @ [CHR 10]"

text \<open>Whether the argument was handled, and what was written.\<close>

definition WriteVersion :: "build \<Rightarrow> string list \<Rightarrow> string \<Rightarrow> bool \<times> string" where
  "WriteVersion b arguments name = (case arguments of
     [a] \<Rightarrow> if a \<in> set [''-v'', ''--version'', ''version''] then (True, version_line b name) else (False, [])
   | _ \<Rightarrow> (False, []))"

section \<open>Bootstrap\<close>

definition line :: "string \<Rightarrow> string" where
  "line s = s @ [CHR 10]"

definition writeUsage :: string where
  "writeUsage = line ''Usage: nexusrelay-bootstrap <command>'' @ line [] @ line ''Commands:'' @
     line ''  owner     Reserved initial-owner bootstrap command (not implemented)'' @
     line ''  help      Show this help'' @ line ''  version   Show the binary version''"

definition errNotImplemented :: go_error where
  "errNotImplemented = ''owner bootstrap is reserved for Phase 4 and is not implemented''"

definition bootstrap_run :: "host \<Rightarrow> build \<Rightarrow> string list \<Rightarrow> go_error option \<times> string" where
  "bootstrap_run h b arguments =
     (case WriteVersion b arguments ''nexusrelay-bootstrap'' of
        (True, out) \<Rightarrow> (None, out)
      | (False, out) \<Rightarrow>
          (case arguments of
             [] \<Rightarrow> (Some ''a bootstrap command is required'', writeUsage)
           | a # rest \<Rightarrow>
               if rest = [] \<and> a \<in> set [''-h'', ''--help'', ''help''] then (None, writeUsage)
               else if rest = [] \<and> a = ''owner'' then (Some errNotImplemented, [])
               else (Some (''unknown bootstrap command '' @ strconv_Quote h a), writeUsage)))"

section \<open>Flags\<close>

datatype flag_kind = StringFlag | BoolFlag | DurationFlag

datatype flag_error =
    ErrHelp
  | BadSyntax string
  | NotDefined string
  | NeedsArgument string
  | InvalidValue string string

definition ParseBool :: "string \<Rightarrow> bool option" where
  "ParseBool s =
     (if s \<in> set [''1'', ''t'', ''T'', ''TRUE'', ''true'', ''True''] then Some True
      else if s \<in> set [''0'', ''f'', ''F'', ''FALSE'', ''false'', ''False''] then Some False
      else None)"

fun flag_accepts :: "flag_kind \<Rightarrow> string \<Rightarrow> bool" where
  "flag_accepts StringFlag s = True"
| "flag_accepts BoolFlag s = (ParseBool s \<noteq> None)"
| "flag_accepts DurationFlag s = (ParseDuration s \<noteq> None)"

text \<open>The name and the value of an argument of the form \<^verbatim>\<open>name=value\<close>; the first byte is never the separator.\<close>

definition flag_split :: "string \<Rightarrow> string \<times> string option" where
  "flag_split s = (case s of
     [] \<Rightarrow> ([], None)
   | c # cs \<Rightarrow> (case Cut (CHR ''='') cs of None \<Rightarrow> (s, None) | Some (a, b) \<Rightarrow> (c # a, Some b)))"

definition flag_name :: "string \<Rightarrow> string" where
  "flag_name s = (if HasPrefix s ''--'' then drop 2 s else drop 1 s)"

text \<open>One step of \<^verbatim>\<open>FlagSet.Parse\<close>: stop with the remaining arguments, fail, or set a flag.\<close>

datatype flag_step = FlagStop "string list" | FlagFail flag_error | FlagSeen string string "string list"

definition flag_set :: "flag_kind \<Rightarrow> string \<Rightarrow> string \<Rightarrow> string list \<Rightarrow> flag_step" where
  "flag_set kind name v rest = (if flag_accepts kind v then FlagSeen name v rest else FlagFail (InvalidValue name v))"

definition flag_known :: "flag_kind \<Rightarrow> string \<Rightarrow> string option \<Rightarrow> string list \<Rightarrow> flag_step" where
  "flag_known kind name given rest = (case given of
     Some v \<Rightarrow> flag_set kind name v rest
   | None \<Rightarrow>
       if kind = BoolFlag then flag_set kind name ''true'' rest
       else (case rest of [] \<Rightarrow> FlagFail (NeedsArgument name) | v # rest' \<Rightarrow> flag_set kind name v rest'))"

definition flag_one :: "(string \<times> flag_kind) list \<Rightarrow> string list \<Rightarrow> flag_step" where
  "flag_one formal args = (case args of
     [] \<Rightarrow> FlagStop []
   | s # rest \<Rightarrow>
       if length s < 2 \<or> hd s \<noteq> CHR ''-'' then FlagStop args
       else if s = ''--'' then FlagStop rest
       else if flag_name s = [] \<or> hd (flag_name s) = CHR ''-'' \<or> hd (flag_name s) = CHR ''='' then FlagFail (BadSyntax s)
       else (case flag_split (flag_name s) of (name, given) \<Rightarrow>
         (case map_of formal name of
            None \<Rightarrow> FlagFail (if name = ''help'' \<or> name = ''h'' then ErrHelp else NotDefined name)
          | Some kind \<Rightarrow> flag_known kind name given rest)))"

lemma flag_known_seen:
  "flag_known kind n given rest = FlagSeen name v rest' \<Longrightarrow> n = name \<and> flag_accepts kind v \<and> length rest' \<le> length rest"
  by (auto simp: flag_known_def flag_set_def split: option.splits if_splits list.splits)

lemma flag_one_seen:
  assumes "flag_one formal args = FlagSeen name v rest"
  shows "length rest < length args \<and> (\<exists>kind. map_of formal name = Some kind \<and> flag_accepts kind v)"
proof (cases args)
  case (Cons s xs)
  obtain n given where split: "flag_split (flag_name s) = (n, given)" by (cases "flag_split (flag_name s)")
  from assms Cons split obtain kind where "map_of formal n = Some kind" "flag_known kind n given xs = FlagSeen name v rest"
    by (auto simp: flag_one_def split: if_splits option.splits)
  with flag_known_seen [of kind n given xs name v rest] Cons show ?thesis by auto
qed (use assms in \<open>simp add: flag_one_def\<close>)

text \<open>\<^verbatim>\<open>FlagSet.Parse\<close>: the values that were set, latest first, and the remaining arguments.\<close>

function flag_parse :: "(string \<times> flag_kind) list \<Rightarrow> string list \<Rightarrow> (string \<times> string) list \<Rightarrow>
    flag_error + ((string \<times> string) list \<times> string list)" where
  "flag_parse formal args actual =
     (case flag_one formal args of
        FlagStop rest \<Rightarrow> Inr (actual, rest)
      | FlagFail e \<Rightarrow> Inl e
      | FlagSeen name v rest \<Rightarrow> flag_parse formal rest ((name, v) # actual))"
  by pat_completeness auto
termination by (relation "measure (\<lambda>(formal, args, actual). length args)") (auto dest: flag_one_seen)

declare flag_parse.simps [simp del]

definition flag_value :: "(string \<times> string) list \<Rightarrow> string \<Rightarrow> string \<Rightarrow> string" where
  "flag_value actual name fallback = (case map_of actual name of None \<Rightarrow> fallback | Some v \<Rightarrow> v)"

section \<open>The deployment check\<close>

datatype command_error = FlagError flag_error | CommandError go_error

record outcome_of =
  co_error :: "command_error option"
  co_stdout :: string
  co_stderr :: string

definition validate_flags :: "(string \<times> flag_kind) list" where
  "validate_flags = [(''env-file'', StringFlag), (''secret-root'', StringFlag), (''cloudflare-secret-root'', StringFlag), (''core-only'', BoolFlag)]"

definition core_only :: "env \<Rightarrow> env" where
  "core_only v = AList.update ''ACME_DNS_PROVIDER'' [] (AList.update ''ACME_EMAIL'' []
     (AList.update ''TLS_MODE'' ''disabled'' (AList.update ''ENABLE_CLOUDFLARE_TUNNEL'' ''false'' v)))"

text \<open>The values the command checks: read, reduced to the core, and resolved against the source directories.\<close>

definition deployment_values :: "host \<Rightarrow> (string \<Rightarrow> string list option) \<Rightarrow> string \<Rightarrow> bool \<Rightarrow> string \<Rightarrow> string \<Rightarrow> go_error + env" where
  "deployment_values h os_ReadDir environmentFile coreOnly secretRoot cloudflareSecretRoot =
     bindE (ReadEnvironmentFile h environmentFile) (\<lambda>read.
     bindE (Inr (if coreOnly then core_only read else read)) (\<lambda>v0.
     bindE (if secretRoot \<noteq> [] then ResolveDeploymentSecretRoot h os_ReadDir v0 secretRoot else Inr v0) (\<lambda>v1.
     if cloudflareSecretRoot \<noteq> [] then ResolveCloudflareSecretRoot h os_ReadDir v1 cloudflareSecretRoot else Inr v1)))"

definition invalid_deployment :: "go_error \<Rightarrow> outcome_of" where
  "invalid_deployment e = \<lparr>co_error = Some (CommandError e), co_stdout = [],
     co_stderr = line (''deployment configuration invalid: '' @ e)\<rparr>"

definition validate_deployment_run :: "host \<Rightarrow> (string \<Rightarrow> string list option) \<Rightarrow> (flag_error \<Rightarrow> string) \<Rightarrow> string list \<Rightarrow> outcome_of" where
  "validate_deployment_run h os_ReadDir flag_text arguments =
     (case flag_parse validate_flags arguments [] of
        Inl e \<Rightarrow> \<lparr>co_error = Some (FlagError e), co_stdout = [], co_stderr = flag_text e\<rparr>
      | Inr (actual, rest) \<Rightarrow>
          if rest \<noteq> [] then invalid_deployment ''unexpected positional arguments''
          else (case bindE (deployment_values h os_ReadDir (flag_value actual ''env-file'' [])
                    (ParseBool (flag_value actual ''core-only'' ''false'') = Some True)
                    (flag_value actual ''secret-root'' []) (flag_value actual ''cloudflare-secret-root'' []))
                  (ValidateComplete h) of
            Inl e \<Rightarrow> invalid_deployment e
          | Inr u \<Rightarrow> \<lparr>co_error = None, co_stdout = line ''deployment configuration valid'', co_stderr = []\<rparr>))"

section \<open>The generator command\<close>

text \<open>Whether writing to the two streams works is an argument.\<close>

definition generate_failed :: "bool \<Rightarrow> go_error \<Rightarrow> go_error \<Rightarrow> outcome_of" where
  "generate_failed stderr_ok write_error e =
     \<lparr>co_error = Some (CommandError (if stderr_ok then e else ''write development secret generation error: '' @ write_error)),
      co_stdout = [], co_stderr = (if stderr_ok then line (''development secret generation failed: '' @ e) else [])\<rparr>"

definition generate_dev_secrets_run :: "host \<Rightarrow> world \<Rightarrow> (flag_error \<Rightarrow> string) \<Rightarrow> bool \<Rightarrow> bool \<Rightarrow> go_error \<Rightarrow> string list \<Rightarrow> fs \<Rightarrow>
    outcome_of \<times> fs" where
  "generate_dev_secrets_run h w flag_text stdout_ok stderr_ok write_error arguments s =
     (case flag_parse [(''output-dir'', StringFlag)] arguments [] of
        Inl e \<Rightarrow> (\<lparr>co_error = Some (FlagError e), co_stdout = [], co_stderr = flag_text e\<rparr>, s)
      | Inr (actual, rest) \<Rightarrow>
          if rest \<noteq> [] then (generate_failed stderr_ok write_error ''unexpected positional arguments'', s)
          else (case GenerateDevSecrets h w (flag_value actual ''output-dir'' DevSecretDirectoryName) s of
            (Inl e, s') \<Rightarrow> (generate_failed stderr_ok write_error e, s')
          | (Inr u, s') \<Rightarrow>
              (if stdout_ok
               then \<lparr>co_error = None, co_stdout = line (''development secret inventory ready at '' @ flag_value actual ''output-dir'' DevSecretDirectoryName), co_stderr = []\<rparr>
               else \<lparr>co_error = Some (CommandError (''write development secret generation result: '' @ write_error)), co_stdout = [], co_stderr = []\<rparr>, s')))"

section \<open>The health probe\<close>

definition defaultProbeURL :: string where
  "defaultProbeURL = ''http://127.0.0.1:8080/health/ready''"

text \<open>
  The HTTP client of the probe: whether a request can be made for the URL, and the response to it
  within the timeout, which is the status and the error of closing the body.
\<close>

record probe_client =
  pc_valid :: "string \<Rightarrow> bool"
  pc_Do :: "string \<Rightarrow> int \<Rightarrow> (int \<times> go_error option) option"

definition health_probe_run :: "probe_client \<Rightarrow> string list \<Rightarrow> command_error option" where
  "health_probe_run client arguments =
     (case flag_parse [(''url'', StringFlag), (''timeout'', DurationFlag)] arguments [] of
        Inl e \<Rightarrow> Some (FlagError e)
      | Inr (actual, rest) \<Rightarrow>
          (let url = flag_value actual ''url'' defaultProbeURL;
               timeout = (case map_of actual ''timeout'' of None \<Rightarrow> 3 * Second | Some s \<Rightarrow> the (ParseDuration s))
           in if timeout \<le> 0 then Some (CommandError ''timeout must be positive'')
              else if \<not> pc_valid client url then Some (CommandError ''health probe URL is invalid'')
              else (case pc_Do client url timeout of
                None \<Rightarrow> Some (CommandError ''health probe request failed'')
              | Some (status, close_err) \<Rightarrow>
                  (case close_err of
                     Some e \<Rightarrow> Some (CommandError (''close health probe response: '' @ e))
                   | None \<Rightarrow>
                       if status \<noteq> 200 then Some (CommandError (''health probe returned status '' @ Itoa status)) else None))))"

section \<open>Exit codes\<close>

text \<open>\<^verbatim>\<open>main\<close> of the two configuration commands.\<close>

definition exit_code :: "'e option \<Rightarrow> int" where
  "exit_code err = (if err = None then 0 else 1)"

definition generate_dev_secrets_main :: "host \<Rightarrow> world \<Rightarrow> (flag_error \<Rightarrow> string) \<Rightarrow> bool \<Rightarrow> bool \<Rightarrow> go_error \<Rightarrow> string list \<Rightarrow> fs \<Rightarrow> int \<times> outcome_of \<times> fs" where
  "generate_dev_secrets_main h w flag_text stdout_ok stderr_ok write_error arguments s =
     (case generate_dev_secrets_run h w flag_text stdout_ok stderr_ok write_error arguments s of
        (out, s') \<Rightarrow> (exit_code (co_error out), out, s'))"

definition validate_deployment_main :: "host \<Rightarrow> (string \<Rightarrow> string list option) \<Rightarrow> (flag_error \<Rightarrow> string) \<Rightarrow> string list \<Rightarrow> int \<times> outcome_of" where
  "validate_deployment_main h os_ReadDir flag_text arguments =
     (let out = validate_deployment_run h os_ReadDir flag_text arguments in (exit_code (co_error out), out))"

text \<open>\<^verbatim>\<open>main\<close> of the bootstrap command logs its error, \<^verbatim>\<open>main\<close> of the health probe prints it; \<open>shown\<close> is the text of an error.\<close>

definition bootstrap_main :: "host \<Rightarrow> build \<Rightarrow> string list \<Rightarrow> int \<times> string \<times> string option" where
  "bootstrap_main h b arguments = (case bootstrap_run h b arguments of
     (None, out) \<Rightarrow> (0, out, None)
   | (Some e, out) \<Rightarrow> (1, out, Some (''bootstrap stopped: '' @ e)))"

definition health_probe_main :: "(command_error \<Rightarrow> string) \<Rightarrow> probe_client \<Rightarrow> string list \<Rightarrow> int \<times> string" where
  "health_probe_main shown client arguments = (case health_probe_run client arguments of
     None \<Rightarrow> (0, [])
   | Some e \<Rightarrow> (1, line (shown e)))"

section \<open>Facts\<close>

text \<open>Every value the flag parser returns was accepted by its flag.\<close>

definition accepted_all :: "(string \<times> flag_kind) list \<Rightarrow> (string \<times> string) list \<Rightarrow> bool" where
  "accepted_all formal actual \<longleftrightarrow> list_all (\<lambda>(n, v). case map_of formal n of None \<Rightarrow> False | Some k \<Rightarrow> flag_accepts k v) actual"

lemma flag_parse_accepted:
  "flag_parse formal args actual = Inr (out, rest) \<Longrightarrow> accepted_all formal actual \<Longrightarrow> accepted_all formal out"
proof (induction formal args actual arbitrary: out rest rule: flag_parse.induct)
  case (1 formal args actual)
  show ?case
  proof (cases "flag_one formal args")
    case (FlagSeen name v rest')
    have "flag_parse formal rest' ((name, v) # actual) = Inr (out, rest)"
      using "1.prems"(1) FlagSeen by (subst (asm) flag_parse.simps) simp
    moreover have "accepted_all formal ((name, v) # actual)"
      using flag_one_seen [OF FlagSeen] "1.prems"(2) by (auto simp: accepted_all_def)
    ultimately show ?thesis by (rule "1.IH" [OF FlagSeen])
  qed (use "1.prems" in \<open>subst (asm) flag_parse.simps; simp\<close>)+
qed

lemma health_probe_timeout:
  assumes "flag_parse [(''url'', StringFlag), (''timeout'', DurationFlag)] arguments [] = Inr (actual, rest)" "map_of actual ''timeout'' = Some t"
  shows "\<exists>d. ParseDuration t = Some d"
proof -
  have "accepted_all [(''url'', StringFlag), (''timeout'', DurationFlag)] actual"
    by (rule flag_parse_accepted [OF assms(1)]) (simp add: accepted_all_def)
  then show ?thesis using map_of_SomeD [OF assms(2)] by (force simp: accepted_all_def list_all_iff)
qed

end
