(* ===== verification/Strict_Json.thy ===== *)
theory Strict_Json
  imports Secrets
begin

text \<open>
  \<^verbatim>\<open>strictJSON\<close> reads a document twice: once token by token against a schema, once into the
  destination.  This theory shows that the two readings are of the same document: what the
  token scan accepts is a value of the grammar that conforms to the schema, and the second
  reading finds exactly that value.
\<close>

section \<open>Conformance\<close>

fun scalar_ok :: "json \<Rightarrow> bool" where
  "scalar_ok (JNumber n) = float64_finite n"
| "scalar_ok (JArray xs) = False"
| "scalar_ok (JObject ms) = False"
| "scalar_ok x = True"

inductive conforms :: "jsonSchema \<Rightarrow> json \<Rightarrow> bool" where
  conforms_scalar: "scalar_ok x \<Longrightarrow> conforms schema x"
| conforms_array: "\<forall>x\<in>set xs. conforms element x \<Longrightarrow> conforms (SArray element) (JArray xs)"
| conforms_object: "distinct (map fst ms) \<Longrightarrow>
    \<forall>(n, x)\<in>set ms. \<exists>child. map_of flds n = Some child \<and> conforms child x \<Longrightarrow>
    conforms (SObject flds) (JObject ms)"

inductive_cases conforms_JObjectE: "conforms schema (JObject ms)"
inductive_cases conforms_JArrayE: "conforms schema (JArray xs)"
inductive_cases conforms_nilE: "conforms SNil x"

section \<open>The tokens a value starts with\<close>

definition value_state :: "token_state \<Rightarrow> bool" where
  "value_state st \<longleftrightarrow> st \<in> {tokenTopValue, tokenArrayStart, tokenArrayComma, tokenObjectColon}"

text \<open>The text of the value that starts here, and the state the decoder is in once the separator is read.\<close>

definition value_text :: "decoder \<Rightarrow> string \<Rightarrow> token_state \<Rightarrow> bool" where
  "value_text d s st \<longleftrightarrow>
     (if dec_state d = tokenArrayComma then skip_space (dec_input d) = CHR '','' # s \<and> st = tokenArrayValue
      else if dec_state d = tokenObjectColon then skip_space (dec_input d) = CHR '':'' # s \<and> st = tokenObjectValue
      else s = dec_input d \<and> st = dec_state d)"

lemma no_separator:
  "tokenValueAllowed st \<Longrightarrow> separator st c = None"
  "st = tokenObjectStart \<or> st = tokenObjectKey \<Longrightarrow> separator st c = None"
  by (auto simp: tokenValueAllowed_def separator_def)

lemma Token_here:
  assumes "Token d = Got (tok, d1)" "\<And>c. separator (dec_state d) c = None"
  obtains c cs where "skip_space (dec_input d) = c # cs" "token_here d c cs = Got (tok, d1)"
  using assms by (auto simp: Token.simps [of d] split: list.splits)

lemma here_closes:
  assumes "token_here d c cs = Got (tok, d1)"
    "dec_state d \<in> {tokenArrayComma, tokenObjectColon, tokenObjectComma}"
  shows "tok = Delim (CHR '']'') \<or> tok = Delim (CHR ''}'')"
proof -
  have "\<not> tokenValueAllowed (dec_state d)" "dec_state d \<noteq> tokenObjectStart" "dec_state d \<noteq> tokenObjectKey"
    using assms(2) by (auto simp: tokenValueAllowed_def)
  with assms(1) show ?thesis
    by (auto simp: token_here_def open_composite_def close_composite_def split: if_splits list.splits)
qed

lemma value_token:
  assumes "value_state (dec_state d)" "Token d = Got (tok, d1)" "\<And>c. tok = Delim c \<Longrightarrow> c = CHR ''{'' \<or> c = CHR ''[''"
  obtains s st c cs where "value_text d s st" "tokenValueAllowed st" "skip_space s = c # cs"
    "token_here (d\<lparr>dec_input := s, dec_state := st\<rparr>) c cs = Got (tok, d1)"
proof (cases "dec_state d = tokenArrayComma \<or> dec_state d = tokenObjectColon")
  case False
  with assms(1) have "tokenValueAllowed (dec_state d)" by (auto simp: value_state_def tokenValueAllowed_def)
  moreover from this obtain c cs where "skip_space (dec_input d) = c # cs" "token_here d c cs = Got (tok, d1)"
    using Token_here [OF assms(2)] no_separator by metis
  ultimately show ?thesis using that [of "dec_input d" "dec_state d" c cs] False
    by (simp add: value_text_def)
next
  case True
  obtain c cs where s: "skip_space (dec_input d) = c # cs"
    using assms(2) by (auto simp: Token.simps [of d] split: list.splits)
  show ?thesis
  proof (cases "separator (dec_state d) c")
    case None
    with assms(2) s have "token_here d c cs = Got (tok, d1)" by (simp add: Token.simps [of d])
    with True have "tok = Delim (CHR '']'') \<or> tok = Delim (CHR ''}'')" by (blast dest: here_closes)
    with assms(3) [of "CHR '']''"] assms(3) [of "CHR ''}''"] show ?thesis by auto
  next
    case (Some st)
    let ?e = "d\<lparr>dec_input := cs, dec_state := st\<rparr>"
    from Some assms(2) s have t: "Token ?e = Got (tok, d1)" by (simp add: Token.simps [of d])
    from Some True have st: "tokenValueAllowed st" and vt: "value_text d cs st"
      by (auto simp: separator_def tokenValueAllowed_def value_text_def s split: if_splits)
    obtain b bs where "skip_space cs = b # bs" "token_here ?e b bs = Got (tok, d1)"
      using Token_here [OF t] no_separator(1) [OF st] by auto
    with that [OF vt st] show ?thesis by simp
  qed
qed

text \<open>The three kinds of token that can start a value.\<close>

lemma here_open:
  assumes "token_here d c cs = Got (Delim b, d1)" "b = CHR ''{'' \<or> b = CHR ''[''"
  shows "c = b \<and> d1 = \<lparr>dec_input = cs,
    dec_state = (if b = CHR ''{'' then tokenObjectStart else tokenArrayStart), dec_stack = dec_state d # dec_stack d\<rparr>"
  using assms
  by (auto simp: token_here_def open_composite_def close_composite_def scalar_token_def
      split: if_splits list.splits option.splits prod.splits)

lemma here_scalar:
  assumes "token_here d c cs = Got (Scalar x, d1)" "tokenValueAllowed (dec_state d)"
  shows "c \<noteq> CHR ''['' \<and> c \<noteq> CHR ''{'' \<and> lex_scalar (c # cs) = Some (x, dec_input d1) \<and> scalar_ok x \<and>
    dec_state d1 = tokenValueEnd (dec_state d) \<and> dec_stack d1 = dec_stack d"
proof -
  have "scalar_ok x" if "lex_scalar (c # cs) = Some (x, t)" "\<not> (case x of JNumber n \<Rightarrow> \<not> float64_finite n | _ \<Rightarrow> False)" for t
    using lex_scalar_flat [OF that(1)] that(2) by (cases x) auto
  with assms show ?thesis
    by (auto simp: token_here_def open_composite_def close_composite_def scalar_token_def tokenValueAllowed_def
        split: if_splits list.splits option.splits prod.splits)
qed

text \<open>A field name, where the decoder expects one.\<close>

lemma key_token:
  assumes "Token d = Got (Scalar x, d1)" "dec_state d = tokenObjectStart \<or> dec_state d = tokenObjectKey"
  obtains q r name where "skip_space (dec_input d) = q # r" "byte q = 34"
    "lex_string r = Some (name, dec_input d1)" "x = JString name"
    "dec_state d1 = tokenObjectColon" "dec_stack d1 = dec_stack d"
proof -
  obtain c cs where "skip_space (dec_input d) = c # cs" "token_here d c cs = Got (Scalar x, d1)"
    using Token_here [OF assms(1)] no_separator(2) [OF assms(2)] by blast
  with assms(2) that [of c cs] show ?thesis
    by (auto simp: token_here_def open_composite_def close_composite_def tokenValueAllowed_def
        split: if_splits list.splits option.splits prod.splits)
qed

lemma comma_key:
  assumes "Token d = Got (Scalar x, d1)" "dec_state d = tokenObjectComma"
  obtains cs where "skip_space (dec_input d) = CHR '','' # cs"
    "Token (d\<lparr>dec_input := cs, dec_state := tokenObjectKey\<rparr>) = Got (Scalar x, d1)"
proof -
  obtain c cs where s: "skip_space (dec_input d) = c # cs"
    using assms(1) by (auto simp: Token.simps [of d] split: list.splits)
  have "c = CHR '',''"
  proof (rule ccontr)
    assume "c \<noteq> CHR '',''"
    with assms s have "token_here d c cs = Got (Scalar x, d1)"
      by (simp add: Token.simps [of d] separator_def)
    with assms(2) show False by (auto dest: here_closes)
  qed
  with assms s that [of cs] show ?thesis by (simp add: Token.simps [of d] separator_def)
qed

text \<open>What is left of an object or array once the decoder stands before a name, an item or the end.\<close>

definition fields_text :: "token_state \<Rightarrow> string \<Rightarrow> (string \<times> json) list \<Rightarrow> string \<Rightarrow> bool" where
  "fields_text st s ms t \<longleftrightarrow>
     (if HasPrefix (skip_space s) ''}'' then ms = [] \<and> t = tl (skip_space s)
      else if st = tokenObjectStart then members_at s = Some (ms, t)
      else \<exists>cs. skip_space s = CHR '','' # cs \<and> members_at cs = Some (ms, t))"

definition items_text :: "token_state \<Rightarrow> string \<Rightarrow> json list \<Rightarrow> string \<Rightarrow> bool" where
  "items_text st s xs t \<longleftrightarrow>
     (if HasPrefix (skip_space s) '']'' then xs = [] \<and> t = tl (skip_space s)
      else if st = tokenArrayStart then items_at s = Some (xs, t)
      else \<exists>cs. skip_space s = CHR '','' # cs \<and> items_at cs = Some (xs, t))"

lemma closes_ok:
  assumes "closes c err d = Inr d'" "c = CHR '']'' \<or> c = CHR ''}''"
    "dec_state d \<in> {tokenArrayStart, tokenArrayComma, tokenObjectStart, tokenObjectComma}" "\<not> More d"
  shows "\<exists>cs st stack. skip_space (dec_input d) = c # cs \<and> dec_stack d = st # stack \<and>
    d' = \<lparr>dec_input = cs, dec_state = tokenValueEnd st, dec_stack = stack\<rparr>"
proof -
  have t: "Token d = Got (Delim c, d')"
    using assms(1) by (auto simp: closes_def split: outcome.splits if_splits)
  obtain b cs where s: "skip_space (dec_input d) = b # cs"
    using t by (auto simp: Token.simps [of d] split: list.splits)
  have b: "b = CHR '']'' \<or> b = CHR ''}''" using assms(4) s by (simp add: More_def)
  then have "token_here d b cs = Got (Delim c, d')"
    using t s by (auto simp: Token.simps [of d] separator_def)
  with b s assms(2) show ?thesis
    by (auto simp: token_here_def close_composite_def split: if_splits list.splits)
qed

lemma members_step:
  assumes "skip_space s = q # r" "byte q = 34" "lex_string r = Some (name, u)"
    and "skip_space u = CHR '':'' # v" "value_at v = Some (x, t)" "fields_text tokenObjectComma t ms w"
  shows "members_at s = Some ((name, x) # ms, w)"
proof (cases "HasPrefix (skip_space t) ''}''")
  case True
  then obtain cs where t: "skip_space t = CHR ''}'' # cs" by (auto simp: HasPrefix_one)
  show ?thesis
    using members_at_Some [OF assms(1-5) t] assms(6) True t by (simp add: fields_text_def)
next
  case False
  with assms(6) obtain cs where t: "skip_space t = CHR '','' # cs" "members_at cs = Some (ms, w)"
    by (auto simp: fields_text_def)
  show ?thesis using members_at_Some [OF assms(1-5) t(1)] t(2) by simp
qed

lemma items_step:
  assumes "value_at s = Some (x, t)" "items_text tokenArrayComma t xs w"
  shows "items_at s = Some (x # xs, w)"
proof (cases "HasPrefix (skip_space t) '']''")
  case True
  then obtain cs where t: "skip_space t = CHR '']'' # cs" by (auto simp: HasPrefix_one)
  show ?thesis using items_at_Some [OF assms(1) t] assms(2) True t by (simp add: items_text_def)
next
  case False
  with assms(2) obtain cs where t: "skip_space t = CHR '','' # cs" "items_at cs = Some (xs, w)"
    by (auto simp: items_text_def)
  show ?thesis using items_at_Some [OF assms(1) t(1)] t(2) by simp
qed

section \<open>The scan follows the grammar\<close>

definition value_scanned :: "jsonSchema \<Rightarrow> decoder \<Rightarrow> decoder \<Rightarrow> bool" where
  "value_scanned schema d d' \<longleftrightarrow> (\<exists>s st x. value_text d s st \<and>
     value_at s = Some (x, dec_input d') \<and> conforms schema x \<and>
     dec_state d' = tokenValueEnd st \<and> dec_stack d' = dec_stack d)"

definition fields_conform :: "(string \<times> jsonSchema) list \<Rightarrow> (string \<times> json) list \<Rightarrow> bool" where
  "fields_conform flds ms \<longleftrightarrow>
     (\<forall>(n, x)\<in>set ms. \<exists>child. map_of flds n = Some child \<and> conforms child x)"

definition fields_scanned ::
  "(string \<times> jsonSchema) list \<Rightarrow> string list \<Rightarrow> decoder \<Rightarrow> decoder \<Rightarrow> bool" where
  "fields_scanned flds seen d d' \<longleftrightarrow> (\<exists>ms st stack. dec_stack d = st # stack \<and>
     fields_text (dec_state d) (dec_input d) ms (dec_input d') \<and>
     distinct (map fst ms) \<and> set seen \<inter> fst ` set ms = {} \<and> fields_conform flds ms \<and>
     dec_state d' = tokenValueEnd st \<and> dec_stack d' = stack)"

definition items_scanned :: "jsonSchema \<Rightarrow> decoder \<Rightarrow> decoder \<Rightarrow> bool" where
  "items_scanned element d d' \<longleftrightarrow> (\<exists>xs st stack. dec_stack d = st # stack \<and>
     items_text (dec_state d) (dec_input d) xs (dec_input d') \<and> (\<forall>x\<in>set xs. conforms element x) \<and>
     dec_state d' = tokenValueEnd st \<and> dec_stack d' = stack)"

lemma fields_scanned_end:
  assumes "closes (CHR ''}'') err d = Inr d'" "\<not> More d"
    "dec_state d = tokenObjectStart \<or> dec_state d = tokenObjectComma"
  shows "fields_scanned flds seen d d'"
  using closes_ok [OF assms(1) _ _ assms(2)] assms(3)
  by (auto simp: fields_scanned_def fields_text_def fields_conform_def HasPrefix_one)

lemma items_scanned_end:
  assumes "closes (CHR '']'') err d = Inr d'" "\<not> More d"
    "dec_state d = tokenArrayStart \<or> dec_state d = tokenArrayComma"
  shows "items_scanned element d d'"
  using closes_ok [OF assms(1) _ _ assms(2)] assms(3)
  by (auto simp: items_scanned_def items_text_def HasPrefix_one)

lemma fields_scanned_step:
  assumes t: "Token d = Got (Scalar (JString name), d1)" and m: "More d"
    and st: "dec_state d = tokenObjectStart \<or> dec_state d = tokenObjectComma"
    and fresh: "name \<notin> set seen" and child: "map_of flds name = Some child"
    and v: "value_scanned child d1 d2" and rest: "dec_state d2 = tokenObjectComma \<Longrightarrow> fields_scanned flds (name # seen) d2 d'"
  shows "fields_scanned flds seen d d'"
proof -
  obtain s q r where s: "skip_space s = q # r" "byte q = 34" "lex_string r = Some (name, dec_input d1)"
    and d1: "dec_state d1 = tokenObjectColon" "dec_stack d1 = dec_stack d"
    and here: "if dec_state d = tokenObjectStart then s = dec_input d else skip_space (dec_input d) = CHR '','' # s"
  proof (cases "dec_state d = tokenObjectStart")
    case True
    with t that show ?thesis by (elim key_token) auto
  next
    case False
    with st have "dec_state d = tokenObjectComma" by simp
    from comma_key [OF t this] obtain cs where "skip_space (dec_input d) = CHR '','' # cs"
      "Token (d\<lparr>dec_input := cs, dec_state := tokenObjectKey\<rparr>) = Got (Scalar (JString name), d1)" .
    with that False show ?thesis by (elim key_token) auto
  qed
  from v d1 obtain u x where x: "skip_space (dec_input d1) = CHR '':'' # u" "value_at u = Some (x, dec_input d2)"
    "conforms child x" and d2: "dec_state d2 = tokenObjectComma" "dec_stack d2 = dec_stack d"
    by (auto simp: value_scanned_def value_text_def tokenValueEnd_def)
  from rest [OF d2(1)] d2 obtain ms st' stack where ms: "dec_stack d = st' # stack"
    "fields_text tokenObjectComma (dec_input d2) ms (dec_input d')" "distinct (map fst ms)"
    "set (name # seen) \<inter> fst ` set ms = {}" "fields_conform flds ms"
    "dec_state d' = tokenValueEnd st'" "dec_stack d' = stack"
    by (auto simp: fields_scanned_def)
  have "members_at s = Some ((name, x) # ms, dec_input d')"
    using s x(1,2) ms(2) by (rule members_step)
  with here m st have "fields_text (dec_state d) (dec_input d) ((name, x) # ms) (dec_input d')"
    by (auto simp: fields_text_def More_def HasPrefix_one split: if_splits list.splits)
  moreover have "distinct (map fst ((name, x) # ms))" "set seen \<inter> fst ` set ((name, x) # ms) = {}"
    "fields_conform flds ((name, x) # ms)"
    using ms(3-5) fresh child x(3) by (auto simp: fields_conform_def)
  ultimately show ?thesis using ms(1,6,7) unfolding fields_scanned_def by blast
qed

lemma items_scanned_step:
  assumes m: "More d" and st: "dec_state d = tokenArrayStart \<or> dec_state d = tokenArrayComma"
    and v: "value_scanned element d d1" and rest: "dec_state d1 = tokenArrayComma \<Longrightarrow> items_scanned element d1 d'"
  shows "items_scanned element d d'"
proof -
  from v st obtain s x where x: "value_at s = Some (x, dec_input d1)" "conforms element x"
    and d1: "dec_state d1 = tokenArrayComma" "dec_stack d1 = dec_stack d"
    and here: "if dec_state d = tokenArrayStart then s = dec_input d else skip_space (dec_input d) = CHR '','' # s"
    by (auto simp: value_scanned_def value_text_def tokenValueEnd_def)
  from rest [OF d1(1)] d1 obtain xs st' stack where xs: "dec_stack d = st' # stack"
    "items_text tokenArrayComma (dec_input d1) xs (dec_input d')" "\<forall>x\<in>set xs. conforms element x"
    "dec_state d' = tokenValueEnd st'" "dec_stack d' = stack"
    by (auto simp: items_scanned_def)
  have "items_at s = Some (x # xs, dec_input d')" using x(1) xs(2) by (rule items_step)
  with here m st have "items_text (dec_state d) (dec_input d) (x # xs) (dec_input d')"
    by (auto simp: items_text_def More_def HasPrefix_one split: if_splits list.splits)
  moreover have "\<forall>y\<in>set (x # xs). conforms element y" using xs(3) x(2) by simp
  ultimately show ?thesis using xs(1,4,5) unfolding items_scanned_def by blast
qed

lemma value_scanned_scalar:
  assumes "Token d = Got (Scalar x, d')" "value_state (dec_state d)"
  shows "value_scanned schema d d'"
proof -
  obtain s st c cs where s: "value_text d s st" "tokenValueAllowed st" "skip_space s = c # cs"
    "token_here (d\<lparr>dec_input := s, dec_state := st\<rparr>) c cs = Got (Scalar x, d')"
    by (rule value_token [OF assms(2,1)]) auto
  from here_scalar [OF s(4)] s(2) have x: "c \<noteq> CHR ''[''" "c \<noteq> CHR ''{''"
    "lex_scalar (c # cs) = Some (x, dec_input d')" "scalar_ok x"
    and d': "dec_state d' = tokenValueEnd st" "dec_stack d' = dec_stack d" by auto
  have "value_at s = Some (x, dec_input d')" using x by (simp add: value_at_Cons [OF s(3)])
  with s(1) d' conforms_scalar [OF x(4)] show ?thesis unfolding value_scanned_def by blast
qed

lemma value_scanned_object:
  assumes "Token d = Got (Delim (CHR ''{''), d1)" "value_state (dec_state d)"
    and "dec_state d1 = tokenObjectStart \<Longrightarrow> fields_scanned flds [] d1 d'"
  shows "value_scanned (SObject flds) d d'"
proof -
  obtain s st c cs where s: "value_text d s st" "tokenValueAllowed st" "skip_space s = c # cs"
    "token_here (d\<lparr>dec_input := s, dec_state := st\<rparr>) c cs = Got (Delim (CHR ''{''), d1)"
    by (rule value_token [OF assms(2,1)]) auto
  then have c: "c = CHR ''{''" and d1: "d1 = \<lparr>dec_input = cs, dec_state = tokenObjectStart, dec_stack = st # dec_stack d\<rparr>"
    using here_open [OF s(4)] by auto
  with assms(3) obtain ms where ms: "fields_text tokenObjectStart cs ms (dec_input d')" "distinct (map fst ms)"
    "fields_conform flds ms" "dec_state d' = tokenValueEnd st" "dec_stack d' = dec_stack d"
    by (auto simp: fields_scanned_def)
  have "value_at s = Some (JObject ms, dec_input d')"
    using ms(1) by (auto simp: value_at_Cons [OF s(3)] c fields_text_def)
  moreover have "conforms (SObject flds) (JObject ms)"
    using ms(2,3) by (intro conforms_object) (auto simp: fields_conform_def)
  ultimately show ?thesis using s(1) ms(4,5) by (auto simp: value_scanned_def)
qed

lemma value_scanned_array:
  assumes "Token d = Got (Delim (CHR ''[''), d1)" "value_state (dec_state d)"
    and "dec_state d1 = tokenArrayStart \<Longrightarrow> items_scanned element d1 d'"
  shows "value_scanned (SArray element) d d'"
proof -
  obtain s st c cs where s: "value_text d s st" "tokenValueAllowed st" "skip_space s = c # cs"
    "token_here (d\<lparr>dec_input := s, dec_state := st\<rparr>) c cs = Got (Delim (CHR ''[''), d1)"
    by (rule value_token [OF assms(2,1)]) auto
  then have c: "c = CHR ''[''" and d1: "d1 = \<lparr>dec_input = cs, dec_state = tokenArrayStart, dec_stack = st # dec_stack d\<rparr>"
    using here_open [OF s(4)] by auto
  with assms(3) obtain xs where xs: "items_text tokenArrayStart cs xs (dec_input d')"
    "\<forall>x\<in>set xs. conforms element x" "dec_state d' = tokenValueEnd st" "dec_stack d' = dec_stack d"
    by (auto simp: items_scanned_def)
  have "value_at s = Some (JArray xs, dec_input d')"
    using xs(1) by (auto simp: value_at_Cons [OF s(3)] c items_text_def)
  with xs(2-4) s(1) show ?thesis by (auto simp: value_scanned_def intro: conforms_array)
qed

lemma name_then_colon:
  assumes "Token d = Got (Scalar x, d1)" "dec_state d = tokenObjectStart \<or> dec_state d = tokenObjectComma"
  shows "dec_state d1 = tokenObjectColon"
proof (cases "dec_state d = tokenObjectStart")
  case True
  with assms(1) show ?thesis by (blast elim: key_token)
next
  case False
  with assms(2) have "dec_state d = tokenObjectComma" by simp
  from comma_key [OF assms(1) this] obtain cs
    where "Token (d\<lparr>dec_input := cs, dec_state := tokenObjectKey\<rparr>) = Got (Scalar x, d1)" .
  then show ?thesis by (rule key_token) auto
qed

lemma scan_fieldsE:
  assumes "scan_fields h flds seen d = Inr d'" "More d"
  obtains name d1 child d2 where "Token d = Got (Scalar (JString name), d1)"
    "name \<notin> set seen" "map_of flds name = Some child" "scanJSONValue h child d1 = Inr d2"
    "length (dec_input d2) < length (dec_input d)" "scan_fields h flds (name # seen) d2 = Inr d'"
  using assms
  by (auto simp: scan_fields.simps [of h flds seen d]
      split: outcome.splits prod.splits token.splits json.splits if_splits option.splits sum.splits)

lemma scanJSONValueE:
  assumes "scanJSONValue h schema d = Inr d'"
  obtains (scalar) x where "Token d = Got (Scalar x, d')"
  | (object) d1 flds where "Token d = Got (Delim (CHR ''{''), d1)" "schema = SObject flds" "scan_fields h flds [] d1 = Inr d'"
  | (array) d1 element where "Token d = Got (Delim (CHR ''[''), d1)" "schema = SArray element" "scan_items h element d1 = Inr d'"
  using assms
  by (auto simp: scanJSONValue.simps [of h schema d]
      split: outcome.splits token.splits if_splits jsonSchema.splits)

lemma scan_sound:
  "scanJSONValue h schema d = Inr d' \<Longrightarrow> value_state (dec_state d) \<Longrightarrow> value_scanned schema d d'"
  "scan_fields h flds seen d = Inr d' \<Longrightarrow> dec_state d = tokenObjectStart \<or> dec_state d = tokenObjectComma \<Longrightarrow>
     fields_scanned flds seen d d'"
  "scan_items h element d = Inr d' \<Longrightarrow> dec_state d = tokenArrayStart \<or> dec_state d = tokenArrayComma \<Longrightarrow>
     items_scanned element d d'"
proof (induction h schema d and h flds seen d and h element d arbitrary: d' and d' and d'
    rule: scanJSONValue_scan_fields_scan_items.induct)
  case (1 h schema d)
  from 1(3) show ?case
  proof (cases rule: scanJSONValueE)
    case (scalar x)
    then show ?thesis using 1(4) by (rule value_scanned_scalar)
  next
    case (object d1 flds)
    have "fields_scanned flds [] d1 d'" if "dec_state d1 = tokenObjectStart"
      using 1(1) [OF object(1) refl refl refl object(2,3)] that by simp
    with value_scanned_object [OF object(1) 1(4)] object(2) show ?thesis by simp
  next
    case (array d1 element)
    have "items_scanned element d1 d'" if "dec_state d1 = tokenArrayStart"
      using 1(2) [OF array(1) refl refl _ refl array(2,3)] that by simp
    with value_scanned_array [OF array(1) 1(4)] array(2) show ?thesis by simp
  qed
next
  case (2 h flds seen d)
  show ?case
  proof (cases "More d")
    case False
    with 2(3) have "closes (CHR ''}'') ''unterminated object'' d = Inr d'"
      by (simp add: scan_fields.simps [of h flds])
    with False 2(4) show ?thesis by (blast intro: fields_scanned_end)
  next
    case True
    from scan_fieldsE [OF 2(3) True] obtain name d1 child d2 where
      t: "Token d = Got (Scalar (JString name), d1)"
      and n: "name \<notin> set seen" "map_of flds name = Some child" and v: "scanJSONValue h child d1 = Inr d2"
      and l: "length (dec_input d2) < length (dec_input d)" and r: "scan_fields h flds (name # seen) d2 = Inr d'" .
    show ?thesis
    proof (rule fields_scanned_step [OF t True 2(4) n])
      show "value_scanned child d1 d2"
        using 2(1) [OF _ t refl refl refl n(1,2) v] True name_then_colon [OF t 2(4)] by (simp add: value_state_def)
      show "fields_scanned flds (name # seen) d2 d'" if "dec_state d2 = tokenObjectComma"
        using 2(2) [OF _ t refl refl refl n(1,2) v l r] True that by simp
    qed
  qed
next
  case (3 h element d)
  show ?case
  proof (cases "More d")
    case False
    with 3(3) have "closes (CHR '']'') ''unterminated array'' d = Inr d'"
      by (simp add: scan_items.simps [of h element])
    with False 3(4) show ?thesis by (blast intro: items_scanned_end)
  next
    case True
    with 3(3) obtain d1 where v: "scanJSONValue h element d = Inr d1"
      and l: "length (dec_input d1) < length (dec_input d)" and r: "scan_items h element d1 = Inr d'"
      by (auto simp: scan_items.simps [of h element d] split: sum.splits if_splits)
    show ?thesis
    proof (rule items_scanned_step [OF True 3(4)])
      show "value_scanned element d d1" using 3(1) [OF _ v] 3(4) True by (auto simp: value_state_def)
      show "items_scanned element d1 d'" if "dec_state d1 = tokenArrayComma"
        using 3(2) [OF _ v l r] True that by simp
    qed
  qed
qed

text \<open>A scanned value has consumed input, so the progress test in the two loops never fails.\<close>

lemma closes_length: "closes c err d = Inr d' \<Longrightarrow> length (dec_input d') < length (dec_input d)"
  by (auto simp: closes_def dest: Token_length split: outcome.splits if_splits)

lemma scan_progress:
  "scanJSONValue h schema d = Inr d' \<Longrightarrow> length (dec_input d') < length (dec_input d)"
  "scan_fields h flds seen d = Inr d' \<Longrightarrow> length (dec_input d') < length (dec_input d)"
  "scan_items h element d = Inr d' \<Longrightarrow> length (dec_input d') < length (dec_input d)"
proof (induction h schema d and h flds seen d and h element d arbitrary: d' and d' and d'
    rule: scanJSONValue_scan_fields_scan_items.induct)
  case (1 h schema d)
  from 1(3) show ?case
  proof (cases rule: scanJSONValueE)
    case (scalar x)
    then show ?thesis by (rule Token_length)
  next
    case (object d1 flds)
    with 1(1) [OF object(1) refl refl refl object(2,3)] Token_length [OF object(1)] show ?thesis by simp
  next
    case (array d1 element)
    with 1(2) [OF array(1) refl refl _ refl array(2,3)] Token_length [OF array(1)] show ?thesis by simp
  qed
next
  case (2 h flds seen d)
  show ?case
  proof (cases "More d")
    case False
    with 2(3) show ?thesis by (auto simp: scan_fields.simps [of h flds seen d] dest: closes_length)
  next
    case True
    from scan_fieldsE [OF 2(3) True] obtain name d1 child d2 where
      t: "Token d = Got (Scalar (JString name), d1)"
      and n: "name \<notin> set seen" "map_of flds name = Some child" and v: "scanJSONValue h child d1 = Inr d2"
      and l: "length (dec_input d2) < length (dec_input d)" and r: "scan_fields h flds (name # seen) d2 = Inr d'" .
    with 2(2) [OF _ t refl refl refl n v l r] True l show ?thesis by linarith
  qed
next
  case (3 h element d)
  then show ?case
    by (auto simp: scan_items.simps [of h element d] dest: closes_length split: sum.splits if_splits)
      (meson less_trans)
qed

lemma scan_loops:
  "More d \<Longrightarrow> Token d = Got (Scalar (JString name), d1) \<Longrightarrow> name \<notin> set seen \<Longrightarrow>
     map_of flds name = Some child \<Longrightarrow>
     scan_fields h flds seen d = bindE (scanJSONValue h child d1) (\<lambda>d2. scan_fields h flds (name # seen) d2)"
  "More d \<Longrightarrow> scan_items h element d = bindE (scanJSONValue h element d) (\<lambda>d1. scan_items h element d1)"
proof -
  assume "More d" and t: "Token d = Got (Scalar (JString name), d1)" and "name \<notin> set seen"
    and "map_of flds name = Some child"
  then show "scan_fields h flds seen d = bindE (scanJSONValue h child d1) (\<lambda>d2. scan_fields h flds (name # seen) d2)"
    using scan_progress(1) [of h child d1] Token_length [OF t]
    by (cases "scanJSONValue h child d1") (fastforce simp: scan_fields.simps [of h flds seen d])+
next
  assume "More d"
  then show "scan_items h element d = bindE (scanJSONValue h element d) (\<lambda>d1. scan_items h element d1)"
    using scan_progress(1) [of h element d]
    by (cases "scanJSONValue h element d") (auto simp: scan_items.simps [of h element d])
qed

section \<open>Both readings agree\<close>

lemma scan_document:
  assumes "scanJSONValue h schema (NewDecoder s) = Inr d" "Token d = EOF"
  obtains x where "Decode s = Got (x, dec_input d)" "conforms schema x" "Decode (dec_input d) = EOF"
proof -
  from scan_sound(1) [OF assms(1)] obtain x where x: "value_at s = Some (x, dec_input d)" "conforms schema x"
    and st: "dec_state d = tokenTopValue"
    by (auto simp: value_scanned_def value_text_def value_state_def NewDecoder_def tokenValueEnd_def)
  have "skip_space s \<noteq> []"
    using x(1) by (auto simp: value_at_def)
  moreover have "skip_space (dec_input d) = []"
  proof (cases "skip_space (dec_input d)")
    case (Cons c cs)
    with assms(2) st have "token_here d c cs = EOF" by (simp add: Token.simps [of d] separator_def)
    then show ?thesis
      by (auto simp: token_here_def open_composite_def close_composite_def scalar_token_def
          split: if_splits list.splits option.splits prod.splits)
  qed
  ultimately show ?thesis using that [of x] x by (simp add: Decode_value_at)
qed

lemma strictJSON_ok:
  assumes "strictJSON h setting s destination schema = Inr w"
  obtains x rest where "Decode s = Got (x, rest)" "skip_space rest = []" "conforms schema x"
    "destination x = Some w"
proof -
  from assms obtain d x rest where d: "scanJSONValue h schema (NewDecoder s) = Inr d" "Token d = EOF"
    and x: "Decode s = Got (x, rest)" "destination x = Some w"
    by (auto simp: strictJSON_def result_simps split: sum.splits outcome.splits)
  from scan_document [OF d] obtain y where "Decode s = Got (y, dec_input d)" "conforms schema y"
    "Decode (dec_input d) = EOF" .
  with x that [of x rest] show ?thesis by (auto simp: Decode_def split: if_splits option.splits)
qed

lemma strictJSON_scanned:
  assumes "scanJSONValue h schema (NewDecoder s) = Inr d" "Token d = EOF"
  shows "\<exists>x. conforms schema x \<and> Decode s = Got (x, dec_input d) \<and>
    strictJSON h setting s destination schema =
      (case destination x of None \<Rightarrow> Inl (read_error setting ''invalid JSON'') | Some w \<Rightarrow> Inr w)"
proof -
  from scan_document [OF assms] obtain x where "Decode s = Got (x, dec_input d)" "conforms schema x"
    "Decode (dec_input d) = EOF" .
  with assms show ?thesis by (auto simp: strictJSON_def split: option.splits)
qed

section \<open>Properties\<close>

text \<open>Once the token scan of \<^verbatim>\<open>strictJSON\<close> accepts a document, the second reading cannot
  disagree with it: there is one value, it conforms to the schema (only its fields, no field
  twice, objects and arrays only where the schema has them), the decoder finds exactly it, and
  only a field of the wrong type can still make the file invalid.\<close>

theorem strictJSON_single_reading:
  assumes "scanJSONValue h schema (NewDecoder contents) = Inr d" "Token d = EOF"
  shows "\<exists>x. conforms schema x \<and> Decode contents = Got (x, dec_input d) \<and>
    strictJSON h setting contents destination schema =
      (case destination x of None \<Rightarrow> Inl (read_error setting ''invalid JSON'') | Some w \<Rightarrow> Inr w)"
  by (rule strictJSON_scanned [OF assms])

definition sample_ring :: string where
  "sample_ring =
     [CHR ''{'', CHR 0x22] @ ''version'' @ [CHR 0x22] @ '':1,'' @
     [CHR 0x22] @ ''active_key_id'' @ [CHR 0x22, CHR '':'', CHR 0x22] @ ''k1'' @ [CHR 0x22, CHR '','', CHR 0x22] @
     ''keys'' @ [CHR 0x22] @ '':[{'' @
     [CHR 0x22] @ ''key_id'' @ [CHR 0x22, CHR '':'', CHR 0x22] @ ''k1'' @ [CHR 0x22, CHR '','', CHR 0x22] @
     ''key'' @ [CHR 0x22, CHR '':'', CHR 0x22] @ sample_key @ [CHR 0x22] @ ''}]}''"

theorem strictJSON_single_reading_witness:
  "\<exists>x. conforms ring_schema x \<and> Decode sample_ring = Got (x, []) \<and>
     strictJSON (memory_host []) ''S'' sample_ring (decode_ring (memory_host [])) ring_schema =
      (case decode_ring (memory_host []) x of
         None \<Rightarrow> Inl (read_error ''S'' ''invalid JSON'') | Some w \<Rightarrow> Inr w)"
proof -
  let ?d = "\<lparr>dec_input = [], dec_state = tokenTopValue, dec_stack = []\<rparr>"
  have s: "scanJSONValue (memory_host []) ring_schema (NewDecoder sample_ring) = Inr ?d" by code_simp
  have "Token ?d = EOF" by code_simp
  from strictJSON_single_reading [OF s this, of "''S''" "decode_ring (memory_host [])"] show ?thesis by simp
qed

text \<open>What one stored field keeps, the whole struct keeps.\<close>

lemma decode_members_keeps:
  assumes "decode_members select store ms w = Some w'" "P w" "\<And>f x v v'. store f x v = Some v' \<Longrightarrow> P v \<Longrightarrow> P v'"
  shows "P w'"
  using assms(1,2)
proof (induction ms arbitrary: w)
  case (Cons m ms)
  then obtain f v where "store f (snd m) w = Some v" "decode_members select store ms v = Some w'"
    by (cases m) (auto split: option.splits)
  with Cons.IH [of v] assms(3) [of f "snd m" w v] Cons.prems(2) show ?case by blast
qed simp

lemma decode_provider_epoch: "decode_provider h x = Some w \<Longrightarrow> int64 (w_ExpectedEpoch w)"
proof -
  have int: "int64 n" if "decode_int y old = Some n" "int64 old" for y old n
    using that by (auto simp: decode_int_def dest: ParseInt64_int64 split: json.splits)
  have "int64 (w_ExpectedEpoch v')" if "store_wire h f y v = Some v'" "int64 (w_ExpectedEpoch v)" for f y v v'
    using that by (auto simp: store_wire_def dest: int split: if_splits)
  then show "decode_provider h x = Some w \<Longrightarrow> int64 (w_ExpectedEpoch w)"
    using decode_members_keeps [where P = "\<lambda>w. int64 (w_ExpectedEpoch w)" and store = "store_wire h"]
    by (auto simp: decode_provider_def decode_struct_def zero_wire_def int64_def split: json.splits)
qed

text \<open>C16. A provider key ring that was read comes from a protected file of at most 64 KiB and is well
  formed: distinct valid key ids, 32-byte keys, an active id that names one of them, and an
  expected epoch between 1 and the largest int64.\<close>

theorem ReadProviderKeyRing_wf:
  assumes "ReadProviderKeyRing h path = Inr r"
  shows "ring_wf (ring r) \<and> 1 \<le> expectedEpoch r \<and> expectedEpoch r \<le> 9223372036854775807 \<and>
    (\<exists>f. openProtectedFile h ''MASTER_KEYRING_FILE'' path = Inr f \<and> length (of_contents f) \<le> 64 * 1024)"
proof -
  from assms obtain contents w where c: "readSecretBytes h ''MASTER_KEYRING_FILE'' path keyRingMaximumBytes = Inr contents"
    and w: "strictJSON h ''MASTER_KEYRING_FILE'' contents (decode_provider h) provider_schema = Inr w"
    and e: "1 \<le> w_ExpectedEpoch w" "expectedEpoch r = w_ExpectedEpoch w"
    and v: "validateRing ''MASTER_KEYRING_FILE'' (w_Version w) (w_ActiveKeyID w) (w_Keys w) = Inr (ring r)"
    by (auto simp: ReadProviderKeyRing_def Let_def result_simps)
  from w obtain x where "decode_provider h x = Some w" by (rule strictJSON_ok)
  then have "int64 (w_ExpectedEpoch w)" by (rule decode_provider_epoch)
  moreover from c obtain f where "protected h path f" "length (of_contents f) \<le> 64 * 1024"
    using ReadAll_limited_whole [of _ keyRingMaximumBytes]
    by (fastforce simp: readSecretBytes_ok secret_bytes_def keyRingMaximumBytes_def)
  ultimately show ?thesis
    using e validateRing_wf [OF v] by (auto simp: openProtectedFile_ok int64_def)
qed

definition sample_provider_ring :: string where
  "sample_provider_ring =
     [CHR ''{'', CHR 0x22] @ ''version'' @ [CHR 0x22] @ '':1,'' @
     [CHR 0x22] @ ''expected_epoch'' @ [CHR 0x22] @ '':7,'' @ drop 13 sample_ring"

theorem ReadProviderKeyRing_wf_witness:
  "ring_wf \<lparr>activeKeyID = ''k1'', keys = [(''k1'', replicate 32 (CHR ''a''))]\<rparr>"
proof -
  have "ReadProviderKeyRing (memory_host [(''/k'', sample_provider_ring)]) ''/k'' =
      Inr \<lparr>ring = \<lparr>activeKeyID = ''k1'', keys = [(''k1'', replicate 32 (CHR ''a''))]\<rparr>, expectedEpoch = 7\<rparr>"
    by code_simp
  from ReadProviderKeyRing_wf [OF this] show ?thesis by simp
qed


end
