(* ===== verification/Process.thy ===== *)
theory Process
  imports Lifecycle Telemetry Clients Commands Strict_Json
begin

text \<open>
  \<^verbatim>\<open>apps/gateway\<close>, \<^verbatim>\<open>apps/control-plane\<close> and \<^verbatim>\<open>apps/worker\<close>: how a service is put together.  The start is
  a function of the environment; the running service is the dependency machine, the HTTP server,
  the health flag and the telemetry runtime, whose steps interleave.
\<close>

section \<open>Starting a service\<close>

definition readiness_policy :: "DependencyReadiness \<Rightarrow> ReadinessPolicy" where
  "readiness_policy d = \<lparr>rp_StartupTimeout = dr_StartupTimeout d, rp_ProbeTimeout = dr_ProbeTimeout d,
     rp_ProbeInterval = dr_ProbeInterval d, rp_RetryMinimum = dr_RetryMinimum d, rp_RetryMaximum = dr_RetryMaximum d\<rparr>"

text \<open>The libraries a service uses.\<close>

record 'c libraries =
  lib_lower :: "string \<Rightarrow> string"
  lib_exporter_err :: "exporter_options \<Rightarrow> string option"
  lib_resource_err :: "(string \<times> string) list \<Rightarrow> string option"
  lib_pg_ParseConfig :: "string \<Rightarrow> go_error + 'c"
  lib_pg_New :: "'c pool_config \<Rightarrow> bool"
  lib_redis_ParseURL :: "string \<Rightarrow> go_error + redis_options"

record 'c service =
  sv_server :: Server
  sv_policy :: ReadinessPolicy
  sv_clients :: "'c Clients"
  sv_probes :: "Probe list"
  sv_health :: Health
  sv_telemetry :: Runtime

text \<open>What the three services build from their settings; \<^verbatim>\<open>Handler\<close> and the middleware are those of the parts.\<close>

definition new_service :: "HTTP \<Rightarrow> ReadinessPolicy \<Rightarrow> Runtime \<Rightarrow> 'c Clients \<Rightarrow> 'c service" where
  "new_service http policy telemetry clients =
     \<lparr>sv_server = New_server (http_Address http) (http_ShutdownGrace http), sv_policy = policy, sv_clients = clients,
      sv_probes = Probes True clients, sv_health = \<lparr>health_ready = False\<rparr>, sv_telemetry = telemetry\<rparr>"

definition start_service :: "'c libraries \<Rightarrow> string \<Rightarrow> string \<Rightarrow> Observability \<Rightarrow> HTTP \<Rightarrow> DependencyReadiness \<Rightarrow> Database \<Rightarrow> Redis \<Rightarrow>
    go_error + 'c service option" where
  "start_service lib name version obs http rd database redis =
     bindE (New_runtime (lib_lower lib) name version obs (lib_exporter_err lib) (lib_resource_err lib)) (\<lambda>telemetry.
     case telemetry of
       None \<Rightarrow> Inr None
     | Some r \<Rightarrow>
         (let policy = readiness_policy rd in
          bindE (fst (Open (lib_pg_ParseConfig lib) (lib_pg_New lib) (lib_redis_ParseURL lib) database redis (rp_ProbeTimeout policy))) (\<lambda>clients.
          Inr (Some (new_service http policy r clients)))))"

definition gateway_run :: "'c libraries \<Rightarrow> host \<Rightarrow> string list \<Rightarrow> go_error + 'c service option" where
  "gateway_run lib h environ =
     bindE (LoadGateway h environ) (\<lambda>settings.
     start_service lib ''gateway'' (sd_Version (gw_Shared settings)) (gw_Observability settings) (gw_HTTP settings)
       (gw_Readiness settings) (gw_Database settings) (gw_Redis settings))"

definition control_plane_run :: "'c libraries \<Rightarrow> host \<Rightarrow> string list \<Rightarrow> go_error + 'c service option" where
  "control_plane_run lib h environ =
     bindE (LoadControlPlane h environ) (\<lambda>settings.
     start_service lib ''control-plane'' (sd_Version (cp_Shared settings)) (cp_Observability settings) (cp_HTTP settings)
       (cp_Readiness settings) (cp_Database settings) (cp_Redis settings))"

definition worker_run :: "'c libraries \<Rightarrow> host \<Rightarrow> string list \<Rightarrow> go_error + 'c service option" where
  "worker_run lib h environ =
     bindE (LoadWorker h environ) (\<lambda>settings.
     start_service lib ''worker'' (sd_Version (wk_Shared settings)) (wk_Observability settings) (wk_HTTP settings)
       (wk_Readiness settings) (wk_Database settings) (wk_Redis settings))"

text \<open>\<^verbatim>\<open>shutdownTelemetry\<close> and the last line of \<^verbatim>\<open>main\<close>: the record that is logged, if any.\<close>

definition error_record :: "int option \<Rightarrow> string \<Rightarrow> go_error \<Rightarrow> log_record" where
  "error_record now event e = \<lparr>lr_time = now, lr_level = LevelError, lr_message = event, lr_attrs = [(''error_message'', SafeError (Some e))]\<rparr>"

definition shutdownTelemetry :: "int option \<Rightarrow> Runtime \<Rightarrow> string option \<Rightarrow> log_record option" where
  "shutdownTelemetry now r provider_err =
     map_option (error_record now ''telemetry.shutdown.failed'') (Shutdown_runtime r provider_err)"

text \<open>
  The whole of \<^verbatim>\<open>run\<close> after the settings have been loaded: its result, what happens in which order with
  the deferred calls included, and the logger it has installed.  \<open>body\<close> is \<^verbatim>\<open>dependency.Run\<close>, which is the
  machine below; \<open>flush\<close> is the error of the provider's shutdown.  \<^const>\<open>None\<close> is a panic.
\<close>

datatype service_event =
    TelemetryInstalled
  | ClientEvent client_event
  | DependencyRun
  | TelemetryShutdown "log_record option"

type_synonym run_report = "go_error option \<times> service_event list \<times> redactingHandler option"

definition service_run :: "'c libraries \<Rightarrow> int option \<Rightarrow> ('c service \<Rightarrow> go_error option) \<Rightarrow> string option \<Rightarrow> string \<Rightarrow> string \<Rightarrow>
    Observability \<Rightarrow> HTTP \<Rightarrow> DependencyReadiness \<Rightarrow> Database \<Rightarrow> Redis \<Rightarrow> run_report option" where
  "service_run lib now body flush name version obs http rd database redis =
     (case New_runtime (lib_lower lib) name version obs (lib_exporter_err lib) (lib_resource_err lib) of
        Inl e \<Rightarrow> Some (Some e, [], None)
      | Inr None \<Rightarrow> None
      | Inr (Some r) \<Rightarrow>
          (let policy = readiness_policy rd;
               finish = (\<lambda>result events. Some (result,
                 TelemetryInstalled # events @ [TelemetryShutdown (shutdownTelemetry now r flush)], Some (Logger r)))
           in case Open (lib_pg_ParseConfig lib) (lib_pg_New lib) (lib_redis_ParseURL lib) database redis (rp_ProbeTimeout policy) of
                (Inl e, opened) \<Rightarrow> finish (Some e) (map ClientEvent opened)
              | (Inr clients, opened) \<Rightarrow> finish (body (new_service http policy r clients))
                  (map ClientEvent opened @ [DependencyRun] @ map ClientEvent (Close (Some clients)))))"

definition gateway_report :: "'c libraries \<Rightarrow> int option \<Rightarrow> ('c service \<Rightarrow> go_error option) \<Rightarrow> string option \<Rightarrow> host \<Rightarrow> string list \<Rightarrow> run_report option" where
  "gateway_report lib now body flush h environ =
     (case LoadGateway h environ of
        Inl e \<Rightarrow> Some (Some e, [], None)
      | Inr s \<Rightarrow> service_run lib now body flush ''gateway'' (sd_Version (gw_Shared s)) (gw_Observability s) (gw_HTTP s)
          (gw_Readiness s) (gw_Database s) (gw_Redis s))"

definition control_plane_report :: "'c libraries \<Rightarrow> int option \<Rightarrow> ('c service \<Rightarrow> go_error option) \<Rightarrow> string option \<Rightarrow> host \<Rightarrow> string list \<Rightarrow> run_report option" where
  "control_plane_report lib now body flush h environ =
     (case LoadControlPlane h environ of
        Inl e \<Rightarrow> Some (Some e, [], None)
      | Inr s \<Rightarrow> service_run lib now body flush ''control-plane'' (sd_Version (cp_Shared s)) (cp_Observability s) (cp_HTTP s)
          (cp_Readiness s) (cp_Database s) (cp_Redis s))"

definition worker_report :: "'c libraries \<Rightarrow> int option \<Rightarrow> ('c service \<Rightarrow> go_error option) \<Rightarrow> string option \<Rightarrow> host \<Rightarrow> string list \<Rightarrow> run_report option" where
  "worker_report lib now body flush h environ =
     (case LoadWorker h environ of
        Inl e \<Rightarrow> Some (Some e, [], None)
      | Inr s \<Rightarrow> service_run lib now body flush ''worker'' (sd_Version (wk_Shared s)) (wk_Observability s) (wk_HTTP s)
          (wk_Readiness s) (wk_Database s) (wk_Redis s))"

text \<open>
  \<^verbatim>\<open>main\<close>: exit code, standard output and the line that is logged.  The default logger is the bootstrap
  logger until \<^verbatim>\<open>run\<close> has installed its own.  \<^const>\<open>None\<close> is a panic.
\<close>

record main_outcome =
  mo_exit :: int
  mo_stdout :: string
  mo_line :: "item list option"

definition stopped_line :: "(string \<Rightarrow> string) \<Rightarrow> string \<Rightarrow> int option \<Rightarrow> redactingHandler option \<Rightarrow> go_error \<Rightarrow> item list option" where
  "stopped_line lower service now installed e =
     (case (case installed of None \<Rightarrow> InstallBootstrapLogger lower service | Some lg \<Rightarrow> Some lg) of
        None \<Rightarrow> None
      | Some lg \<Rightarrow> Log lower lg (error_record now ''service.stopped'' e))"

definition service_main :: "(string \<Rightarrow> string) \<Rightarrow> build \<Rightarrow> string \<Rightarrow> string \<Rightarrow> int option \<Rightarrow> string list \<Rightarrow> run_report option \<Rightarrow> main_outcome option" where
  "service_main lower b service name now arguments report =
     (case WriteVersion b arguments name of
        (True, out) \<Rightarrow> Some \<lparr>mo_exit = 0, mo_stdout = out, mo_line = None\<rparr>
      | (False, out) \<Rightarrow>
          (case report of
             None \<Rightarrow> None
           | Some (result, events, installed) \<Rightarrow>
               (case fst (runtime_Run result) of
                  None \<Rightarrow> Some \<lparr>mo_exit = 0, mo_stdout = [], mo_line = None\<rparr>
                | Some e \<Rightarrow> map_option (\<lambda>line. \<lparr>mo_exit = 1, mo_stdout = [], mo_line = Some line\<rparr>)
                    (stopped_line lower service now installed e))))"

definition gateway_main :: "'c libraries \<Rightarrow> build \<Rightarrow> int option \<Rightarrow> ('c service \<Rightarrow> go_error option) \<Rightarrow> string option \<Rightarrow> host \<Rightarrow>
    string list \<Rightarrow> string list \<Rightarrow> main_outcome option" where
  "gateway_main lib b now body flush h environ arguments =
     service_main (lib_lower lib) b ''gateway'' ''nexusrelay-gateway'' now arguments (gateway_report lib now body flush h environ)"

definition control_plane_main :: "'c libraries \<Rightarrow> build \<Rightarrow> int option \<Rightarrow> ('c service \<Rightarrow> go_error option) \<Rightarrow> string option \<Rightarrow> host \<Rightarrow>
    string list \<Rightarrow> string list \<Rightarrow> main_outcome option" where
  "control_plane_main lib b now body flush h environ arguments =
     service_main (lib_lower lib) b ''control-plane'' ''nexusrelay-control-plane'' now arguments (control_plane_report lib now body flush h environ)"

definition worker_main :: "'c libraries \<Rightarrow> build \<Rightarrow> int option \<Rightarrow> ('c service \<Rightarrow> go_error option) \<Rightarrow> string option \<Rightarrow> host \<Rightarrow>
    string list \<Rightarrow> string list \<Rightarrow> main_outcome option" where
  "worker_main lib b now body flush h environ arguments =
     service_main (lib_lower lib) b ''worker'' ''nexusrelay-worker'' now arguments (worker_report lib now body flush h environ)"

section \<open>What a service leaves behind\<close>

text \<open>
  Every client that was opened is closed, the telemetry is shut down last when it was installed, and
  \<^verbatim>\<open>dependency.Run\<close> runs only while both clients are open.
\<close>

definition released :: "service_event list \<Rightarrow> bool" where
  "released ev \<longleftrightarrow>
     count_list ev (ClientEvent PoolOpened) = count_list ev (ClientEvent PoolClosed) \<and>
     count_list ev (ClientEvent RedisOpened) = count_list ev (ClientEvent RedisClosed) \<and>
     (ev = [] \<or> hd ev = TelemetryInstalled \<and> (case last ev of TelemetryShutdown r \<Rightarrow> True | _ \<Rightarrow> False)) \<and>
     (DependencyRun \<in> set ev \<longrightarrow>
        takeWhile (\<lambda>x. x \<noteq> DependencyRun) ev = [TelemetryInstalled, ClientEvent PoolOpened, ClientEvent RedisOpened])"

text \<open>The line a service logs when it stops with an error.\<close>

definition error_line :: "int option \<Rightarrow> string \<Rightarrow> string \<Rightarrow> go_error \<Rightarrow> item list" where
  "error_line now service version e = (case now of None \<Rightarrow> [] | Some t \<Rightarrow> [([], ''timestamp'', KTime t)]) @
     [([], ''severity'', KAny (AnyLevel LevelError)), ([], ''event'', KString ''service.stopped''),
      ([], ''service'', KString service), ([], ''version'', KString version), ([], ''error_message'', KString e)]"

definition main_spec :: "build \<Rightarrow> string \<Rightarrow> string \<Rightarrow> int option \<Rightarrow> string list \<Rightarrow> run_report option \<Rightarrow> main_outcome option \<Rightarrow> bool" where
  "main_spec b service name now arguments report out \<longleftrightarrow>
     (\<exists>result events installed. report = Some (result, events, installed) \<and> released events \<and>
        (if arguments \<in> {[''-v''], [''--version''], [''version'']}
         then out = Some \<lparr>mo_exit = 0, mo_stdout = version_line b name, mo_line = None\<rparr>
         else case result of
             None \<Rightarrow> out = Some \<lparr>mo_exit = 0, mo_stdout = [], mo_line = None\<rparr>
           | Some e \<Rightarrow> \<exists>version. out = Some \<lparr>mo_exit = 1, mo_stdout = [], mo_line = Some (error_line now service version e)\<rparr>))"

text \<open>A logger that a process makes for its service: it logs errors and carries the service in front.\<close>

definition service_logger :: "string \<Rightarrow> redactingHandler \<Rightarrow> bool" where
  "service_logger service lg \<longleftrightarrow> sk_groups (rh_next lg) = [] \<and> sk_level (rh_next lg) \<le> LevelError \<and>
     (\<exists>version. sk_pre (rh_next lg) = [([], ''service'', KString service), ([], ''version'', KString version)])"

lemma newLogger_service:
  assumes "newLogger lower service version level f = Inr r"
  shows "\<exists>lg. r = Some lg \<and> service_logger service lg"
proof -
  have "level \<in> {''debug'', ''info'', ''warn'', ''error''}" using assms by (auto simp: newLogger_total split: if_splits)
  then have "the (level_of level) \<le> LevelError"
    by (auto simp: level_of_def LevelDebug_def LevelInfo_def LevelWarn_def LevelError_def less_eq_slog_level_def)
  with newLogger_new [OF assms] show ?thesis by (auto simp: service_logger_def)
qed

lemma bootstrap_logger: "\<exists>lg. InstallBootstrapLogger lower service = Some lg \<and> service_logger service lg"
proof -
  obtain r where r: "newLogger lower service ''unknown'' ''info'' ''json'' = Inr r" by (simp add: newLogger_total)
  with newLogger_service [OF r] show ?thesis by (auto simp: InstallBootstrapLogger_def)
qed

lemma error_logged:
  assumes "service_logger service lg"
  shows "\<exists>version. Log lower lg (error_record now ''service.stopped'' e) = Some (error_line now service version e)"
proof -
  have "Resolve (Valuer (KString e)) = KString e" by code_simp
  then have shown: "redactAttribute lower (''error_message'', SafeError (Some e)) = (''error_message'', KString e)"
    using used_keys_allowed(3) [of lower] by (simp add: redactAttribute_cases SafeError_def safeError_LogValue_def)
  have "renders [] [(''error_message'', KString e)] = Some [([], ''error_message'', KString e)]"
    by (simp add: render_scalar scalar_def normalizeBuiltInAttribute_def)
  moreover have "lr_message (redact_record lower (error_record now ''service.stopped'' e)) = ''service.stopped''"
    by (simp add: redact_record_def error_record_def allowedEvents_def)
  ultimately show ?thesis using assms
    by (auto simp: Log_def Enabled_def Handle_parts renders_builtins service_logger_def error_record_def error_line_def shown split: option.splits)
qed

lemma main_meets:
  assumes "report = Some (result, events, installed)" "released events" "\<forall>lg. installed = Some lg \<longrightarrow> service_logger service lg"
  shows "main_spec b service name now arguments report (service_main lower b service name now arguments report)"
proof -
  have version: "WriteVersion b arguments name = (if arguments \<in> {[''-v''], [''--version''], [''version'']} then (True, version_line b name) else (False, []))"
    by (auto simp: WriteVersion_def split: list.splits)
  have "\<exists>version. stopped_line lower service now installed e = Some (error_line now service version e)" for e
    using assms(3) bootstrap_logger [of lower service] error_logged
    by (cases installed) (auto simp: stopped_line_def)
  then show ?thesis using assms(1,2) unfolding main_spec_def service_main_def version runtime_Run_def
    by (cases result) fastforce+
qed

lemma Open_events:
  "Open pg_ParseConfig pg_New redis_ParseURL database redisConfig timeout = (r, ev) \<Longrightarrow>
     (case r of Inl e \<Rightarrow> ev = [] \<or> ev = [PoolOpened, PoolClosed]
      | Inr c \<Rightarrow> ev = [PoolOpened, RedisOpened] \<and> Close (Some c) = [RedisClosed, PoolClosed])"
  by (auto simp: Open_def Close_def split: sum.splits if_splits)

lemma service_run_report:
  assumes "parseObservability v = Inr obs"
  shows "\<exists>result events installed. service_run lib now body flush name version obs http rd database redis = Some (result, events, installed) \<and>
    released events \<and> (\<forall>lg. installed = Some lg \<longrightarrow> service_logger name lg)"
proof -
  let ?new = "New_runtime (lib_lower lib) name version obs (lib_exporter_err lib) (lib_resource_err lib)"
  show ?thesis
  proof (cases ?new)
    case (Inl e)
    then show ?thesis by (simp add: service_run_def released_def)
  next
    case (Inr t)
    with New_never_panics [OF assms] obtain r where r: "?new = Inr (Some r)" by (cases t) auto
    then have lg: "service_logger name (Logger r)"
      using newLogger_service by (fastforce simp: New_runtime_def Logger_def split: sum.splits option.splits)
    obtain opened ev where op: "Open (lib_pg_ParseConfig lib) (lib_pg_New lib) (lib_redis_ParseURL lib) database redis
        (rp_ProbeTimeout (readiness_policy rd)) = (opened, ev)" by fastforce
    show ?thesis using Open_events [OF op] lg
      by (cases opened) (auto simp: service_run_def r op Let_def released_def)
  qed
qed

lemma gateway_obs: "LoadGateway h environ = Inr g \<Longrightarrow> \<exists>v. parseObservability v = Inr (gw_Observability g)"
  by (auto simp: LoadGateway_def ParseGateway_def parseServiceCommon_def Let_def result_simps)

lemma control_plane_obs: "LoadControlPlane h environ = Inr c \<Longrightarrow> \<exists>v. parseObservability v = Inr (cp_Observability c)"
  by (auto simp: LoadControlPlane_def ParseControlPlane_def parseServiceCommon_def Let_def result_simps)

lemma worker_obs: "LoadWorker h environ = Inr w \<Longrightarrow> \<exists>v. parseObservability v = Inr (wk_Observability w)"
  by (auto simp: LoadWorker_def ParseWorker_def parseServiceCommon_def Let_def result_simps)

lemma report_meets:
  assumes "report = Some (Some e, [], None) \<or>
    (\<exists>v version obs http rd database redis. parseObservability v = Inr obs \<and>
      report = service_run lib now body flush service version obs http rd database redis)"
  shows "main_spec b service name now arguments report (service_main lower b service name now arguments report)"
proof -
  have "released []" by (simp add: released_def)
  with assms obtain result events installed where "report = Some (result, events, installed)" "released events"
    "\<forall>lg. installed = Some lg \<longrightarrow> service_logger service lg"
    by (elim disjE exE conjE) (blast, metis service_run_report)
  then show ?thesis by (rule main_meets)
qed

section \<open>The running service\<close>

record process_state =
  ps_run :: run_state
  ps_http :: http_state
  ps_health :: Health
  ps_telemetry :: Runtime

text \<open>The callback of \<^verbatim>\<open>setReady\<close> in \<^verbatim>\<open>run\<close>.\<close>

definition process_setReady :: "bool \<Rightarrow> process_state \<Rightarrow> process_state" where
  "process_setReady ready p = p\<lparr>ps_health := SetReady ready (ps_health p), ps_telemetry := Runtime_SetReady ready (ps_telemetry p)\<rparr>"

text \<open>
  A step of \<^verbatim>\<open>dependency.Run\<close> reaches the health flag and the gauge through the callback and the
  server through its context; the server's return is what \<^verbatim>\<open>Run\<close> receives.
\<close>

definition follow :: "run_state \<Rightarrow> process_state \<Rightarrow> process_state" where
  "follow r p = process_setReady (rs_ready r)
     (p\<lparr>ps_run := r, ps_http := (ps_http p)\<lparr>hs_ctx_done := rs_serve_cancelled r\<rparr>\<rparr>)"

inductive process_step :: "ReadinessPolicy \<Rightarrow> Probe list \<Rightarrow> process_state \<Rightarrow> process_state \<Rightarrow> bool" for policy probes where
  process_run: "run_step policy probes (ps_run p) r \<Longrightarrow> process_step policy probes p (follow r p)"
| process_cancel: "process_step policy probes p (p\<lparr>ps_run := (ps_run p)\<lparr>rs_ctx_done := True, rs_startup_done := True\<rparr>\<rparr>)"
| process_deadline: "process_step policy probes p (p\<lparr>ps_run := (ps_run p)\<lparr>rs_startup_done := True\<rparr>\<rparr>)"
| process_http: "http_step (ps_http p) s \<Longrightarrow> process_step policy probes p (p\<lparr>ps_http := s\<rparr>)"
| process_served: "hs_phase (ps_http p) = ServeReturned e \<Longrightarrow> rs_serve (ps_run p) = Serving \<Longrightarrow>
    process_step policy probes p (p\<lparr>ps_run := (ps_run p)\<lparr>rs_serve := Sent e\<rparr>\<rparr>)"
| process_observe: "process_step policy probes p (p\<lparr>ps_telemetry := ObserveDependency name elapsed err (ps_telemetry p)\<rparr>)"
| process_request: "process_step policy probes p (p\<lparr>ps_telemetry := record_request route status elapsed (ps_telemetry p)\<rparr>)"

definition process_init :: "'c service \<Rightarrow> process_state \<Rightarrow> bool" where
  "process_init svc p \<longleftrightarrow> is_ok (run_checks (sv_policy svc) (sv_probes svc)) \<and>
     (\<exists>b. p = process_setReady False \<lparr>ps_run = run_start (sv_policy svc) b, ps_http = serve_init, ps_health = sv_health svc, ps_telemetry = sv_telemetry svc\<rparr>)"

inductive_cases process_stepE: "process_step policy probes p q"

definition gauge_ok :: "bool \<Rightarrow> Runtime \<Rightarrow> bool" where
  "gauge_ok ready r \<longleftrightarrow> (case rt_metrics r of None \<Rightarrow> True | Some m \<Rightarrow> mt_service_ready m = (if ready then 1 else 0))"

definition process_inv :: "process_state \<Rightarrow> bool" where
  "process_inv p \<longleftrightarrow> serve_inv (ps_http p) \<and> hs_ctx_done (ps_http p) = rs_serve_cancelled (ps_run p) \<and>
     health_ready (ps_health p) = rs_ready (ps_run p) \<and> gauge_ok (rs_ready (ps_run p)) (ps_telemetry p) \<and>
     (rs_serve (ps_run p) = Serving \<or> (\<exists>e. hs_phase (ps_http p) = ServeReturned e))"

lemma gauge_simps [simp]:
  "gauge_ok b (Runtime_SetReady b r)" "gauge_ok b (ObserveDependency name elapsed err r) = gauge_ok b r"
  "gauge_ok b (record_request route status elapsed r) = gauge_ok b r"
  by (auto simp: gauge_ok_def Runtime_SetReady_def ObserveDependency_def record_request_def split: option.splits)

lemma follow_fields [simp]:
  "ps_run (follow r p) = r" "ps_http (follow r p) = (ps_http p)\<lparr>hs_ctx_done := rs_serve_cancelled r\<rparr>"
  "health_ready (ps_health (follow r p)) = rs_ready r" "gauge_ok (rs_ready r) (ps_telemetry (follow r p))"
  by (simp_all add: follow_def process_setReady_def SetReady_def)

text \<open>Nothing un-cancels the server's context, and \<^verbatim>\<open>Run\<close> does not forget that the server has returned.\<close>

lemma run_step_cancelled: "run_step policy probes s t \<Longrightarrow> rs_serve_cancelled s \<Longrightarrow> rs_serve_cancelled t"
  by (erule run_stepE) auto

lemma run_step_serve: "run_step policy probes s t \<Longrightarrow> rs_serve t = Serving \<longleftrightarrow> rs_serve s = Serving"
  by (erule run_stepE) auto

lemma http_step_cancel_fields: "http_step s t \<Longrightarrow> hs_ctx_done t = hs_ctx_done s"
  by (erule http_stepE) auto

lemma http_step_final: "http_step s t \<Longrightarrow> hs_phase s = ServeReturned e \<Longrightarrow> \<exists>e. hs_phase t = ServeReturned e"
  by (erule http_stepE) auto

lemma serve_inv_follow: "serve_inv s \<Longrightarrow> (hs_ctx_done s \<longrightarrow> b) \<Longrightarrow> serve_inv (s\<lparr>hs_ctx_done := b\<rparr>)"
proof (cases b)
  case False
  moreover assume "serve_inv s" "hs_ctx_done s \<longrightarrow> b"
  ultimately show ?thesis by (cases s) simp
qed (simp add: serve_inv_cancel)

lemma process_inv_step:
  assumes inv: "process_inv p" and step: "process_step policy probes p q"
  shows "process_inv q \<and> (ps_run p = ps_run q \<or> any_step policy probes (ps_run p) (ps_run q))"
  using step
proof cases
  case (process_run r)
  have "serve_inv ((ps_http p)\<lparr>hs_ctx_done := rs_serve_cancelled r\<rparr>)"
    using inv run_step_cancelled [OF process_run(2)] by (intro serve_inv_follow) (auto simp: process_inv_def)
  then show ?thesis using inv process_run run_step_serve [OF process_run(2)]
    by (auto simp: process_inv_def any_step_def)
next
  case (process_http s)
  then show ?thesis using inv serve_inv_step http_step_cancel_fields http_step_final
    by (auto simp: process_inv_def)
qed (use inv in \<open>auto simp: process_inv_def any_step_def intro: env_step.intros\<close>)

interpretation process_run_machine: simulation "process_init svc" "process_step (sv_policy svc) (sv_probes svc)"
  "run_init (sv_policy svc) (sv_probes svc)" "any_step (sv_policy svc) (sv_probes svc)" ps_run process_inv for svc
proof unfold_locales
  fix p q
  show "process_init svc p \<Longrightarrow> run_init (sv_policy svc) (sv_probes svc) (ps_run p) \<and> process_inv p"
    by (auto simp: process_init_def run_init_def process_inv_def process_setReady_def SetReady_def run_start_def
        serve_init_def serve_inv_def)
  show "process_inv p \<Longrightarrow> process_step (sv_policy svc) (sv_probes svc) p q \<Longrightarrow>
      process_inv q \<and> (ps_run p = ps_run q \<or> any_step (sv_policy svc) (sv_probes svc) (ps_run p) (ps_run q))"
    by (rule process_inv_step)
qed

section \<open>From the configuration to the machine\<close>

lemma accepted_policy:
  assumes "parseDependencyReadiness v = Inr d"
  shows "policy_validate (readiness_policy d) = Inr () \<and> wide_policy (readiness_policy d)"
proof -
  have "Second \<le> dr_StartupTimeout d" "100 * Millisecond \<le> dr_ProbeTimeout d" "Second \<le> dr_ProbeInterval d"
    "10 * Millisecond \<le> dr_RetryMinimum d" "dr_RetryMinimum d \<le> dr_RetryMaximum d" "dr_RetryMaximum d \<le> Minute"
    using assms by (auto simp: parseDependencyReadiness_def result_simps setting_simps)
  then show ?thesis by (auto simp: policy_validate_def wide_policy_def readiness_policy_def time_units)
qed

lemma probes_checked:
  assumes "policy_validate p = Inr ()"
  shows "run_checks p (Probes True c) = Inr ()"
  unfolding run_checks_def assms bindE.simps Probes_def by simp

lemma gateway_policy: "LoadGateway h environ = Inr g \<Longrightarrow> \<exists>v. parseDependencyReadiness v = Inr (gw_Readiness g)"
  by (auto simp: LoadGateway_def ParseGateway_def result_simps)

lemma control_plane_policy: "LoadControlPlane h environ = Inr c \<Longrightarrow> \<exists>v. parseDependencyReadiness v = Inr (cp_Readiness c)"
  by (auto simp: LoadControlPlane_def ParseControlPlane_def result_simps)

lemma worker_policy: "LoadWorker h environ = Inr w \<Longrightarrow> \<exists>v. parseDependencyReadiness v = Inr (wk_Readiness w)"
  by (auto simp: LoadWorker_def ParseWorker_def result_simps)

lemmas load_policies = gateway_policy control_plane_policy worker_policy

lemma start_service_valid:
  assumes "start_service lib name version obs http rd database redis = Inr (Some svc)" "parseDependencyReadiness v = Inr rd"
  shows "run_checks (sv_policy svc) (sv_probes svc) = Inr () \<and> wide_policy (sv_policy svc)"
  using assms(1) accepted_policy [OF assms(2)] probes_checked
  by (auto simp: start_service_def new_service_def Let_def result_simps split: option.splits)

section \<open>Properties\<close>


text \<open>C11. A service that starts has a valid readiness policy and valid probes, so \<^verbatim>\<open>dependency.Run\<close> passes its
  checks, and its policy is one for which the retry delay cannot overflow; this holds for the
  gateway, the control plane and the worker, in every environment they accept.\<close>

theorem started_service_valid:
  assumes "gateway_run lib h environ = Inr (Some svc) \<or> control_plane_run lib h environ = Inr (Some svc) \<or>
    worker_run lib h environ = Inr (Some svc)"
  shows "run_checks (sv_policy svc) (sv_probes svc) = Inr () \<and> wide_policy (sv_policy svc) \<and>
    (\<exists>p. process_init svc p)"
proof -
  obtain name version obs http rd database redis v where
    "start_service lib name version obs http rd database redis = Inr (Some svc)" "parseDependencyReadiness v = Inr rd"
    using assms load_policies [of h environ] unfolding gateway_run_def control_plane_run_def worker_run_def result_simps by metis
  from start_service_valid [OF this] show ?thesis by (auto simp: process_init_def)
qed

definition worker_files :: "(string \<times> string) list" where
  "worker_files = [(''/run/secrets/postgres_worker_password'', ''worker-password''),
     (''/run/secrets/redis_url'', ''redis://redis:6379/0''), (''/run/secrets/provider_master_keyring'', sample_provider_ring)]"

text \<open>A connection pool whose configuration is its connection string, and Redis options that say database 0.\<close>

definition sample_redis :: "string \<Rightarrow> go_error + redis_options" where
  "sample_redis url = Inr \<lparr>ro_DB = 0, ro_Protocol = 3, ro_DisableIdentity = False, ro_MaintDisabled = False, ro_MaxRetries = 3,
     ro_DialerRetries = 5, ro_DialTimeout = 5 * Second, ro_ReadTimeout = 3 * Second, ro_WriteTimeout = 3 * Second,
     ro_ContextTimeoutEnabled = False, ro_PoolSize = 10, ro_MaxActiveConns = 0\<rparr>"

definition sample_libraries :: "string libraries" where
  "sample_libraries = \<lparr>lib_lower = (\<lambda>s. s), lib_exporter_err = (\<lambda>_. None), lib_resource_err = (\<lambda>_. None),
     lib_pg_ParseConfig = Inr, lib_pg_New = (\<lambda>_. True), lib_redis_ParseURL = sample_redis\<rparr>"

theorem started_service_valid_witness:
  "\<exists>svc. worker_run sample_libraries (memory_host worker_files) [] = Inr (Some svc) \<and>
     run_checks (sv_policy svc) (sv_probes svc) = Inr () \<and> (\<exists>p. process_init svc p)"
proof -
  have "case worker_run sample_libraries (memory_host worker_files) [] of Inr (Some svc) \<Rightarrow> True | _ \<Rightarrow> False"
    by code_simp
  then obtain svc where "worker_run sample_libraries (memory_host worker_files) [] = Inr (Some svc)"
    by (auto split: sum.splits option.splits)
  with started_service_valid [of sample_libraries "memory_host worker_files" "[]" svc] show ?thesis by blast
qed


definition sample_router :: router where
  "sample_router routes m p = map_option (snd \<circ> snd) (find (route_matches m p) routes)"

definition sample_service :: "string service" where
  "sample_service = \<lparr>sv_server = New_server ''127.0.0.1:8080'' Second, sv_policy = DefaultReadinessPolicy,
     sv_clients = \<lparr>cl_PostgreSQL = None, cl_Redis = None\<rparr>, sv_probes = sample_probes, sv_health = \<lparr>health_ready = False\<rparr>,
     sv_telemetry = sample_runtime\<rparr>"

definition sample_starting :: process_state where
  "sample_starting = process_setReady False \<lparr>ps_run = run_start DefaultReadinessPolicy False, ps_http = serve_init,
     ps_health = \<lparr>health_ready = False\<rparr>, ps_telemetry = sample_runtime\<rparr>"

definition sample_serving :: process_state where
  "sample_serving = follow sample_ready sample_starting"

lemma sample_serving_reached:
  "reach (process_init sample_service) (process_step (sv_policy sample_service) (sv_probes sample_service)) sample_serving"
proof -
  have "is_ok (run_checks DefaultReadinessPolicy sample_probes)" by code_simp
  then have "process_init sample_service sample_starting"
    unfolding process_init_def sample_starting_def sample_service_def by auto
  then have start: "reach (process_init sample_service) (process_step DefaultReadinessPolicy sample_probes) sample_starting"
    by (rule reach_init)
  have "run_step DefaultReadinessPolicy sample_probes (ps_run sample_starting) sample_ready"
    using probes_ready [OF _ all_ok_round all_ok_names, of "run_start DefaultReadinessPolicy False" DefaultReadinessPolicy sample_probes]
    unfolding sample_ready_def by (simp add: sample_starting_def process_setReady_def run_start_def)
  from reach_step [OF start process_run [OF this]] show ?thesis
    by (simp add: sample_serving_def sample_service_def)
qed


end
