(* ===== verification/Config_Views.thy ===== *)
theory Config_Views
  imports Config_Process
begin

text \<open>
  Which settings each parser looks at, and what follows: a process that is given only the
  settings the inventory assigns to it reads the same configuration as one that is given the
  whole environment.
\<close>

section \<open>Footprints\<close>

definition listener_names :: "string list" where
  "listener_names = [''HTTP_BIND_ADDRESS'', ''HTTP_PORT'', ''SHUTDOWN_GRACE_PERIOD'']"

definition logging_names :: "string list" where
  "logging_names = [''LOG_LEVEL'', ''LOG_FORMAT'']"

definition common_names :: "string list" where
  "common_names = [''NEXUSRELAY_ENV'', ''NEXUSRELAY_VERSION''] @ listener_names @ logging_names @
     [''METRICS_ENABLED'', ''OTEL_ENABLED'', ''OTEL_EXPORTER_OTLP_ENDPOINT'']"

definition readiness_names :: "string list" where
  "readiness_names = [''DEPENDENCY_STARTUP_TIMEOUT'', ''DEPENDENCY_PROBE_TIMEOUT'', ''DEPENDENCY_PROBE_INTERVAL'',
     ''DEPENDENCY_RETRY_MIN_DELAY'', ''DEPENDENCY_RETRY_MAX_DELAY'']"

definition database_names :: "databaseProcessSettings \<Rightarrow> string list" where
  "database_names s = [''DATABASE_NAME'', ''DATABASE_HOST'', ''DATABASE_PORT'', ''NEXUSRELAY_ENV'', ''DATABASE_SSLMODE'',
     ''DATABASE_STATEMENT_TIMEOUT'', ''DATABASE_TRANSACTION_TIMEOUT'',
     userSetting s, minSetting s, maxSetting s, passwordSetting s]"

definition password_names :: "string list" where
  "password_names = [''PASSWORD_ARGON2_MEMORY_KIB'', ''PASSWORD_ARGON2_ITERATIONS'', ''PASSWORD_ARGON2_PARALLELISM'']"

definition session_names :: "string list" where
  "session_names = [''SESSION_IDLE_TTL'', ''SESSION_ABSOLUTE_TTL'', ''SESSION_LAST_SEEN_WRITE_INTERVAL'',
     ''SESSION_COOKIE_NAME'', ''SESSION_SECRET_FILE'', ''CSRF_SECRET_RING_FILE''] @ password_names"

definition gateway_policy_names :: "string list" where
  "gateway_policy_names = [''REQUEST_BODY_MAX_BYTES'', ''UPSTREAM_CONNECT_TIMEOUT'', ''UPSTREAM_FIRST_BYTE_TIMEOUT'',
     ''UPSTREAM_IDLE_TIMEOUT'', ''UPSTREAM_TOTAL_TIMEOUT'', ''MAX_UPSTREAM_ATTEMPTS'']"

definition worker_policy_names :: "string list" where
  "worker_policy_names = [''REQUEST_RETENTION_DAYS'', ''AUDIT_RETENTION_DAYS'', ''HEALTH_OBSERVATION_RETENTION_DAYS'',
     ''PROCESSED_OUTBOX_RETENTION_DAYS'', ''ANALYTICS_TARGET_LAG'', ''STALE_REQUEST_RECONCILIATION_INTERVAL'',
     ''WORKER_CONCURRENCY'', ''OUTBOX_LEASE_DURATION'', ''OUTBOX_RETRY_BASE_DELAY'', ''OUTBOX_RETRY_MAX_DELAY'',
     ''HEALTH_PROBE_INTERVAL'', ''HEALTH_FAST_WINDOW'', ''HEALTH_STABILIZING_WINDOW'', ''HEALTH_MIN_SAMPLES'',
     ''HEALTH_POLICY_VERSION'', ''HEALTH_UNAVAILABLE_ENTRY_THRESHOLD_BPS'', ''HEALTH_UNAVAILABLE_EXIT_THRESHOLD_BPS'',
     ''HEALTH_CONSECUTIVE_FAILURES'', ''HEALTH_CONSECUTIVE_SUCCESSES'', ''RETENTION_BATCH_SIZE'', ''UPSTREAM_TOTAL_TIMEOUT'']"

definition agent_names :: "string list" where
  "agent_names = [''AGENT_API_KEY_ENV'', ''OPENCODE_PROVIDER_ID'', ''OPENCODE_PROVIDER_NAME'']"

definition admin_names :: "string list" where
  "admin_names = [''ADMIN_BASE_URL'', ''ADMIN_ORIGINS'']"

definition public_names :: "string list" where
  "public_names = [''PUBLIC_API_BASE_URL'', ''TRUSTED_PROXY_CIDRS'']"

definition gateway_names :: "string list" where
  "gateway_names = common_names @ public_names @ database_names gatewayDatabaseSettings @
     [''REDIS_URL_FILE'', ''REDIS_MAX_CONNECTIONS_GATEWAY''] @ readiness_names @
     [''MASTER_KEYRING_FILE'', ''API_KEY_PEPPER_RING_FILE''] @ gateway_policy_names"

definition control_plane_names :: "string list" where
  "control_plane_names = common_names @ public_names @ admin_names @ database_names controlPlaneDatabaseSettings @
     [''REDIS_URL_FILE'', ''REDIS_MAX_CONNECTIONS_CONTROL_PLANE''] @ readiness_names @
     [''MASTER_KEYRING_FILE'', ''API_KEY_PEPPER_RING_FILE''] @ session_names @ agent_names"

definition worker_names :: "string list" where
  "worker_names = common_names @ database_names workerDatabaseSettings @
     [''REDIS_URL_FILE'', ''REDIS_MAX_CONNECTIONS_WORKER''] @ readiness_names @
     [''MASTER_KEYRING_FILE''] @ worker_policy_names"

definition bootstrap_process_names :: "string list" where
  "bootstrap_process_names = [''NEXUSRELAY_ENV'', ''NEXUSRELAY_VERSION''] @ logging_names @
     database_names controlPlaneDatabaseSettings @ password_names @ bootstrap_names"

definition deployment_names :: "string list" where
  "deployment_names = [''NEXUSRELAY_ENV'', ''NEXUSRELAY_VERSION''] @ public_names @ admin_names @
     [''PUBLIC_API_HOST'', ''ADMIN_HOST'', ''ADMIN_EXPOSURE_MODE''] @ listener_names @
     [''HTTPS_PORT'', ''TLS_MODE'', ''TLS_CERT_FILE'', ''TLS_KEY_FILE'', ''ACME_EMAIL'', ''ACME_DNS_PROVIDER'',
      ''ACME_DNS_API_TOKEN_FILE'', ''POSTGRES_DB'', ''DATABASE_NAME''] @ map fst fixed_users @
     map fst (password_files []) @ [''DATABASE_SSLMODE'', ''REDIS_PASSWORD_FILE'', ''REDIS_URL_FILE'',
      ''ENABLE_CLOUDFLARE_TUNNEL'', ''CLOUDFLARE_TUNNEL_ID'', ''CLOUDFLARE_TUNNEL_CREDENTIALS_FILE'',
      ''ENABLE_TAILSCALE_PRIVATE_ADMIN'']"

lemmas local_names = listener_names_def logging_names_def common_names_def readiness_names_def
  database_names_def password_names_def session_names_def gateway_policy_names_def
  worker_policy_names_def agent_names_def admin_names_def public_names_def

lemma parseHTTP_local: "agree listener_names v w \<Longrightarrow> parseHTTP v = parseHTTP w"
  by (simp add: parseHTTP_def local_names reader_local [of v _ w])

lemma parseLogging_local: "agree logging_names v w \<Longrightarrow> parseLogging v = parseLogging w"
  by (simp add: parseLogging_def local_names reader_local [of v _ w])

lemma parseServiceCommon_local: "agree common_names v w \<Longrightarrow> parseServiceCommon v = parseServiceCommon w"
  using parseHTTP_local [of v w] parseLogging_local [of v w]
  by (simp add: parseServiceCommon_def parseObservability_def common_names_def reader_local [of v _ w])

lemma parseDependencyReadiness_local:
  "agree readiness_names v w \<Longrightarrow> parseDependencyReadiness v = parseDependencyReadiness w"
  by (simp add: parseDependencyReadiness_def local_names reader_local [of v _ w])

lemma parseDatabaseSSLMode_local:
  "map_of v ''DATABASE_SSLMODE'' = map_of w ''DATABASE_SSLMODE'' \<Longrightarrow> parseDatabaseSSLMode v = parseDatabaseSSLMode w"
  by (simp add: parseDatabaseSSLMode_def fun_eq_iff reader_local [of v _ w])

lemma parseDatabase_local: "agree (database_names s) v w \<Longrightarrow> parseDatabase h v s = parseDatabase h w s"
  using parseDatabaseSSLMode_local [of v w]
  by (simp add: parseDatabase_def local_names reader_local [of v _ w])

lemma parseRedis_local:
  "agree [''REDIS_URL_FILE'', name] v w \<Longrightarrow> parseRedis h v name n = parseRedis h w name n"
  by (simp add: parseRedis_def reader_local [of v _ w])

lemma parsePasswordPolicy_local: "agree password_names v w \<Longrightarrow> parsePasswordPolicy v = parsePasswordPolicy w"
  by (simp add: parsePasswordPolicy_def local_names reader_local [of v _ w])

lemma parseSessionPolicy_local: "agree session_names v w \<Longrightarrow> parseSessionPolicy h v = parseSessionPolicy h w"
  using parsePasswordPolicy_local [of v w]
  by (simp add: parseSessionPolicy_def session_names_def reader_local [of v _ w])

lemma parseGatewayPolicy_local: "agree gateway_policy_names v w \<Longrightarrow> parseGatewayPolicy v = parseGatewayPolicy w"
  by (simp add: parseGatewayPolicy_def local_names reader_local [of v _ w])

lemma parseWorkerPolicy_local: "agree worker_policy_names v w \<Longrightarrow> parseWorkerPolicy v = parseWorkerPolicy w"
  by (simp add: parseWorkerPolicy_def local_names reader_local [of v _ w])

lemma parseAgent_local: "agree agent_names v w \<Longrightarrow> parseAgent v = parseAgent w"
  by (simp add: parseAgent_def local_names reader_local [of v _ w])

lemma parseGatewayEndpoints_local:
  "agree public_names v w \<Longrightarrow> parseGatewayEndpoints v e = parseGatewayEndpoints w e"
  by (simp add: parseGatewayEndpoints_def parsePublicAPIURL_def local_names reader_local [of v _ w])

lemma parseControlPlaneEndpoints_local:
  "agree public_names v w \<Longrightarrow> agree admin_names v w \<Longrightarrow>
     parseControlPlaneEndpoints v e = parseControlPlaneEndpoints w e"
  by (simp add: parseControlPlaneEndpoints_def parsePublicAPIURL_def local_names reader_local [of v _ w])

lemma parseEndpoints_local:
  "agree public_names v w \<Longrightarrow> agree admin_names v w \<Longrightarrow>
     agree [''PUBLIC_API_HOST'', ''ADMIN_HOST'', ''ADMIN_EXPOSURE_MODE''] v w \<Longrightarrow>
     parseEndpoints h v e = parseEndpoints h w e"
  by (simp add: parseEndpoints_def local_names reader_local [of v _ w])

lemma tls_acme_local:
  "map_of v ''ACME_DNS_API_TOKEN_FILE'' = map_of w ''ACME_DNS_API_TOKEN_FILE'' \<Longrightarrow> tls_acme h v = tls_acme h w"
  by (rule ext) (simp only: tls_acme_def reader_local [of v _ w])

lemma parseTLS_local:
  "agree [''TLS_MODE'', ''TLS_CERT_FILE'', ''TLS_KEY_FILE'', ''ACME_EMAIL'', ''ACME_DNS_PROVIDER'',
     ''ACME_DNS_API_TOKEN_FILE''] v w \<Longrightarrow> parseTLS h v e ep = parseTLS h w e ep"
  using tls_acme_local [of v w h] by (simp add: parseTLS_def reader_local [of v _ w])

lemma check_users_local: "agree (map fst us) v w \<Longrightarrow> check_users v us = check_users w us"
proof (induction us)
  case (Cons u us)
  then show ?case by (cases u) (simp add: reader_local [of v _ w])
qed simp

lemma range_map_names: "set (map fst (range_map h m)) \<subseteq> set (map fst m)"
  by (auto simp: range_map_def dest: map_of_SomeD [OF sym] split: option.splits)

lemma password_files_local: "agree (map fst (password_files [])) v w \<Longrightarrow> password_files v = password_files w"
  by (simp add: password_files_def reader_local [of v _ w])

lemma parseDatabaseInventory_local:
  assumes "agree ([''POSTGRES_DB'', ''DATABASE_NAME''] @ map fst fixed_users @ map fst (password_files []) @ [''DATABASE_SSLMODE'']) v w"
  shows "parseDatabaseInventory h v e = parseDatabaseInventory h w e"
proof -
  have "agree (map fst (range_map h fixed_users)) v w"
    using assms range_map_names [of h fixed_users] by (auto simp: agree_def)
  then have "check_users v (range_map h fixed_users) = check_users w (range_map h fixed_users)"
    by (rule check_users_local)
  with assms password_files_local [of v w] parseDatabaseSSLMode_local [of v w] show ?thesis
    by (simp add: parseDatabaseInventory_def reader_local [of v _ w])
qed

lemma parseRedisDeployment_local:
  "agree [''REDIS_PASSWORD_FILE'', ''REDIS_URL_FILE''] v w \<Longrightarrow> parseRedisDeployment h v = parseRedisDeployment h w"
  by (simp add: parseRedisDeployment_def reader_local [of v _ w])

lemma parseCloudflare_local:
  "agree [''ENABLE_CLOUDFLARE_TUNNEL'', ''CLOUDFLARE_TUNNEL_ID'', ''CLOUDFLARE_TUNNEL_CREDENTIALS_FILE''] v w \<Longrightarrow>
     parseCloudflare h v ep tls = parseCloudflare h w ep tls"
  by (simp add: parseCloudflare_def reader_local [of v _ w])

lemma parseTailscale_local:
  "agree [''ENABLE_TAILSCALE_PRIVATE_ADMIN''] v w \<Longrightarrow> parseTailscale v = parseTailscale w"
  by (simp add: parseTailscale_def reader_local [of v _ w])

section \<open>Process parsers as readers of a view\<close>

text \<open>
  A process parser fails when the preflight of its process does, otherwise it depends on its
  footprint only, and the inventory assigns every name of the footprint to the process.
\<close>

locale process_parser =
  fixes parse :: "env \<Rightarrow> go_error + 'a"
    and process :: process
    and names :: "string list"
  assumes guarded: "preflight v process = Inl e \<Longrightarrow> parse v = Inl e"
    and settled: "preflight v process = Inr () \<Longrightarrow> preflight w process = Inr () \<Longrightarrow>
      agree names v w \<Longrightarrow> parse v = parse w"
    and consumed: "\<forall>name\<in>set names. consumed_by process name"
begin

lemma view_preflight: "preflight (ValuesForProcess v process) process = Inr ()"
proof -
  have "is_ok (preflight_names (map fst (ValuesForProcess v process)))"
    by (auto simp: preflight_names_ok ValuesForProcess_def dest: consumed_known)
  moreover have "is_ok (preflight_bootstrap (ValuesForProcess v process) bootstrap_names)"
    if "process \<in> {ProcessGateway, ProcessControlPlane, ProcessWorker}"
    using bootstrap_not_serviced [OF that] by (auto simp: preflight_bootstrap_ok view_lookup)
  ultimately show ?thesis
    by (auto simp: preflight_def is_ok_iff bindE_Inr)
qed

lemma view_same: "preflight v process = Inr () \<Longrightarrow> parse (ValuesForProcess v process) = parse v"
  by (rule settled [OF view_preflight _ view_agree [OF consumed]])

lemma view_accepts: "parse v = Inr c \<Longrightarrow> parse (ValuesForProcess v process) = Inr c"
  using guarded [of v] view_same [of v] by (cases "preflight v process") auto

lemma irrelevant:
  "is_ok (preflight v process) \<Longrightarrow> is_ok (preflight w process) \<Longrightarrow> agree names v w \<Longrightarrow> parse v = parse w"
  using settled [of v w] by (auto simp: is_ok_iff)

end

text \<open>Every name of the five footprints is assigned to its process by the inventory.\<close>

lemmas footprint_defs = local_names bootstrap_names_def fixed_users_def password_files_def
  gatewayDatabaseSettings_def controlPlaneDatabaseSettings_def workerDatabaseSettings_def

lemma gateway_consumed: "\<forall>name\<in>set gateway_names. consumed_by ProcessGateway name"
  by (simp add: gateway_names_def footprint_defs consumed_by_def inventory_lookup)

lemma control_plane_consumed: "\<forall>name\<in>set control_plane_names. consumed_by ProcessControlPlane name"
  by (simp add: control_plane_names_def footprint_defs consumed_by_def inventory_lookup)

lemma worker_consumed: "\<forall>name\<in>set worker_names. consumed_by ProcessWorker name"
  by (simp add: worker_names_def footprint_defs consumed_by_def inventory_lookup)

lemma bootstrap_consumed: "\<forall>name\<in>set bootstrap_process_names. consumed_by ProcessBootstrap name"
  by (simp add: bootstrap_process_names_def footprint_defs consumed_by_def inventory_lookup)

lemma deployment_consumed: "\<forall>name\<in>set deployment_names. consumed_by ProcessDeployment name"
  by (simp add: deployment_names_def footprint_defs consumed_by_def inventory_lookup)

interpretation gateway: process_parser "ParseGateway h" ProcessGateway gateway_names for h
proof unfold_locales
  fix v w
  assume "agree gateway_names v w" "preflight v ProcessGateway = Inr ()" "preflight w ProcessGateway = Inr ()"
  then show "ParseGateway h v = ParseGateway h w"
    using parseServiceCommon_local [of v w] parseGatewayEndpoints_local [of v w]
      parseDatabase_local [of gatewayDatabaseSettings v w] parseRedis_local [of _ v w]
      parseDependencyReadiness_local [of v w] parseGatewayPolicy_local [of v w]
    by (simp add: ParseGateway_def gateway_names_def reader_local [of v _ w])
qed (use gateway_consumed in \<open>simp_all add: ParseGateway_def\<close>)

interpretation control_plane: process_parser "ParseControlPlane h" ProcessControlPlane control_plane_names for h
proof unfold_locales
  fix v w
  assume "agree control_plane_names v w" "preflight v ProcessControlPlane = Inr ()"
    "preflight w ProcessControlPlane = Inr ()"
  then show "ParseControlPlane h v = ParseControlPlane h w"
    using parseServiceCommon_local [of v w] parseControlPlaneEndpoints_local [of v w]
      parseDatabase_local [of controlPlaneDatabaseSettings v w] parseRedis_local [of _ v w]
      parseDependencyReadiness_local [of v w] parseSessionPolicy_local [of v w] parseAgent_local [of v w]
    by (simp add: ParseControlPlane_def control_plane_names_def reader_local [of v _ w])
qed (use control_plane_consumed in \<open>simp_all add: ParseControlPlane_def\<close>)

interpretation worker: process_parser "ParseWorker h" ProcessWorker worker_names for h
proof unfold_locales
  fix v w
  assume "agree worker_names v w" "preflight v ProcessWorker = Inr ()" "preflight w ProcessWorker = Inr ()"
  then show "ParseWorker h v = ParseWorker h w"
    using parseServiceCommon_local [of v w] parseDatabase_local [of workerDatabaseSettings v w]
      parseRedis_local [of _ v w] parseDependencyReadiness_local [of v w] parseWorkerPolicy_local [of v w]
    by (simp add: ParseWorker_def worker_names_def reader_local [of v _ w])
qed (use worker_consumed in \<open>simp_all add: ParseWorker_def\<close>)

interpretation bootstrap: process_parser "ParseBootstrap h" ProcessBootstrap bootstrap_process_names for h
proof unfold_locales
  fix v w
  assume "agree bootstrap_process_names v w" "preflight v ProcessBootstrap = Inr ()"
    "preflight w ProcessBootstrap = Inr ()"
  then show "ParseBootstrap h v = ParseBootstrap h w"
    using parseLogging_local [of v w] parseDatabase_local [of controlPlaneDatabaseSettings v w]
      parsePasswordPolicy_local [of v w]
    by (simp add: ParseBootstrap_def bootstrap_process_names_def bootstrap_names_def reader_local [of v _ w])
qed (use bootstrap_consumed in \<open>simp_all add: ParseBootstrap_def\<close>)

interpretation deployment: process_parser "ParseDeployment h" ProcessDeployment deployment_names for h
proof unfold_locales
  fix v w
  assume "agree deployment_names v w" "preflight v ProcessDeployment = Inr ()"
    "preflight w ProcessDeployment = Inr ()"
  then show "ParseDeployment h v = ParseDeployment h w"
    using parseEndpoints_local [of v w] parseHTTP_local [of v w] parseTLS_local [of v w]
      parseDatabaseInventory_local [of v w] parseRedisDeployment_local [of v w]
      parseCloudflare_local [of v w] parseTailscale_local [of v w]
    by (simp add: ParseDeployment_def deployment_names_def reader_local [of v _ w])
qed (use deployment_consumed in \<open>simp_all add: ParseDeployment_def\<close>)

section \<open>Properties\<close>

text \<open>C36. A process configuration can be read from the process's own settings alone: for every process
  whose preflight accepts the environment, parsing only the settings the inventory assigns to the
  process gives the same result, errors included, as parsing the whole environment.\<close>

theorem process_view_same:
  "(preflight v ProcessGateway = Inr () \<longrightarrow>
      ParseGateway h (ValuesForProcess v ProcessGateway) = ParseGateway h v) \<and>
   (preflight v ProcessControlPlane = Inr () \<longrightarrow>
      ParseControlPlane h (ValuesForProcess v ProcessControlPlane) = ParseControlPlane h v) \<and>
   (preflight v ProcessWorker = Inr () \<longrightarrow>
      ParseWorker h (ValuesForProcess v ProcessWorker) = ParseWorker h v) \<and>
   (preflight v ProcessBootstrap = Inr () \<longrightarrow>
      ParseBootstrap h (ValuesForProcess v ProcessBootstrap) = ParseBootstrap h v) \<and>
   (preflight v ProcessDeployment = Inr () \<longrightarrow>
      ParseDeployment h (ValuesForProcess v ProcessDeployment) = ParseDeployment h v)"
  using gateway.view_same control_plane.view_same worker.view_same bootstrap.view_same deployment.view_same
  by blast

theorem process_view_same_witness:
  "ParseWorker (memory_host []) (ValuesForProcess [(''HTTP_PORT'', ''0''), (''PATH'', ''/bin'')] ProcessWorker) =
     ParseWorker (memory_host []) [(''HTTP_PORT'', ''0''), (''PATH'', ''/bin'')]"
proof -
  have "preflight [(''HTTP_PORT'', ''0''), (''PATH'', ''/bin'')] ProcessWorker = Inr ()" by code_simp
  then show ?thesis using process_view_same [of "[(''HTTP_PORT'', ''0''), (''PATH'', ''/bin'')]" "memory_host []"] by blast
qed

text \<open>Checking a complete environment is checking every process: when no process's preflight objects,
  \<^verbatim>\<open>ValidateComplete\<close> accepts exactly the environments that the deployment, the gateway, the
  control plane and the worker would each accept as a whole.\<close>

theorem ValidateComplete_exact:
  assumes "list_all (\<lambda>p. preflight v p = Inr ()) [ProcessDeployment, ProcessGateway, ProcessControlPlane, ProcessWorker]"
  shows "is_ok (ValidateComplete h v) \<longleftrightarrow>
    is_ok (ParseDeployment h v) \<and> is_ok (ParseGateway h v) \<and> is_ok (ParseControlPlane h v) \<and> is_ok (ParseWorker h v)"
  using assms deployment.view_same [of v h] gateway.view_same [of v h] control_plane.view_same [of v h]
    worker.view_same [of v h]
  by (auto simp: ValidateComplete_def result_simps is_ok_iff)

theorem ValidateComplete_exact_witness:
  "is_ok (ValidateComplete (memory_host []) [(''LOG_LEVEL'', ''loud'')]) \<longleftrightarrow>
    is_ok (ParseDeployment (memory_host []) [(''LOG_LEVEL'', ''loud'')]) \<and>
    is_ok (ParseGateway (memory_host []) [(''LOG_LEVEL'', ''loud'')]) \<and>
    is_ok (ParseControlPlane (memory_host []) [(''LOG_LEVEL'', ''loud'')]) \<and>
    is_ok (ParseWorker (memory_host []) [(''LOG_LEVEL'', ''loud'')])"
proof (rule ValidateComplete_exact)
  show "list_all (\<lambda>p. preflight [(''LOG_LEVEL'', ''loud'')] p = Inr ())
    [ProcessDeployment, ProcessGateway, ProcessControlPlane, ProcessWorker]" by code_simp
qed

text \<open>C37. The preflight of a process accepts an environment exactly when every name in it that is not in
  the inventory is neither obsolete nor carries an owned prefix and, for the three long-running
  services, no bootstrap setting is present.\<close>

theorem preflight_exact:
  "preflight v p = Inr () \<longleftrightarrow>
     list_all (\<lambda>(name, x). \<not> (map_of inventory name = None \<and>
        (name \<in> set obsoleteSettings \<or> HasPrefix name ''NEXUSRELAY_'' \<or> HasPrefix name ''BOOTSTRAP_''))) v \<and>
     (p = ProcessBootstrap \<or> p = ProcessDeployment \<or> list_all (\<lambda>name. map_of v name = None) bootstrap_names)"
proof -
  have names: "preflight_names ns = Inr () \<longleftrightarrow> is_ok (preflight_names ns)" for ns by (auto simp: is_ok_iff)
  have boot: "preflight_bootstrap v ns = Inr () \<longleftrightarrow> is_ok (preflight_bootstrap v ns)" for ns by (auto simp: is_ok_iff)
  show ?thesis
    by (cases p) (auto simp: preflight_def bindE_Inr names boot preflight_names_ok preflight_bootstrap_ok
        known_def owned_def unmistakableOwnedPrefixes_def list_all_iff split: prod.splits)
qed

end
