(* ===== verification/Config_Facts.thy ===== *)
theory Config_Facts
  imports Config_Process
begin

text \<open>
  What an accepted configuration guarantees: the ranges and orderings of the numeric policies,
  the production rules, the origin list, and the deployment inventory.
\<close>

section \<open>Numeric policies\<close>

lemmas bounded_dest =
  integer_setting.in_bounds int64_setting.in_bounds duration_setting.in_bounds

text \<open>An accepted readiness policy is inside its ranges, its probe timeout is shorter than the
  startup timeout, and its smallest retry delay does not exceed the largest.\<close>

theorem parseDependencyReadiness_ordered:
  assumes "parseDependencyReadiness v = Inr r"
  shows "Second \<le> dr_StartupTimeout r \<and> dr_StartupTimeout r \<le> 10 * Minute \<and>
    100 * Millisecond \<le> dr_ProbeTimeout r \<and> dr_ProbeTimeout r \<le> Minute \<and>
    dr_ProbeTimeout r < dr_StartupTimeout r \<and>
    Second \<le> dr_ProbeInterval r \<and> dr_ProbeInterval r \<le> Minute \<and>
    10 * Millisecond \<le> dr_RetryMinimum r \<and> dr_RetryMinimum r \<le> dr_RetryMaximum r \<and> dr_RetryMaximum r \<le> Minute"
  using assms by (auto simp: parseDependencyReadiness_def result_simps dest!: bounded_dest)

theorem parseDependencyReadiness_ordered_witness:
  "\<exists>r. parseDependencyReadiness [(''DEPENDENCY_RETRY_MIN_DELAY'', ''1.5s'')] = Inr r \<and>
     dr_ProbeTimeout r < dr_StartupTimeout r \<and> dr_RetryMinimum r \<le> dr_RetryMaximum r"
proof -
  have "parseDependencyReadiness [(''DEPENDENCY_RETRY_MIN_DELAY'', ''1.5s'')] = Inr \<lparr>dr_StartupTimeout = 60 * Second,
     dr_ProbeTimeout = 3 * Second, dr_ProbeInterval = 5 * Second, dr_RetryMinimum = 1500 * Millisecond,
     dr_RetryMaximum = 2 * Second\<rparr>" by code_simp
  from parseDependencyReadiness_ordered [OF this] this show ?thesis by blast
qed

text \<open>The Argon2 policy loses nothing in its conversions to uint32 and uint8: the stored words are
  the numbers that were read, inside their ranges, and the memory is at least eight times the
  parallelism.\<close>

theorem parsePasswordPolicy_lossless:
  assumes "parsePasswordPolicy v = Inr p"
  shows "integer v ''PASSWORD_ARGON2_MEMORY_KIB'' 65536 8 (4 * 1024 * 1024) = Inr (uint (pp_Argon2MemoryKiB p)) \<and>
    integer v ''PASSWORD_ARGON2_ITERATIONS'' 3 1 100 = Inr (uint (pp_Argon2Iterations p)) \<and>
    integer v ''PASSWORD_ARGON2_PARALLELISM'' 2 1 255 = Inr (uint (pp_Argon2Parallelism p)) \<and>
    8 * uint (pp_Argon2Parallelism p) \<le> uint (pp_Argon2MemoryKiB p)"
proof -
  from assms obtain m i q where
    m: "integer v ''PASSWORD_ARGON2_MEMORY_KIB'' 65536 8 (4 * 1024 * 1024) = Inr m"
    and i: "integer v ''PASSWORD_ARGON2_ITERATIONS'' 3 1 100 = Inr i"
    and q: "integer v ''PASSWORD_ARGON2_PARALLELISM'' 2 1 255 = Inr q" and le: "8 * q \<le> m"
    and p: "p = \<lparr>pp_Argon2MemoryKiB = word_of_int m, pp_Argon2Iterations = word_of_int i, pp_Argon2Parallelism = word_of_int q\<rparr>"
    by (auto simp: parsePasswordPolicy_def result_simps)
  have "uint (word_of_int m :: 32 word) = m" "uint (word_of_int i :: 32 word) = i" "uint (word_of_int q :: 8 word) = q"
    using bounded_dest(1) [OF m] bounded_dest(1) [OF i] bounded_dest(1) [OF q]
    by (simp_all add: uint_word_of_int)
  with m i q le p show ?thesis by simp
qed

theorem parsePasswordPolicy_lossless_witness:
  "uint (255 :: 8 word) * 8 \<le> uint (2040 :: 32 word) \<and>
   integer [(''PASSWORD_ARGON2_MEMORY_KIB'', ''2040''), (''PASSWORD_ARGON2_PARALLELISM'', ''255'')]
     ''PASSWORD_ARGON2_PARALLELISM'' 2 1 255 = Inr 255"
proof -
  have "parsePasswordPolicy [(''PASSWORD_ARGON2_MEMORY_KIB'', ''2040''), (''PASSWORD_ARGON2_PARALLELISM'', ''255'')] =
    Inr \<lparr>pp_Argon2MemoryKiB = 2040, pp_Argon2Iterations = 3, pp_Argon2Parallelism = 255\<rparr>" by code_simp
  from parsePasswordPolicy_lossless [OF this] show ?thesis by simp
qed

text \<open>An accepted gateway policy bounds the body and the attempts, and no upstream stage may take
  longer than the whole request.\<close>

theorem parseGatewayPolicy_stages:
  assumes "parseGatewayPolicy v = Inr p"
  shows "1 \<le> gp_RequestBodyMaxBytes p \<and> gp_RequestBodyMaxBytes p \<le> 1024 * 1024 * 1024 \<and>
    Millisecond \<le> gp_UpstreamConnectTimeout p \<and> gp_UpstreamConnectTimeout p \<le> gp_UpstreamTotalTimeout p \<and>
    Millisecond \<le> gp_UpstreamFirstByteTimeout p \<and> gp_UpstreamFirstByteTimeout p \<le> gp_UpstreamTotalTimeout p \<and>
    Millisecond \<le> gp_UpstreamIdleTimeout p \<and> gp_UpstreamIdleTimeout p \<le> gp_UpstreamTotalTimeout p \<and>
    gp_UpstreamTotalTimeout p \<le> 24 * Hour \<and> 1 \<le> gp_MaxUpstreamAttempts p \<and> gp_MaxUpstreamAttempts p \<le> 20"
  using assms by (auto simp: parseGatewayPolicy_def result_simps dest!: bounded_dest)

theorem parseGatewayPolicy_stages_witness:
  "\<exists>p. parseGatewayPolicy [(''UPSTREAM_TOTAL_TIMEOUT'', ''60s'')] = Inr p \<and>
     gp_UpstreamIdleTimeout p \<le> gp_UpstreamTotalTimeout p"
proof -
  have "parseGatewayPolicy [(''UPSTREAM_TOTAL_TIMEOUT'', ''60s'')] = Inr \<lparr>gp_RequestBodyMaxBytes = 10485760,
    gp_UpstreamConnectTimeout = 10 * Second, gp_UpstreamFirstByteTimeout = 60 * Second,
    gp_UpstreamIdleTimeout = 60 * Second, gp_UpstreamTotalTimeout = 60 * Second, gp_MaxUpstreamAttempts = 3\<rparr>"
    by code_simp
  from parseGatewayPolicy_stages [OF this] this show ?thesis by blast
qed

text \<open>An accepted worker policy is ordered: the outbox backoff starts below its cap, the fast health
  window lies inside the stabilizing one, and the threshold to enter unavailability is strictly
  below the threshold to leave it, so the two cannot flap at one value; every counter is positive.\<close>

theorem parseWorkerPolicy_ordered:
  assumes "parseWorkerPolicy v = Inr p"
  shows "Millisecond \<le> wp_OutboxRetryBaseDelay p \<and> wp_OutboxRetryBaseDelay p \<le> wp_OutboxRetryMaxDelay p \<and>
    wp_OutboxRetryMaxDelay p \<le> 24 * Hour \<and>
    Second \<le> wp_HealthFastWindow p \<and> wp_HealthFastWindow p \<le> wp_HealthStabilizingWindow p \<and>
    0 \<le> wp_HealthUnavailableEntryThresholdBPS p \<and>
    wp_HealthUnavailableEntryThresholdBPS p < wp_HealthUnavailableExitThresholdBPS p \<and>
    wp_HealthUnavailableExitThresholdBPS p \<le> 10000 \<and>
    1 \<le> wp_RequestRetentionDays p \<and> 1 \<le> wp_AuditRetentionDays p \<and> 1 \<le> wp_HealthObservationRetentionDays p \<and>
    1 \<le> wp_ProcessedOutboxRetentionDays p \<and> 1 \<le> wp_Concurrency p \<and> wp_Concurrency p \<le> 1024 \<and>
    1 \<le> wp_HealthMinSamples p \<and> 1 \<le> wp_HealthConsecutiveFailures p \<and> 1 \<le> wp_HealthConsecutiveSuccesses p \<and>
    1 \<le> wp_RetentionBatchSize p \<and> wp_HealthPolicyVersion p \<le> 2147483647"
  using assms by (auto simp: parseWorkerPolicy_def result_simps dest!: bounded_dest)

theorem parseWorkerPolicy_ordered_witness:
  "\<exists>p. parseWorkerPolicy [] = Inr p \<and>
     wp_HealthUnavailableEntryThresholdBPS p < wp_HealthUnavailableExitThresholdBPS p"
proof -
  have "is_ok (parseWorkerPolicy [])" by code_simp
  then obtain p where p: "parseWorkerPolicy [] = Inr p" by (auto simp: is_ok_iff)
  with parseWorkerPolicy_ordered [OF p] show ?thesis by blast
qed

section \<open>Origins\<close>

lemma origins_loop_ok:
  "origins_loop seen result parts = Inr out \<Longrightarrow>
     \<exists>us. out = result @ us \<and> list_all2 (\<lambda>part u. originURL ''ADMIN_ORIGINS'' part = Inr u) parts us \<and>
       distinct (map origin_String us) \<and> set seen \<inter> origin_String ` set us = {}"
proof (induction parts arbitrary: seen result)
  case (Cons part parts)
  then obtain u where u: "originURL ''ADMIN_ORIGINS'' part = Inr u" "origin_String u \<notin> set seen"
    and rest: "origins_loop (origin_String u # seen) (result @ [u]) parts = Inr out"
    by (auto simp: result_simps)
  from Cons.IH [OF rest] obtain us where us: "out = (result @ [u]) @ us"
    "list_all2 (\<lambda>part u. originURL ''ADMIN_ORIGINS'' part = Inr u) parts us"
    "distinct (map origin_String us)" "set (origin_String u # seen) \<inter> origin_String ` set us = {}" by blast
  show ?case
  proof (intro exI [of _ "u # us"] conjI)
    show "list_all2 (\<lambda>part u. originURL ''ADMIN_ORIGINS'' part = Inr u) (part # parts) (u # us)"
      using u(1) us(2) by simp
    show "distinct (map origin_String (u # us))" "set seen \<inter> origin_String ` set (u # us) = {}"
      using u(2) us(3,4) by auto
  qed (simp add: us(1))
qed simp

lemma origins_allowed_ok:
  "origins_allowed admin e b us = Inr r \<longleftrightarrow>
     (isProductionGrade e \<longrightarrow> (\<forall>u\<in>set us. Scheme u = ''https'')) \<and>
     r = (b \<or> (\<exists>u\<in>set us. origin_String u = origin_String admin))"
proof (induction us arbitrary: b)
  case (Cons u us)
  then show ?case by (cases "origin_String u = origin_String admin") (simp_all add: result_simps, blast+)
qed auto

lemma validateAdminOrigins_ok:
  "validateAdminOrigins admin us e = Inr x \<longleftrightarrow>
     (isProductionGrade e \<longrightarrow> (\<forall>u\<in>set us. Scheme u = ''https'')) \<and>
     (\<exists>u\<in>set us. origin_String u = origin_String admin)"
  by (auto simp: validateAdminOrigins_def origins_allowed_ok result_simps)

lemma originURL_ok:
  "originURL name raw = Inr u \<Longrightarrow> Scheme u \<in> {''http'', ''https''} \<and> Host u \<noteq> [] \<and> User u = None \<and>
     Path u = [] \<and> RawQuery u = [] \<and> Fragment u = []"
  by (auto simp: originURL_def absoluteURL_def result_simps)

lemma parseOrigins_ok:
  assumes "parseOrigins raw = Inr us"
  shows "us \<noteq> [] \<and> distinct (map origin_String us) \<and> length us = length (Split (CHR '','') raw) \<and>
    (\<forall>u\<in>set us. Scheme u \<in> {''http'', ''https''} \<and> Host u \<noteq> [] \<and> User u = None \<and>
       Path u = [] \<and> RawQuery u = [] \<and> Fragment u = [])"
proof -
  from assms have "origins_loop [] [] (Split (CHR '','') raw) = Inr us" by (simp add: parseOrigins_def result_simps)
  from origins_loop_ok [OF this] have us: "distinct (map origin_String us)"
    and l: "list_all2 (\<lambda>part u. originURL ''ADMIN_ORIGINS'' part = Inr u) (Split (CHR '','') raw) us" by auto
  have "Split (CHR '','') raw \<noteq> []" by (cases raw) (auto split: list.splits)
  then have "us \<noteq> []" "length us = length (Split (CHR '','') raw)" using list_all2_lengthD [OF l] by auto
  moreover have "\<exists>part. originURL ''ADMIN_ORIGINS'' part = Inr u" if "u \<in> set us" for u
    using l that by (auto simp: list_all2_conv_all_nth in_set_conv_nth)
  ultimately show ?thesis using us originURL_ok by blast
qed

section \<open>Database inventory\<close>

definition secret_text :: "host \<Rightarrow> string \<times> string \<Rightarrow> string" where
  "secret_text h e = (case ReadSimpleSecret h (fst e) (snd e) (4 * 1024) of Inl _ \<Rightarrow> [] | Inr s \<Rightarrow> Reveal s)"

lemma is_ok_fresh [result_simps]:
  "is_ok (case m of Some x \<Rightarrow> Inl (f x) | None \<Rightarrow> r) \<longleftrightarrow> m = None \<and> is_ok r"
  by (cases m) auto

lemma check_passwords_ok:
  "is_ok (check_passwords h seen seenValues es) \<longleftrightarrow>
     (\<forall>e\<in>set es. snd e \<noteq> [] \<and> is_ok (ReadSimpleSecret h (fst e) (snd e) (4 * 1024))) \<and>
     distinct (map (\<lambda>e. filepath_Clean (snd e)) es) \<and> fst ` set seen \<inter> (\<lambda>e. filepath_Clean (snd e)) ` set es = {} \<and>
     distinct (map (secret_text h) es) \<and> fst ` set seenValues \<inter> secret_text h ` set es = {}"
proof (induction es arbitrary: seen seenValues)
  case (Cons e es)
  obtain n p where e: "e = (n, p)" by (cases e)
  show ?case
  proof (cases "ReadSimpleSecret h n p (4 * 1024)")
    case (Inl err)
    then show ?thesis by (simp add: e result_simps)
  next
    case (Inr s)
    then have "secret_text h e = Reveal s" by (simp add: secret_text_def e)
    with Inr show ?thesis
      by (auto simp: e Cons.IH result_simps map_of_eq_None_iff)
  qed
qed simp

lemma check_users_ok: "is_ok (check_users v us) \<longleftrightarrow> (\<forall>(n, x)\<in>set us. value_of v n x = x)"
  by (induction us) (auto simp: result_simps)

lemma concat_lookup: "\<forall>n\<in>set ns. map_of m n \<noteq> None \<Longrightarrow>
    concat (map (\<lambda>n. case map_of m n of None \<Rightarrow> [] | Some x \<Rightarrow> [(n, x)]) ns) = map (\<lambda>n. (n, the (map_of m n))) ns"
  by (induction ns) auto

lemma range_map_mset:
  assumes "range_order_ok h" "distinct (map fst m)"
  shows "mset (range_map h m) = mset m"
proof -
  let ?f = "\<lambda>n. (n, the (map_of m n))"
  have keys: "mset (range_order h (map fst m)) = mset (map fst m)"
    using assms(1) by (simp add: range_order_ok_def)
  then have "\<forall>n\<in>set (range_order h (map fst m)). map_of m n \<noteq> None"
    using mset_eq_setD [OF keys] by (simp add: map_of_eq_None_iff)
  then have "range_map h m = map ?f (range_order h (map fst m))"
    unfolding range_map_def by (rule concat_lookup)
  then have "mset (range_map h m) = image_mset ?f (mset (map fst m))" by (simp only: mset_map keys [simplified])
  also have "\<dots> = mset (map (\<lambda>e. ?f (fst e)) m)" by (simp add: multiset.map_comp comp_def)
  also have "map (\<lambda>e. ?f (fst e)) m = m" using assms(2) by (auto intro!: map_idI simp: map_of_is_SomeI)
  finally show ?thesis .
qed

lemma parseDatabaseInventory_ok:
  assumes "range_order_ok h"
  shows "parseDatabaseInventory h v e = Inr d \<longleftrightarrow>
    value_of v ''POSTGRES_DB'' ''nexusrelay'' = value_of v ''DATABASE_NAME'' ''nexusrelay'' \<and>
    (\<forall>(n, x)\<in>set fixed_users. value_of v n x = x) \<and>
    is_ok (check_passwords h [] [] (password_files v)) \<and>
    (\<exists>sslmode. parseDatabaseSSLMode v e = Inr sslmode \<and>
       d = \<lparr>di_Name = value_of v ''POSTGRES_DB'' ''nexusrelay'', di_ClusterAdmin = clusterAdminUser,
            di_MigrationUser = migrationUser, di_GatewayUser = gatewayUser, di_ControlUser = controlPlaneUser,
            di_WorkerUser = workerUser, di_PasswordFiles = password_files v, di_SSLMode = sslmode\<rparr>)"
proof -
  have u: "mset (range_map h fixed_users) = mset fixed_users"
    using assms by (rule range_map_mset) (simp add: fixed_users_def)
  have p: "mset (range_map h (password_files v)) = mset (password_files v)"
    using assms by (rule range_map_mset) (simp add: password_files_def)
  have "is_ok (check_users v (range_map h fixed_users)) \<longleftrightarrow> (\<forall>(n, x)\<in>set fixed_users. value_of v n x = x)"
    by (simp only: check_users_ok mset_eq_setD [OF u])
  moreover have "is_ok (check_passwords h [] [] (range_map h (password_files v))) \<longleftrightarrow>
      is_ok (check_passwords h [] [] (password_files v))"
  proof -
    have "distinct (map f (range_map h (password_files v))) \<longleftrightarrow> distinct (map f (password_files v))" for f :: "_ \<Rightarrow> string"
      using p by (metis mset_eq_imp_distinct_iff mset_map)
    then show ?thesis by (simp only: check_passwords_ok mset_eq_setD [OF p])
  qed
  ultimately show ?thesis
    by (auto simp: parseDatabaseInventory_def result_simps Let_def is_ok_iff)
qed

text \<open>Whether the deployment inventory of the database is accepted, and what it is, does not
  depend on the order in which Go visits its maps of users and password files: any two hosts that
  differ only in that order agree on every accepted result.\<close>

theorem parseDatabaseInventory_order_free:
  assumes "range_order_ok h" "range_order_ok (h\<lparr>range_order := r\<rparr>)"
  shows "parseDatabaseInventory (h\<lparr>range_order := r\<rparr>) v e = Inr d \<longleftrightarrow> parseDatabaseInventory h v e = Inr d"
proof -
  have "openProtectedFile (h\<lparr>range_order := r\<rparr>) n p = openProtectedFile h n p" for n p
    by (simp add: openProtectedFile_def cong: option.case_cong)
  then have read: "ReadSimpleSecret (h\<lparr>range_order := r\<rparr>) n p m = ReadSimpleSecret h n p m" for n p m
    by (simp add: ReadSimpleSecret_def ReadSecretFile_def readSecretBytes_def)
  then have "secret_text (h\<lparr>range_order := r\<rparr>) = secret_text h" by (simp add: secret_text_def fun_eq_iff)
  with read show ?thesis
    by (simp add: parseDatabaseInventory_ok [OF assms(1)] parseDatabaseInventory_ok [OF assms(2)] check_passwords_ok)
qed

definition sample_passwords :: "(string \<times> string) list" where
  "sample_passwords =
     [(''/run/secrets/postgres_cluster_admin_password'', ''pw-a''), (''/run/secrets/postgres_migration_password'', ''pw-b''),
      (''/run/secrets/postgres_gateway_password'', ''pw-c''), (''/run/secrets/postgres_control_plane_password'', ''pw-d''),
      (''/run/secrets/postgres_worker_password'', ''pw-e'')]"

lemma memory_host_order: "range_order_ok (memory_host files)" "range_order_ok (memory_host files\<lparr>range_order := rev\<rparr>)"
  by (simp_all add: range_order_ok_def memory_host_def)

theorem parseDatabaseInventory_order_free_witness:
  "\<exists>d. parseDatabaseInventory (memory_host sample_passwords\<lparr>range_order := rev\<rparr>) [] ''development'' = Inr d"
proof -
  have "is_ok (parseDatabaseInventory (memory_host sample_passwords) [] ''development'')" by code_simp
  then show ?thesis
    using parseDatabaseInventory_order_free [OF memory_host_order] by (auto simp: is_ok_iff)
qed

text \<open>C31. An accepted database inventory gives every one of the five roles its own password: five
  readable protected files with pairwise different cleaned paths and pairwise different contents,
  under the fixed role names.\<close>

theorem parseDatabaseInventory_separation:
  assumes "range_order_ok h" "parseDatabaseInventory h v e = Inr d"
  shows "length (di_PasswordFiles d) = 5 \<and> distinct (map (\<lambda>b. filepath_Clean (snd b)) (di_PasswordFiles d)) \<and>
    (\<exists>ss. list_all2 (\<lambda>b s. ReadSimpleSecret h (fst b) (snd b) (4 * 1024) = Inr (Secret s)) (di_PasswordFiles d) ss \<and>
      distinct ss) \<and>
    di_ClusterAdmin d = clusterAdminUser \<and> di_GatewayUser d = gatewayUser"
proof -
  have c: "is_ok (check_passwords h [] [] (password_files v))" and d: "di_PasswordFiles d = password_files v"
    and u: "di_ClusterAdmin d = clusterAdminUser" "di_GatewayUser d = gatewayUser"
    using assms(2) by (auto simp: parseDatabaseInventory_ok [OF assms(1)])
  have "ReadSimpleSecret h (fst b) (snd b) (4 * 1024) = Inr (Secret (secret_text h b))"
    if "b \<in> set (password_files v)" for b
  proof -
    have "is_ok (ReadSimpleSecret h (fst b) (snd b) (4 * 1024))" using c that by (auto simp: check_passwords_ok)
    then show ?thesis by (auto simp: is_ok_iff secret_text_def)
  qed
  then have "list_all2 (\<lambda>b s. ReadSimpleSecret h (fst b) (snd b) (4 * 1024) = Inr (Secret s))
      (password_files v) (map (secret_text h) (password_files v))"
    by (simp add: list_all2_map2 list_all2_same)
  moreover have "length (password_files v) = 5" by (simp add: password_files_def)
  ultimately show ?thesis using c d u by (auto simp: check_passwords_ok)
qed

theorem parseDatabaseInventory_separation_witness:
  "\<exists>d. parseDatabaseInventory (memory_host sample_passwords) [] ''development'' = Inr d \<and>
     distinct (map (\<lambda>b. filepath_Clean (snd b)) (di_PasswordFiles d))"
proof -
  have "is_ok (parseDatabaseInventory (memory_host sample_passwords) [] ''development'')" by code_simp
  then obtain d where d: "parseDatabaseInventory (memory_host sample_passwords) [] ''development'' = Inr d"
    by (auto simp: is_ok_iff)
  with parseDatabaseInventory_separation [OF memory_host_order(1) d] show ?thesis by blast
qed

end
