(* ===== verification/Json_Exact.thy ===== *)
theory Json_Exact
  imports Strict_Json
begin

text \<open>
  The converse of the previous theory: whatever the decoder reads and conforms to the schema passes
  the token scan.  So \<^verbatim>\<open>strictJSON\<close> accepts exactly the documents that consist of one conforming
  value, and what the program itself writes can be read back.
\<close>

section \<open>The grammar, read backwards\<close>

lemma items_atE:
  assumes "items_at s = Some (xs, t)"
  obtains x u ys where "xs = x # ys" "value_at s = Some (x, u)" "items_text tokenArrayComma u ys t"
proof -
  have unfold: "items_at s = (case value_at s of
     None \<Rightarrow> None
   | Some (x, t) \<Rightarrow>
       (case skip_space t of
          [] \<Rightarrow> None
        | c # cs \<Rightarrow>
            if c = CHR '']'' then Some ([x], cs)
            else if c = CHR '','' then map_option (\<lambda>(xs, u). (x # xs, u)) (parse_items (Suc (2 * length s)) cs)
            else None))"
    by (simp add: items_at_def value_at_def)
  from assms obtain x u where x: "value_at s = Some (x, u)" unfolding unfold by (auto split: option.splits)
  with assms obtain c cs where u: "skip_space u = c # cs" unfolding unfold by (auto split: list.splits)
  show ?thesis using assms items_at_Some [OF x u] x u that [of x _ u]
    by (auto simp: items_text_def HasPrefix_one split: if_splits)
qed

lemma members_atE:
  assumes "members_at s = Some (ms, t)"
  obtains q r name u v x w ys where "skip_space s = q # r" "byte q = 34" "lex_string r = Some (name, u)" "skip_space u = CHR '':'' # v"
    "value_at v = Some (x, w)" "ms = (name, x) # ys" "fields_text tokenObjectComma w ys t"
proof -
  from assms obtain q r name u where name: "skip_space s = q # r" "byte q = 34" "lex_string r = Some (name, u)"
    and colon: "HasPrefix (skip_space u) '':''"
    unfolding members_at_def by (auto split: list.splits if_splits option.splits)
  then obtain v where v: "skip_space u = CHR '':'' # v" by (auto simp: HasPrefix_one)
  have less: "length v < length s"
    using skip_Cons_le [OF v] skip_Cons_le [OF name(1)] lex_string_length [OF name(3)] by linarith
  have same: "parse_value (Suc (2 * length s)) v = value_at v" by (rule parse_at(1)) (use less in simp)
  have "members_at s = parse_members (Suc (Suc (2 * length s))) s" by (simp add: members_at_def)
  then have unfold: "members_at s = (case value_at v of
      None \<Rightarrow> None
    | Some (x, u) \<Rightarrow>
       (case skip_space u of
          [] \<Rightarrow> None
        | c # cs \<Rightarrow>
            if c = CHR ''}'' then Some ([(name, x)], cs)
            else if c = CHR '','' then map_option (\<lambda>(xs, w). ((name, x) # xs, w)) (parse_members (Suc (2 * length s)) cs)
            else None))"
    using colon by (simp only: parse_members.simps(2) [of "Suc (2 * length s)"] name v same option.case prod.case list.case list.sel simp_thms if_True if_False)
  from assms obtain x w where x: "value_at v = Some (x, w)" unfolding unfold by (auto split: option.splits)
  with assms obtain c cs where w: "skip_space w = c # cs" unfolding unfold by (auto split: list.splits)
  show ?thesis using assms members_at_Some [OF name v x w] name v x w that [of q r name u v x w]
    by (auto simp: fields_text_def HasPrefix_one split: if_splits)
qed

section \<open>The tokens of a value\<close>

lemma Token_value:
  assumes "value_text d s st" "value_state (dec_state d)" "skip_space s = c # cs"
  shows "tokenValueAllowed st" "Token d = token_here (d\<lparr>dec_input := s, dec_state := st\<rparr>) c cs"
proof -
  show st: "tokenValueAllowed st"
    using assms(1,2) by (auto simp: value_text_def value_state_def tokenValueAllowed_def split: if_splits)
  have here: "Token (d\<lparr>dec_input := s, dec_state := st\<rparr>) = token_here (d\<lparr>dec_input := s, dec_state := st\<rparr>) c cs"
    using assms(3) no_separator(1) [OF st] by (simp add: Token.simps [of "d\<lparr>dec_input := s, dec_state := st\<rparr>"])
  show "Token d = token_here (d\<lparr>dec_input := s, dec_state := st\<rparr>) c cs"
  proof (cases "dec_state d = tokenArrayComma \<or> dec_state d = tokenObjectColon")
    case True
    then show ?thesis using assms(1) here
      by (auto simp: value_text_def Token.simps [of d] separator_def split: if_splits)
  next
    case False
    then have "d\<lparr>dec_input := s, dec_state := st\<rparr> = d" using assms(1) by (simp add: value_text_def)
    with here show ?thesis by simp
  qed
qed

lemma value_atD: "value_at s = Some r \<Longrightarrow> \<exists>c cs. skip_space s = c # cs"
  by (cases "skip_space s") (auto simp: value_at_def)

lemma lex_scalar_first:
  "lex_scalar (c # cs) = Some r \<Longrightarrow> c \<notin> {CHR ''['', CHR '']'', CHR ''{'', CHR ''}'', CHR '':'', CHR '',''}"
  by (auto simp: lex_scalar_def HasPrefix_def is_digit_def between_def)

lemma value_at_first:
  "value_at s = Some r \<Longrightarrow> skip_space s = c # cs \<Longrightarrow> c \<notin> {CHR '']'', CHR ''}'', CHR '':'', CHR '',''}"
  using lex_scalar_first [of c cs r] by (auto simp: value_at_Cons split: if_splits)

section \<open>The scan is complete\<close>

lemma scalar_complete:
  assumes "scalar_ok x" "value_text d s st" "value_state (dec_state d)" "value_at s = Some (x, t)"
  shows "scanJSONValue h schema d = Inr \<lparr>dec_input = t, dec_state = tokenValueEnd st, dec_stack = dec_stack d\<rparr>"
proof -
  obtain c cs where s: "skip_space s = c # cs" using value_atD [OF assms(4)] by blast
  with assms(1,4) have lex: "lex_scalar (c # cs) = Some (x, t)"
    by (auto simp: value_at_Cons split: if_splits)
  note tok = Token_value [OF assms(2,3) s]
  have "\<not> (case x of JNumber n \<Rightarrow> \<not> float64_finite n | _ \<Rightarrow> False)" using assms(1) by (cases x) auto
  then have "Token d = Got (Scalar x, d\<lparr>dec_input := t, dec_state := tokenValueEnd st\<rparr>)"
    unfolding tok(2) using lex lex_scalar_first [OF lex] tok(1)
    by (auto simp: token_here_def scalar_token_def tokenValueAllowed_def)
  then show ?thesis by (simp add: scanJSONValue.simps [of h schema d])
qed

lemma closes_complete:
  assumes s: "skip_space (dec_input d) = c # cs" and stack: "dec_stack d = st # stack"
    and c: "c = CHR '']'' \<and> dec_state d \<in> {tokenArrayStart, tokenArrayComma} \<or> c = CHR ''}'' \<and> dec_state d \<in> {tokenObjectStart, tokenObjectComma}"
  shows "closes c err d = Inr \<lparr>dec_input = cs, dec_state = tokenValueEnd st, dec_stack = stack\<rparr>" "\<not> More d"
proof -
  have sep: "separator (dec_state d) c = None"
    using c by (elim disjE conjE) (simp_all add: separator_def)
  have "Token d = token_here d c cs"
    unfolding Token.simps [of d] s by (simp add: sep)
  also have "\<dots> = Got (Delim c, \<lparr>dec_input = cs, dec_state = tokenValueEnd st, dec_stack = stack\<rparr>)"
    using c by (elim disjE conjE) (simp_all add: token_here_def close_composite_def stack)
  finally show "closes c err d = Inr \<lparr>dec_input = cs, dec_state = tokenValueEnd st, dec_stack = stack\<rparr>"
    by (simp add: closes_def)
  show "\<not> More d" unfolding More_def s using c by (elim disjE conjE) simp_all
qed

text \<open>What the scan of one value does, as a hypothesis on the members of a composite.\<close>

definition value_completes :: "host \<Rightarrow> jsonSchema \<Rightarrow> json \<Rightarrow> bool" where
  "value_completes h schema x \<longleftrightarrow> (\<forall>d s st t. value_text d s st \<longrightarrow> value_state (dec_state d) \<longrightarrow> value_at s = Some (x, t) \<longrightarrow>
     scanJSONValue h schema d = Inr \<lparr>dec_input = t, dec_state = tokenValueEnd st, dec_stack = dec_stack d\<rparr>)"

lemma items_complete:
  assumes "\<forall>x\<in>set xs. value_completes h element x" "items_text (dec_state d) (dec_input d) xs t"
    "dec_state d = tokenArrayStart \<or> dec_state d = tokenArrayComma" "dec_stack d = st # stack"
  shows "scan_items h element d = Inr \<lparr>dec_input = t, dec_state = tokenValueEnd st, dec_stack = stack\<rparr>"
  using assms
proof (induction xs arbitrary: d)
  case Nil
  then have "HasPrefix (skip_space (dec_input d)) '']''"
    by (auto simp: items_text_def elim: items_atE split: if_splits)
  then obtain cs where cs: "skip_space (dec_input d) = CHR '']'' # cs" by (auto simp: HasPrefix_one)
  with Nil have "t = cs" by (simp add: items_text_def HasPrefix_one)
  with closes_complete [OF cs Nil(4)] Nil(3) show ?case by (simp add: scan_items.simps [of h element d])
next
  case (Cons x xs)
  from Cons.prems(2) have open_: "\<not> HasPrefix (skip_space (dec_input d)) '']''" by (auto simp: items_text_def split: if_splits)
  with Cons.prems(2,3) obtain s where s: "items_at s = Some (x # xs, t)"
    "if dec_state d = tokenArrayStart then s = dec_input d else skip_space (dec_input d) = CHR '','' # s"
    by (auto simp: items_text_def split: if_splits)
  from items_atE [OF s(1)] obtain y u ys where "x # xs = y # ys" "value_at s = Some (y, u)" "items_text tokenArrayComma u ys t" .
  then have u: "value_at s = Some (x, u)" "items_text tokenArrayComma u xs t" by simp_all
  obtain c cs where c: "skip_space s = c # cs" using value_atD [OF u(1)] by blast
  have more: "More d"
    using s(2) c value_at_first [OF u(1) c] by (auto simp: More_def split: if_splits)
  let ?st = "if dec_state d = tokenArrayStart then tokenArrayStart else tokenArrayValue"
  have "value_text d s ?st" "value_state (dec_state d)"
    using s(2) Cons.prems(3) by (auto simp: value_text_def value_state_def)
  with Cons.prems(1) u(1) have "scanJSONValue h element d = Inr \<lparr>dec_input = u, dec_state = tokenValueEnd ?st, dec_stack = dec_stack d\<rparr>"
    by (simp add: value_completes_def)
  moreover have "tokenValueEnd ?st = tokenArrayComma" by (simp add: tokenValueEnd_def)
  ultimately show ?case using Cons u(2) scan_loops(2) [OF more, of h element] by simp
qed

lemma key_read:
  assumes "dec_state d = tokenObjectStart \<or> dec_state d = tokenObjectComma"
    "if dec_state d = tokenObjectStart then s = dec_input d else skip_space (dec_input d) = CHR '','' # s"
    "skip_space s = q # r" "byte q = 34" "lex_string r = Some (name, u)"
  shows "Token d = Got (Scalar (JString name), d\<lparr>dec_input := u, dec_state := tokenObjectColon\<rparr>)" "More d"
proof -
  have q: "q \<notin> {CHR ''['', CHR '']'', CHR ''{'', CHR ''}'', CHR '':'', CHR '',''}" using assms(4) by auto
  let ?k = "d\<lparr>dec_input := s, dec_state := (if dec_state d = tokenObjectStart then tokenObjectStart else tokenObjectKey)\<rparr>"
  have "Token ?k = Got (Scalar (JString name), d\<lparr>dec_input := u, dec_state := tokenObjectColon\<rparr>)"
    using assms(3-5) q by (simp add: Token.simps [of ?k] separator_def token_here_def)
  moreover have "Token d = Token ?k"
  proof (cases "dec_state d = tokenObjectStart")
    case True
    then have "?k = d" using assms(2) by simp
    then show ?thesis by simp
  next
    case False
    then show ?thesis using assms(1,2) by (simp add: Token.simps [of d] separator_def)
  qed
  ultimately show "Token d = Got (Scalar (JString name), d\<lparr>dec_input := u, dec_state := tokenObjectColon\<rparr>)" by simp
  show "More d" using assms(2,3) q by (auto simp: More_def split: if_splits)
qed

lemma fields_complete:
  assumes "\<forall>(n, x)\<in>set ms. \<exists>child. map_of flds n = Some child \<and> value_completes h child x" "distinct (map fst ms)"
    "fields_text (dec_state d) (dec_input d) ms t" "set seen \<inter> fst ` set ms = {}"
    "dec_state d = tokenObjectStart \<or> dec_state d = tokenObjectComma" "dec_stack d = st # stack"
  shows "scan_fields h flds seen d = Inr \<lparr>dec_input = t, dec_state = tokenValueEnd st, dec_stack = stack\<rparr>"
  using assms
proof (induction ms arbitrary: d seen)
  case Nil
  then have "HasPrefix (skip_space (dec_input d)) ''}''"
    by (auto simp: fields_text_def elim: members_atE split: if_splits)
  then obtain cs where cs: "skip_space (dec_input d) = CHR ''}'' # cs" by (auto simp: HasPrefix_one)
  with Nil have "t = cs" by (simp add: fields_text_def HasPrefix_one)
  with closes_complete [OF cs Nil(6)] Nil(5) show ?case by (simp add: scan_fields.simps [of h flds seen d])
next
  case (Cons m ms)
  from Cons.prems(3,5) obtain s where s: "members_at s = Some (m # ms, t)"
    "if dec_state d = tokenObjectStart then s = dec_input d else skip_space (dec_input d) = CHR '','' # s"
    by (auto simp: fields_text_def split: if_splits)
  from members_atE [OF s(1)] obtain q r name u v x w ys where
    name: "skip_space s = q # r" "byte q = 34" "lex_string r = Some (name, u)" and v: "skip_space u = CHR '':'' # v"
    and x: "value_at v = Some (x, w)" and ys: "m # ms = (name, x) # ys" "fields_text tokenObjectComma w ys t" .
  then have m: "m = (name, x)" and rest: "fields_text tokenObjectComma w ms t" by simp_all
  note key = key_read [OF Cons.prems(5) s(2) name]
  let ?d1 = "d\<lparr>dec_input := u, dec_state := tokenObjectColon\<rparr>"
  from Cons.prems(1) m obtain child where child: "map_of flds name = Some child" "value_completes h child x" by auto
  have "value_text ?d1 v tokenObjectValue" "value_state (dec_state ?d1)" using v by (simp_all add: value_text_def value_state_def)
  with child(2) x have "scanJSONValue h child ?d1 = Inr \<lparr>dec_input = w, dec_state = tokenValueEnd tokenObjectValue, dec_stack = dec_stack d\<rparr>"
    by (simp add: value_completes_def)
  moreover have "name \<notin> set seen" using Cons.prems(4) m by auto
  moreover have "tokenValueEnd tokenObjectValue = tokenObjectComma" by (simp add: tokenValueEnd_def)
  moreover have "scan_fields h flds (name # seen) \<lparr>dec_input = w, dec_state = tokenObjectComma, dec_stack = dec_stack d\<rparr> =
      Inr \<lparr>dec_input = t, dec_state = tokenValueEnd st, dec_stack = stack\<rparr>"
    using Cons.prems m rest by (intro Cons.IH) auto
  ultimately show ?case using scan_loops(1) [OF key(2,1) _ child(1), of seen h] by simp
qed

lemma scan_complete: "conforms schema x \<Longrightarrow> value_completes h schema x"
proof (induction rule: conforms.induct)
  case (conforms_scalar x schema)
  then show ?case unfolding value_completes_def by (blast intro: scalar_complete)
next
  case (conforms_array xs element)
  show ?case unfolding value_completes_def
  proof (intro allI impI)
    fix d s st t
    assume d: "value_text d s st" "value_state (dec_state d)" and v: "value_at s = Some (JArray xs, t)"
    obtain c cs where s: "skip_space s = c # cs" using value_atD [OF v] by blast
    with v have c: "c = CHR ''[''" and xs: "items_text tokenArrayStart cs xs t"
      by (auto simp: value_at_Cons items_text_def dest: lex_scalar_flat split: if_splits)
    note tok = Token_value [OF d s]
    have "Token d = Got (Delim (CHR ''[''), \<lparr>dec_input = cs, dec_state = tokenArrayStart, dec_stack = st # dec_stack d\<rparr>)"
      using tok(1) unfolding tok(2) by (simp add: c token_here_def open_composite_def)
    then show "scanJSONValue h (SArray element) d = Inr \<lparr>dec_input = t, dec_state = tokenValueEnd st, dec_stack = dec_stack d\<rparr>"
      using items_complete [of xs h element "\<lparr>dec_input = cs, dec_state = tokenArrayStart, dec_stack = st # dec_stack d\<rparr>" t] xs conforms_array
      by (simp add: scanJSONValue.simps [of h _ d])
  qed
next
  case (conforms_object ms flds)
  show ?case unfolding value_completes_def
  proof (intro allI impI)
    fix d s st t
    assume d: "value_text d s st" "value_state (dec_state d)" and v: "value_at s = Some (JObject ms, t)"
    obtain c cs where s: "skip_space s = c # cs" using value_atD [OF v] by blast
    with v have c: "c = CHR ''{''" and ms: "fields_text tokenObjectStart cs ms t"
      by (auto simp: value_at_Cons fields_text_def dest: lex_scalar_flat split: if_splits)
    note tok = Token_value [OF d s]
    have "Token d = Got (Delim (CHR ''{''), \<lparr>dec_input = cs, dec_state = tokenObjectStart, dec_stack = st # dec_stack d\<rparr>)"
      using tok(1) unfolding tok(2) by (simp add: c token_here_def open_composite_def)
    then show "scanJSONValue h (SObject flds) d = Inr \<lparr>dec_input = t, dec_state = tokenValueEnd st, dec_stack = dec_stack d\<rparr>"
      using fields_complete [of ms flds h "\<lparr>dec_input = cs, dec_state = tokenObjectStart, dec_stack = st # dec_stack d\<rparr>" t "[]"] ms conforms_object
      by (fastforce simp: scanJSONValue.simps [of h _ d])
  qed
qed

section \<open>Properties\<close>

lemma strictJSON_accepts:
  assumes "Decode s = Got (x, rest)" "skip_space rest = []" "conforms schema x" "destination x = Some w"
  shows "strictJSON h setting s destination schema = Inr w"
proof -
  have v: "value_at s = Some (x, rest)" using assms(1) by (auto simp: Decode_value_at split: if_splits option.splits)
  let ?d = "\<lparr>dec_input = rest, dec_state = tokenTopValue, dec_stack = []\<rparr>"
  have "scanJSONValue h schema (NewDecoder s) = Inr ?d"
    using scan_complete [OF assms(3), of h] v
    by (auto simp: value_completes_def value_text_def value_state_def NewDecoder_def tokenValueEnd_def)
  moreover have "Token ?d = EOF" using assms(2) by (simp add: Token.simps [of ?d])
  moreover have "Decode rest = EOF" using assms(2) by (simp add: Decode_def)
  ultimately show ?thesis using assms(1,4) by (simp add: strictJSON_def guardE_def)
qed

text \<open>C15. \<^verbatim>\<open>strictJSON\<close> accepts exactly the documents that consist of one value of the grammar and
  nothing but white space after it, where that value conforms to the schema (only its fields, none
  of them twice, objects and arrays only where the schema has them, numbers that fit a float64) and
  fits the destination; what it returns is that value as the destination holds it.\<close>

theorem strictJSON_exact:
  "strictJSON h setting contents destination schema = Inr w \<longleftrightarrow>
     (\<exists>x rest. Decode contents = Got (x, rest) \<and> skip_space rest = [] \<and> conforms schema x \<and> destination x = Some w)"
  by (blast elim: strictJSON_ok intro: strictJSON_accepts)

end
