(* ===== verification/Secret_Texts.thy ===== *)
theory Secret_Texts
  imports Json_Exact Dev_Secrets
begin

text \<open>
  The texts the development generator writes, read back by the readers of \<^verbatim>\<open>secret.go\<close>: base64
  passwords and keys, the Redis URL and the two kinds of key ring document.
\<close>

section \<open>Printable texts\<close>

definition printable :: "char \<Rightarrow> bool" where
  "printable c \<longleftrightarrow> between 33 126 c"

lemma printable_byte: "printable c \<Longrightarrow> byte c < 128 \<and> \<not> IsControl (byte c) \<and> byte c \<notin> set space_runes"
  by (auto simp: printable_def between_def IsControl_def space_runes_def)

lemma printable_text:
  assumes "list_all printable s" "s \<noteq> []"
  shows "utf8_Valid s" "\<not> list_ex IsControl (runes s)" "trim_newline s = s" "TrimSpace s = s"
proof -
  have p: "byte c < 128 \<and> \<not> IsControl (byte c) \<and> byte c \<notin> set space_runes" if "c \<in> set s" for c
    using assms(1) that printable_byte by (simp add: list_all_iff)
  show "utf8_Valid s" using p by (intro utf8_Valid_ascii) blast
  have "runes s = map of_char s" using p by (intro runes_ascii) blast
  then show "\<not> list_ex IsControl (runes s)" using p by (auto simp: list_ex_iff)
  have ends: "\<not> HasSuffix s e" if "e \<noteq> []" "\<not> printable (last e)" for e
    using that assms(1) by (auto simp: HasSuffix_iff list_all_iff)
  have "\<not> printable (last [CHR 0x0D, CHR 0x0A])" "\<not> printable (last [CHR 0x0A])" by code_simp+
  then show "trim_newline s = s" unfolding trim_newline_def using ends [of "[CHR 0x0D, CHR 0x0A]"] ends [of "[CHR 0x0A]"] by simp
  have "list_all (\<lambda>e. e \<noteq> [] \<and> \<not> printable (last e)) (map EncodeRune space_runes)" by code_simp
  then have "filter (HasSuffix s) (map EncodeRune space_runes) = []"
    using ends unfolding filter_empty_conv list_all_iff by blast
  then have "trailing_space s = 0" by (simp only: trailing_space_def list.case)
  moreover have "leading_space s = 0" using assms(2) p by (cases s) (simp_all add: leading_space_def)
  ultimately show "TrimSpace s = s" by (simp add: TrimSpace_fixed)
qed

section \<open>A file that was written\<close>

lemma written_bytes:
  assumes file_: "fs_at s path = Some (FileNode perm_0600 c)" and path: "path \<noteq> []"
    and c: "list_all printable c" "c \<noteq> []" "int (length c) \<le> m" and m: "m < 9223372036854775807" and setting: "setting \<noteq> []"
  shows "readSecretBytes (fs_host h s) setting path m = Inr c"
proof -
  let ?f = "\<lparr>of_stat = Some (node_info (FileNode perm_0600 c)), of_contents = c, of_fails_after = None\<rparr>"
  have "protected (fs_host h s) path ?f"
    using file_ path by (simp add: protected_def group_world_bits_mod perm_0600_def IsRegular_def SameFile_def)
  moreover have "ReadAll_limited ?f (m + 1) = Some c" using c(3) by (simp add: ReadAll_limited_def limited_def)
  moreover have "0 < m" using c(2,3) by (cases c) auto
  ultimately show ?thesis
    using setting printable_text [OF c(1,2)] c(2,3) unfolding readSecretBytes_ok [OF m] secret_bytes_def by metis
qed

lemma written_simple:
  assumes "fs_at s path = Some (FileNode perm_0600 c)" "path \<noteq> []" "list_all printable c" "c \<noteq> []" "length c \<le> 4096" "setting \<noteq> []"
  shows "ReadSimpleSecret (fs_host h s) setting path (4 * 1024) = Inr (Secret c)"
proof -
  have "int (length c) \<le> 4 * 1024" using assms(5) by simp
  from written_bytes [OF assms(1-4) this _ assms(6), of h] show ?thesis
    using printable_text(2) [OF assms(3,4)] by (simp add: ReadSimpleSecret_ok)
qed

section \<open>Base64\<close>

lemma digit_in: "0 \<le> n \<Longrightarrow> n < 64 \<Longrightarrow> digit_of std_alphabet n \<in> set std_alphabet"
proof -
  have "length std_alphabet = 64" by code_simp
  then show "0 \<le> n \<Longrightarrow> n < 64 \<Longrightarrow> digit_of std_alphabet n \<in> set std_alphabet" unfolding digit_of_def by (intro nth_mem) simp
qed

definition padding :: "string \<Rightarrow> nat" where
  "padding bytes = (3 - length bytes mod 3) mod 3"

lemma encode_split:
  "\<exists>body. EncodeToString bytes = body @ replicate (padding bytes) (CHR ''='') \<and> set body \<subseteq> set std_alphabet \<and> length body = (4 * length bytes + 2) div 3"
proof (induction bytes rule: std_encode.induct)
  case (4 a b c rest)
  then obtain body where "EncodeToString rest = body @ replicate (padding rest) (CHR ''='')" "set body \<subseteq> set std_alphabet"
    "length body = (4 * length rest + 2) div 3" by blast
  moreover have "padding (a # b # c # rest) = padding rest" by (simp add: padding_def)
  ultimately show ?case
    by (intro exI [of _ "digit_of std_alphabet (byte a div 4) # digit_of std_alphabet (byte a mod 4 * 16 + byte b div 16) #
      digit_of std_alphabet (byte b mod 16 * 4 + byte c div 64) # digit_of std_alphabet (byte c mod 64) # body"]) (simp add: digit_in sextets)
next
  case (2 a)
  show ?case by (rule exI [of _ "[digit_of std_alphabet (byte a div 4), digit_of std_alphabet (byte a mod 4 * 16)]"])
    (simp add: digit_in sextets padding_def numeral_2_eq_2)
next
  case (3 a b)
  show ?case by (rule exI [of _ "[digit_of std_alphabet (byte a div 4), digit_of std_alphabet (byte a mod 4 * 16 + byte b div 16), digit_of std_alphabet (byte b mod 16 * 4)]"])
    (simp add: digit_in sextets padding_def)
qed (simp add: padding_def)

lemma encode_body:
  "EncodeToString bytes = filter (\<lambda>c. c \<noteq> CHR ''='') (EncodeToString bytes) @ replicate (padding bytes) (CHR ''='')"
  "set (filter (\<lambda>c. c \<noteq> CHR ''='') (EncodeToString bytes)) \<subseteq> set std_alphabet"
  "length (filter (\<lambda>c. c \<noteq> CHR ''='') (EncodeToString bytes)) = (4 * length bytes + 2) div 3"
proof -
  obtain body where body: "EncodeToString bytes = body @ replicate (padding bytes) (CHR ''='')" "set body \<subseteq> set std_alphabet"
    "length body = (4 * length bytes + 2) div 3" using encode_split by blast
  have "list_all (\<lambda>c. c \<noteq> CHR ''='') std_alphabet" by code_simp
  then have "filter (\<lambda>c. c \<noteq> CHR ''='') body = body" using body(2) by (auto simp: filter_id_conv list_all_iff)
  then have "filter (\<lambda>c. c \<noteq> CHR ''='') (EncodeToString bytes) = body" by (simp add: body(1))
  with body show "EncodeToString bytes = filter (\<lambda>c. c \<noteq> CHR ''='') (EncodeToString bytes) @ replicate (padding bytes) (CHR ''='')"
    "set (filter (\<lambda>c. c \<noteq> CHR ''='') (EncodeToString bytes)) \<subseteq> set std_alphabet"
    "length (filter (\<lambda>c. c \<noteq> CHR ''='') (EncodeToString bytes)) = (4 * length bytes + 2) div 3" by simp_all
qed

text \<open>The character of the URL alphabet at the same place.\<close>

definition url_digit :: "char \<Rightarrow> char" where
  "url_digit c = (if c = CHR ''+'' then CHR ''-'' else if c = CHR ''/'' then CHR ''_'' else c)"

lemma RawURL_digits: "RawURLEncoding bytes = map url_digit (filter (\<lambda>c. c \<noteq> CHR ''='') (EncodeToString bytes))"
  by (simp add: RawURLEncoding_def url_digit_def)

lemma url_digits: "inj_on url_digit (set std_alphabet)" "list_all (\<lambda>c. url_digit c \<in> set base64url_cutset) std_alphabet"
proof -
  have "distinct (map url_digit std_alphabet)" by code_simp
  then show "inj_on url_digit (set std_alphabet)" by (simp add: distinct_map)
  show "list_all (\<lambda>c. url_digit c \<in> set base64url_cutset) std_alphabet" by code_simp
qed

lemma RawURL_length: "length (RawURLEncoding bytes) = (4 * length bytes + 2) div 3"
  by (simp add: RawURL_digits encode_body(3))

lemma RawURL_alphabet: "list_all (\<lambda>c. c \<in> set base64url_cutset) (RawURLEncoding bytes)"
  using encode_body(2) url_digits(2) unfolding RawURL_digits list_all_iff set_map by blast

lemma RawURL_inject:
  assumes "RawURLEncoding a = RawURLEncoding b" "length a = length b"
  shows "a = b"
proof -
  have "inj_on url_digit (set (filter (\<lambda>c. c \<noteq> CHR ''='') (EncodeToString a)) \<union> set (filter (\<lambda>c. c \<noteq> CHR ''='') (EncodeToString b)))"
    using encode_body(2) by (intro inj_on_subset [OF url_digits(1)]) blast
  from map_inj_on [OF assms(1) [unfolded RawURL_digits] this]
  have "filter (\<lambda>c. c \<noteq> CHR ''='') (EncodeToString a) = filter (\<lambda>c. c \<noteq> CHR ''='') (EncodeToString b)" .
  moreover have "padding a = padding b" by (simp add: padding_def assms(2))
  ultimately have "EncodeToString a = EncodeToString b" using encode_body(1) by metis
  then show ?thesis by (rule EncodeToString_inject)
qed

lemma encodings_printable: "list_all printable (RawURLEncoding bytes)" "list_all printable (EncodeToString bytes)"
proof -
  have sets: "list_all printable base64url_cutset" "list_all printable (CHR ''='' # std_alphabet)" by code_simp+
  show "list_all printable (RawURLEncoding bytes)" using RawURL_alphabet sets(1) unfolding list_all_iff by blast
  have "set (EncodeToString bytes) \<subseteq> insert (CHR ''='') (set std_alphabet)" using encode_body(2) by auto
  then show "list_all printable (EncodeToString bytes)" using sets(2) unfolding list_all_iff list.set by blast
qed

section \<open>The Redis URL\<close>

lemma redis_dev_url_parts:
  "redis_dev_url password = ''redis://'' @ (escape encodeUserPassword [] @ CHR '':'' # escape encodeUserPassword password @ CHR ''@'' # ''redis'' @ CHR '':'' # ''6379'') @
     CHR ''/'' # ''0'' @ []"
proof -
  have "escape encodeHost ''redis:6379'' = ''redis:6379''" "printed_path ''/0'' = ''/0''" by code_simp+
  then show ?thesis by (simp add: redis_dev_url_def URL_String_def userinfo_String_def empty_URL_def HasPrefix_def)
qed

lemma redis_dev_url_parses:
  "\<exists>raw. url_Parse (redis_dev_url password) = Some (empty_URL\<lparr>Scheme := ''redis'',
     User := Some \<lparr>ui_username = [], ui_password = Some password\<rparr>, Host := ''redis:6379'', Path := ''/0'', RawPath := raw, RawQuery := []\<rparr>)"
proof -
  let ?a = "escape encodeUserPassword []" and ?b = "escape encodeUserPassword password"
  let ?auth = "?a @ CHR '':'' # ?b @ CHR ''@'' # ''redis'' @ CHR '':'' # ''6379''"
  have parts: "list_all host_char ''redis''" "list_all is_digit ''6379''" by code_simp+
  note hp = hostport_facts [OF parts]
  have free: "free_mode encodeUserPassword" by (simp add: free_mode_def)
  have auth: "parseAuthority ?auth = Some (Some \<lparr>ui_username = [], ui_password = Some password\<rparr>, ''redis'' @ CHR '':'' # ''6379'')"
    by (rule parseAuthority_parts [OF escape_user escape_user unescape_escape [OF free] unescape_escape [OF free] parseHost_plain [OF parts] hp(4)])
  note u = user_avoids [OF escape_user, of "[]"] and w = user_avoids [OF escape_user, of password]
  have slash: "CHR ''/'' \<notin> set ?auth" using avoidsD [OF u] avoidsD [OF w] hp(3) by simp
  have avoid: "avoids ''?#'' ?auth"
    using avoids_mono [OF u, of "''?#''"] avoids_mono [OF w, of "''?#''"] hp(2) by (simp add: avoids_Cons control_byte_def)
  have rest: "list_all is_lower ''redis''" "avoids ''?#'' ''0''" "avoids ''#'' []" "unescape encodePath (CHR ''/'' # ''0'') = Some ''/0''" by code_simp+
  have tail: "split_query (''//'' @ ?auth @ CHR ''/'' # ''0'' @ []) = (False, ''//'' @ ?auth @ CHR ''/'' # ''0'', [])"
    unfolding append_Nil2 using avoidsD [OF avoid] by (intro split_query_none) simp
  from url_Parse_hier [OF rest(1) _ avoid slash auth rest(2,4,3) tail] show ?thesis
    unfolding redis_dev_url_parts by simp
qed

lemma redis_dev_url_text: "list_all printable (redis_dev_url password)" "length (redis_dev_url password) \<le> 22 + 3 * length password"
proof -
  have "user_char c \<longrightarrow> printable c" for c by (rule all_chars) code_simp
  then have user: "list_all printable (escape encodeUserPassword s)" for s
    using escape_user unfolding list_all_iff by blast
  have fixed: "list_all printable ''redis://''" "list_all printable ''redis''" "list_all printable ''6379''" "printable (CHR '':'')" "printable (CHR ''@'')"
    "printable (CHR ''/'')" "printable (CHR ''0'')" by code_simp+
  show "list_all printable (redis_dev_url password)"
    unfolding redis_dev_url_parts list_all_append list.pred_inject using fixed user by simp
  have "length (escape mode s) \<le> 3 * length s" for mode s
    by (induction s) (auto simp: escape_Cons escape_def)
  from this [of encodeUserPassword password] show "length (redis_dev_url password) \<le> 22 + 3 * length password"
    by (simp add: redis_dev_url_parts escape_def)
qed

section \<open>Key ring documents\<close>

text \<open>A character that stands for itself in a JSON string.\<close>

definition plain_char :: "char \<Rightarrow> bool" where
  "plain_char c \<longleftrightarrow> printable c \<and> byte c \<noteq> 34 \<and> c \<noteq> CHR 0x5C"

lemma lex_plain: "list_all plain_char s \<Longrightarrow> lex_string (s @ CHR 0x22 # rest) = Some (s, rest)"
proof (induction s)
  case (Cons c s)
  then have "byte c \<noteq> 34" "c \<noteq> CHR 0x5C" "\<not> byte c < 32" "byte c < 128"
    by (auto simp: plain_char_def printable_def between_def)
  then show ?case using Cons by (simp add: lex_string.simps [of "c # s @ CHR 0x22 # rest"] lex_char_def)
qed (simp add: lex_string.simps)

lemma skip_here: "\<not> json_space c \<Longrightarrow> skip_space (c # cs) = c # cs"
  by (simp add: skip_space_def)

lemma json_marks: "\<not> json_space (CHR 0x22)" "\<not> json_space (CHR '':'')" "\<not> json_space (CHR '','')" "\<not> json_space (CHR ''{'')"
  "\<not> json_space (CHR ''}'')" "\<not> json_space (CHR ''['')" "\<not> json_space (CHR '']'')" "\<not> json_space (CHR ''1'')"
  by code_simp+

lemmas skip_marks = json_marks [THEN skip_here]

lemma value_quote: "list_all plain_char s \<Longrightarrow> value_at (quote s @ rest) = Some (JString s, rest)"
  using lex_plain [of s rest] by (simp add: quote_def value_at_Cons [OF skip_marks(1)] lex_scalar_def)

lemma value_one: "value_at (CHR ''1'' # CHR '','' # rest) = Some (JNumber ''1'', CHR '','' # rest)"
proof -
  have "is_digit (CHR ''1'')" "\<not> is_digit (CHR '','')" by code_simp+
  then show ?thesis
    by (simp add: value_at_Cons [OF skip_marks(8)] lex_scalar_def lex_number_def lex_whole_def lex_frac_def lex_exp_def digits_of_def HasPrefix_def)
qed

lemma member_read:
  assumes "list_all plain_char name" "value_at v = Some (x, c # t)" "\<not> json_space c"
  shows "members_at (quote name @ CHR '':'' # v) = (if c = CHR ''}'' then Some ([(name, x)], t)
    else if c = CHR '','' then map_option (\<lambda>(xs, w). ((name, x) # xs, w)) (members_at t) else None)"
  using members_at_Some [OF _ _ lex_plain [OF assms(1)] skip_marks(2) assms(2) skip_here [OF assms(3)], of "quote name @ CHR '':'' # v" "CHR 0x22"]
  by (simp add: quote_def skip_marks)

lemma object_read:
  "members_at (quote name @ s) = Some (ms, t) \<Longrightarrow> value_at (CHR ''{'' # quote name @ s) = Some (JObject ms, t)"
  by (simp add: value_at_Cons [OF skip_marks(4)] HasPrefix_def quote_def skip_marks)

lemma list_read: "value_at (CHR ''{'' # s) = Some (x, CHR '']'' # t) \<Longrightarrow> value_at (CHR ''['' # CHR ''{'' # s) = Some (JArray [x], t)"
  using items_at_Some [OF _ skip_marks(7)] by (simp add: value_at_Cons [OF skip_marks(6)] HasPrefix_def skip_marks)

definition keys_value :: "string \<Rightarrow> string \<Rightarrow> json" where
  "keys_value keyID key = JArray [JObject [(''key_id'', JString keyID), (''key'', JString key)]]"

lemma field_names: "list_all plain_char ''version''" "list_all plain_char ''expected_epoch''" "list_all plain_char ''active_key_id''"
  "list_all plain_char ''keys''" "list_all plain_char ''key_id''" "list_all plain_char ''key''"
  by code_simp+

lemma keys_read:
  assumes "list_all plain_char keyID" "list_all plain_char key"
  shows "members_at (keys_json keyID key @ ''}'') = Some ([(''keys'', keys_value keyID key)], [])"
proof -
  have "value_at (quote key @ CHR ''}'' # '']}'') = Some (JString key, CHR ''}'' # '']}'')" by (rule value_quote [OF assms(2)])
  from member_read [OF field_names(6) this json_marks(5)]
  have key: "members_at (quote ''key'' @ CHR '':'' # quote key @ CHR ''}'' # '']}'') = Some ([(''key'', JString key)], '']}'')" by simp
  have "value_at (quote keyID @ CHR '','' # quote ''key'' @ CHR '':'' # quote key @ CHR ''}'' # '']}'') = Some (JString keyID, CHR '','' # quote ''key'' @ CHR '':'' # quote key @ CHR ''}'' # '']}'')"
    by (rule value_quote [OF assms(1)])
  from member_read [OF field_names(5) this json_marks(3)] key
  have "members_at (quote ''key_id'' @ CHR '':'' # quote keyID @ CHR '','' # quote ''key'' @ CHR '':'' # quote key @ CHR ''}'' # '']}'') =
      Some ([(''key_id'', JString keyID), (''key'', JString key)], CHR '']'' # ''}'')" by simp
  from member_read [OF field_names(4) list_read [OF object_read [OF this]] json_marks(5)]
  show ?thesis by (simp add: keys_json_def keys_value_def)
qed

lemma active_read:
  assumes "list_all plain_char keyID" "list_all plain_char key"
  shows "members_at (quote ''active_key_id'' @ '':'' @ quote keyID @ '','' @ keys_json keyID key @ ''}'') =
    Some ([(''active_key_id'', JString keyID), (''keys'', keys_value keyID key)], [])"
  using member_read [OF field_names(3) value_quote [OF assms(1)] json_marks(3), of "keys_json keyID key @ ''}''"] keys_read [OF assms] by simp

lemma ring_json_read:
  assumes "list_all plain_char keyID" "list_all plain_char key"
  shows "value_at (ring_json keyID key) = Some (JObject [(''version'', JNumber ''1''), (''active_key_id'', JString keyID), (''keys'', keys_value keyID key)], [])"
  using object_read [of "''version''"] member_read [OF field_names(1) value_one json_marks(3), of "quote ''active_key_id'' @ '':'' @ quote keyID @ '','' @ keys_json keyID key @ ''}''"]
    active_read [OF assms] by (simp add: ring_json_def)

lemma provider_json_read:
  assumes "list_all plain_char key"
  shows "value_at (provider_json key) = Some (JObject [(''version'', JNumber ''1''), (''expected_epoch'', JNumber ''1''),
    (''active_key_id'', JString ''provider-dev-1''), (''keys'', keys_value ''provider-dev-1'' key)], [])"
proof -
  have "list_all plain_char ''provider-dev-1''" by code_simp
  from member_read [OF field_names(2) value_one json_marks(3)] active_read [OF this assms]
  have "members_at (quote ''expected_epoch'' @ '':1,'' @ quote ''active_key_id'' @ '':'' @ quote ''provider-dev-1'' @ '','' @ keys_json ''provider-dev-1'' key @ ''}'') =
    Some ([(''expected_epoch'', JNumber ''1''), (''active_key_id'', JString ''provider-dev-1''), (''keys'', keys_value ''provider-dev-1'' key)], [])" by simp
  with object_read [of "''version''"] member_read [OF field_names(1) value_one json_marks(3)] show ?thesis by (simp add: provider_json_def)
qed

section \<open>The readers on these files\<close>

lemma plain_texts: "keyIDPattern keyID \<Longrightarrow> list_all plain_char keyID" "list_all plain_char (EncodeToString bytes)"
proof -
  have id_char: "is_alnum c \<or> c \<in> {CHR ''.'', CHR ''_'', CHR ''-''} \<longrightarrow> plain_char c" for c by (rule all_chars) code_simp
  show "keyIDPattern keyID \<Longrightarrow> list_all plain_char keyID"
    using id_char unfolding keyIDPattern_def list_all_iff by (auto split: list.splits)
  have "list_all plain_char (CHR ''='' # std_alphabet)" by code_simp
  moreover have "set (EncodeToString bytes) \<subseteq> insert (CHR ''='') (set std_alphabet)" using encode_split [of bytes] by auto
  ultimately show "list_all plain_char (EncodeToString bytes)" unfolding list_all_iff list.set by blast
qed

lemma json_text:
  assumes "list_all plain_char keyID" "list_all plain_char key"
  shows "list_all printable (ring_json keyID key)" "length (ring_json keyID key) = 64 + 2 * length keyID + length key"
    "list_all printable (provider_json key)" "length (provider_json key) = 111 + length key"
proof -
  have plain: "list_all printable s" if "list_all plain_char s" for s using that by (simp add: plain_char_def list_all_iff)
  have q: "list_all printable (quote s)" if "list_all plain_char s" for s
    using plain [OF that] by (simp add: quote_def printable_def between_def)
  have fixed: "list_all printable ''{''" "list_all printable '':1,''" "list_all printable '':''" "list_all printable '',''" "list_all printable '':[{''"
    "list_all printable ''}]''" "list_all printable ''}''" "list_all plain_char ''provider-dev-1''" by code_simp+
  show "list_all printable (ring_json keyID key)" "list_all printable (provider_json key)"
    unfolding ring_json_def provider_json_def keys_json_def list_all_append
    by (intro conjI fixed(1-7) q assms fixed(8) field_names)+
  show "length (ring_json keyID key) = 64 + 2 * length keyID + length key" "length (provider_json key) = 111 + length key"
    by (simp_all add: ring_json_def provider_json_def keys_json_def quote_def)
qed

lemma entry_decoded: "decode_slice (decode_entry h) (keys_value keyID key) old = Some [\<lparr>KeyID = keyID, Key = key\<rparr>]"
  by (simp add: decode_slice_def keys_value_def decode_entry_def decode_struct_def struct_field_def store_entry_def decode_text_def zero_entry_def)

lemma one_decoded: "decode_int (JNumber ''1'') old = Some 1"
proof -
  have "ParseInt64 ''1'' = Some 1" by code_simp
  then show ?thesis by (simp add: decode_int_def)
qed

lemma rings_decoded:
  "decode_ring h (JObject [(''version'', JNumber ''1''), (''active_key_id'', JString keyID), (''keys'', keys_value keyID key)]) =
     Some \<lparr>w_Version = 1, w_ExpectedEpoch = 0, w_ActiveKeyID = keyID, w_Keys = [\<lparr>KeyID = keyID, Key = key\<rparr>]\<rparr>"
  "decode_provider h (JObject [(''version'', JNumber ''1''), (''expected_epoch'', JNumber ''1''), (''active_key_id'', JString keyID), (''keys'', keys_value keyID key)]) =
     Some \<lparr>w_Version = 1, w_ExpectedEpoch = 1, w_ActiveKeyID = keyID, w_Keys = [\<lparr>KeyID = keyID, Key = key\<rparr>]\<rparr>"
  by (simp_all add: decode_ring_def decode_provider_def decode_struct_def struct_field_def store_wire_def one_decoded entry_decoded decode_text_def zero_wire_def)

lemma scalars_conform: "conforms schema (JString t)" "conforms schema (JNumber ''1'')"
proof -
  have "float64_finite ''1''" by code_simp
  then show "conforms schema (JString t)" "conforms schema (JNumber ''1'')" by (simp_all add: conforms_scalar)
qed

lemma keys_conform: "conforms entry_schema (keys_value keyID key)"
  unfolding entry_schema_def keys_value_def by (rule conforms_array) (auto intro!: conforms_object scalars_conform)

lemma rings_conform:
  "conforms ring_schema (JObject [(''version'', JNumber ''1''), (''active_key_id'', JString keyID), (''keys'', keys_value keyID key)])"
  "conforms provider_schema (JObject [(''version'', JNumber ''1''), (''expected_epoch'', JNumber ''1''), (''active_key_id'', JString keyID), (''keys'', keys_value keyID key)])"
  unfolding ring_schema_def provider_schema_def by (rule conforms_object; simp add: scalars_conform keys_conform)+

lemma one_key_ring: "keyIDPattern keyID \<Longrightarrow> length k = 32 \<Longrightarrow> is_ok (validateRing setting 1 keyID [\<lparr>KeyID = keyID, Key = EncodeToString k\<rparr>])"
  using canonical_key_iff [of "EncodeToString k" k] by (simp add: validateRing_def)

lemma written_ring:
  assumes "fs_at s path = Some (FileNode perm_0600 (ring_json keyID (EncodeToString k)))" "path \<noteq> []" "keyIDPattern keyID" "length k = 32" "setting \<noteq> []"
  shows "is_ok (ReadKeyRing (fs_host h s) setting path)"
proof -
  let ?c = "ring_json keyID (EncodeToString k)"
  note plain = plain_texts(1) [OF assms(3)] plain_texts(2) [of k]
  have "length keyID \<le> 64" using assms(3) by (auto simp: keyIDPattern_def split: list.splits)
  then have "int (length ?c) \<le> keyRingMaximumBytes"
    using json_text(2) [OF plain] length_EncodeToString [of k] assms(4) by (simp add: keyRingMaximumBytes_def)
  moreover have ne: "?c \<noteq> []" by (simp add: ring_json_def)
  ultimately have bytes: "readSecretBytes (fs_host h s) setting path keyRingMaximumBytes = Inr ?c"
    using written_bytes [OF assms(1,2) json_text(1) [OF plain]] assms(5) by (simp add: keyRingMaximumBytes_def)
  have "Decode ?c = Got (JObject [(''version'', JNumber ''1''), (''active_key_id'', JString keyID), (''keys'', keys_value keyID (EncodeToString k))], [])"
    using ring_json_read [OF plain] value_atD [OF ring_json_read [OF plain]] by (auto simp: Decode_value_at)
  from strictJSON_accepts [where destination = "decode_ring (fs_host h s)", OF this _ rings_conform(1) rings_decoded(1)] one_key_ring [OF assms(3,4), of setting]
  show ?thesis unfolding ReadKeyRing_def bytes by (simp add: skip_space_def)
qed

lemma written_provider:
  assumes "fs_at s path = Some (FileNode perm_0600 (provider_json (EncodeToString k)))" "path \<noteq> []" "length k = 32"
  shows "is_ok (ReadProviderKeyRing (fs_host h s) path)"
proof -
  let ?c = "provider_json (EncodeToString k)"
  note plain = plain_texts(2) [of k]
  have "int (length ?c) \<le> keyRingMaximumBytes"
    using json_text(4) [OF plain plain] length_EncodeToString [of k] assms(3) by (simp add: keyRingMaximumBytes_def)
  moreover have ne: "?c \<noteq> []" by (simp add: provider_json_def)
  ultimately have bytes: "readSecretBytes (fs_host h s) ''MASTER_KEYRING_FILE'' path keyRingMaximumBytes = Inr ?c"
    using written_bytes [OF assms(1,2) json_text(3) [OF plain plain]] by (simp add: keyRingMaximumBytes_def)
  have "Decode ?c = Got (JObject [(''version'', JNumber ''1''), (''expected_epoch'', JNumber ''1''), (''active_key_id'', JString ''provider-dev-1''),
      (''keys'', keys_value ''provider-dev-1'' (EncodeToString k))], [])"
    using provider_json_read [OF plain] value_atD [OF provider_json_read [OF plain]] by (auto simp: Decode_value_at)
  note document = strictJSON_accepts [where destination = "decode_provider (fs_host h s)", OF this _ rings_conform(2) rings_decoded(2)]
  have "keyIDPattern ''provider-dev-1''" by code_simp
  from one_key_ring [OF this assms(3), of "''MASTER_KEYRING_FILE''"]
  show ?thesis unfolding ReadProviderKeyRing_def Let_def bytes using document by (auto simp: skip_space_def is_ok_iff)
qed

lemma written_key:
  assumes "fs_at s path = Some (FileNode perm_0600 (EncodeToString k))" "path \<noteq> []" "length k = 32" "setting \<noteq> []"
  shows "is_ok (ReadBase64Key (fs_host h s) setting path (4 * 1024))"
proof -
  have "length (EncodeToString k) \<le> 4096" "EncodeToString k \<noteq> []" using length_EncodeToString [of k] assms(3) by auto
  from written_simple [OF assms(1,2) encodings_printable(2) this(2,1) assms(4), of h] show ?thesis
    using assms(3) by (auto simp: is_ok_iff ReadBase64Key_ok)
qed

lemma written_redis_url:
  assumes "fs_at s path = Some (FileNode perm_0600 (redis_dev_url password))" "path \<noteq> []" "length password \<le> 1024"
  shows "\<exists>raw. ReadURISecret (fs_host h s) ''REDIS_URL_FILE'' path (4 * 1024) [''redis''] = Inr (Secret (redis_dev_url password), empty_URL\<lparr>Scheme := ''redis'',
     User := Some \<lparr>ui_username = [], ui_password = Some password\<rparr>, Host := ''redis:6379'', Path := ''/0'', RawPath := raw, RawQuery := []\<rparr>)"
proof -
  have "length (redis_dev_url password) \<le> 4096" using redis_dev_url_text(2) [of password] assms(3) by linarith
  moreover have "redis_dev_url password \<noteq> []" by (simp add: redis_dev_url_parts)
  ultimately have "ReadSimpleSecret (fs_host h s) ''REDIS_URL_FILE'' path (4 * 1024) = Inr (Secret (redis_dev_url password))"
    using written_simple [OF assms(1,2) redis_dev_url_text(1)] by simp
  then show ?thesis using redis_dev_url_parses [of password] by (auto simp: ReadURISecret_ok IsAbs_def empty_URL_def)
qed

end
