(* ===== verification/Relocation.thy ===== *)
theory Relocation
  imports Config_Views Config_Facts Commands
begin

text \<open>
  What happens to a deployment when its secrets are exchanged: the deployment check is run on a
  machine whose secret files lie in a source directory, and the services later run with other
  files.  An environment depends on its secret files only through their being readable, distinct
  and matching; everything else is settled by the plain settings.
\<close>

section \<open>Plain settings and secret settings\<close>

definition secret_settings :: "string list" where
  "secret_settings = map fst deploymentSecretFiles"

text \<open>Two environments that differ in secret settings at most.\<close>

definition same_plain :: "env \<Rightarrow> env \<Rightarrow> bool" where
  "same_plain v w \<longleftrightarrow> (\<forall>x. x \<notin> set secret_settings \<longrightarrow> map_of v x = map_of w x)"

lemma same_plain_view: "same_plain v w \<Longrightarrow> same_plain (ValuesForProcess v p) (ValuesForProcess w p)"
  by (simp add: same_plain_def view_lookup)

lemma plain_agree: "same_plain v w \<Longrightarrow> list_all (\<lambda>x. x \<notin> set secret_settings) names \<Longrightarrow> agree names v w"
  by (simp add: same_plain_def agree_def list_all_iff)

text \<open>The footprints without secrets.\<close>

definition plain_database_names :: "databaseProcessSettings \<Rightarrow> string list" where
  "plain_database_names s = butlast (database_names s)"

definition plain_session_names :: "string list" where
  "plain_session_names = [''SESSION_IDLE_TTL'', ''SESSION_ABSOLUTE_TTL'', ''SESSION_LAST_SEEN_WRITE_INTERVAL'',
     ''SESSION_COOKIE_NAME''] @ Config_Views.password_names"

definition ingress_names :: "string list" where
  "ingress_names = [''PUBLIC_API_HOST'', ''ADMIN_HOST'', ''ADMIN_EXPOSURE_MODE'', ''HTTPS_PORT'', ''TLS_MODE'', ''TLS_CERT_FILE'',
     ''TLS_KEY_FILE'', ''ACME_EMAIL'', ''ACME_DNS_PROVIDER'', ''ACME_DNS_API_TOKEN_FILE'', ''ENABLE_CLOUDFLARE_TUNNEL'',
     ''CLOUDFLARE_TUNNEL_ID'', ''CLOUDFLARE_TUNNEL_CREDENTIALS_FILE'', ''ENABLE_TAILSCALE_PRIVATE_ADMIN'']"

definition plain_names :: "string list" where
  "plain_names = common_names @ public_names @ admin_names @ readiness_names @ plain_session_names @ agent_names @
     gateway_policy_names @ worker_policy_names @ ingress_names @ map fst fixed_users @
     [''POSTGRES_DB'', ''REDIS_MAX_CONNECTIONS_GATEWAY'', ''REDIS_MAX_CONNECTIONS_CONTROL_PLANE'', ''REDIS_MAX_CONNECTIONS_WORKER''] @
     plain_database_names gatewayDatabaseSettings @ plain_database_names controlPlaneDatabaseSettings @
     plain_database_names workerDatabaseSettings"

lemma plain_names_plain: "list_all (\<lambda>x. x \<notin> set secret_settings) plain_names"
  by code_simp

lemma plain_parts:
  assumes "same_plain v w"
  shows "agree common_names v w" "agree public_names v w" "agree admin_names v w" "agree readiness_names v w"
    "agree plain_session_names v w" "agree agent_names v w" "agree gateway_policy_names v w" "agree worker_policy_names v w"
    "agree ingress_names v w" "agree (map fst fixed_users) v w"
    "agree [''POSTGRES_DB'', ''REDIS_MAX_CONNECTIONS_GATEWAY'', ''REDIS_MAX_CONNECTIONS_CONTROL_PLANE'', ''REDIS_MAX_CONNECTIONS_WORKER''] v w"
    "agree (plain_database_names gatewayDatabaseSettings) v w" "agree (plain_database_names controlPlaneDatabaseSettings) v w"
    "agree (plain_database_names workerDatabaseSettings) v w"
  using plain_agree [OF assms plain_names_plain] by (simp_all only: plain_names_def agree_append)

section \<open>Secrets that can be used\<close>

text \<open>\<open>at\<close> gives the file of a secret setting.\<close>

definition usable_secrets :: "host \<Rightarrow> (string \<Rightarrow> string) \<Rightarrow> bool" where
  "usable_secrets h at \<longleftrightarrow>
     (\<forall>x\<in>set database_settings. is_ok (ReadSimpleSecret h x (at x) (4 * 1024))) \<and>
     inj_on (\<lambda>x. secret_text h (x, at x)) (set database_settings) \<and>
     (\<exists>password secret u user. ReadSimpleSecret h ''REDIS_PASSWORD_FILE'' (at ''REDIS_PASSWORD_FILE'') (4 * 1024) = Inr password \<and>
        redis_password_pattern (Reveal password) \<and>
        ReadURISecret h ''REDIS_URL_FILE'' (at ''REDIS_URL_FILE'') (4 * 1024) [''redis'', ''rediss''] = Inr (secret, u) \<and>
        User u = Some user \<and> ui_username user \<in> {[], ''default''} \<and> ui_password user = Some (Reveal password)) \<and>
     is_ok (ReadProviderKeyRing h (at ''MASTER_KEYRING_FILE'')) \<and>
     is_ok (ReadKeyRing h ''API_KEY_PEPPER_RING_FILE'' (at ''API_KEY_PEPPER_RING_FILE'')) \<and>
     is_ok (ReadBase64Key h ''SESSION_SECRET_FILE'' (at ''SESSION_SECRET_FILE'') (4 * 1024)) \<and>
     is_ok (ReadKeyRing h ''CSRF_SECRET_RING_FILE'' (at ''CSRF_SECRET_RING_FILE''))"

text \<open>The environment names the files.\<close>

definition placed :: "env \<Rightarrow> (string \<Rightarrow> string) \<Rightarrow> string list \<Rightarrow> bool" where
  "placed v at names \<longleftrightarrow> list_all (\<lambda>x. map_of v x = Some (at x)) names"

lemma placed_Cons [simp]: "placed v at (x # xs) \<longleftrightarrow> map_of v x = Some (at x) \<and> placed v at xs" "placed v at []"
  by (simp_all add: placed_def)

lemma placed_value: "map_of v x = Some (at x) \<Longrightarrow> value_of v x d = at x" "map_of v x = Some (at x) \<Longrightarrow> requiredPath v x d = at x"
  by (simp_all add: value_of_def requiredPath_def)

section \<open>The parsers that read secrets\<close>

lemma parseDatabase_moved:
  assumes "agree (plain_database_names s) v w" "is_ok (parseDatabase g w s)"
    "map_of v (passwordSetting s) = Some (at (passwordSetting s))" "is_ok (ReadSimpleSecret h (passwordSetting s) (at (passwordSetting s)) (4 * 1024))"
  shows "is_ok (parseDatabase h v s)"
  using assms parseDatabaseSSLMode_local [of v w]
  by (auto simp: parseDatabase_def plain_database_names_def database_names_def reader_local [of v _ w] placed_value Let_def result_simps is_ok_iff)

lemma parseRedis_moved:
  assumes "map_of v name = map_of w name" "is_ok (parseRedis g w name n)" "map_of v ''REDIS_URL_FILE'' = Some (at ''REDIS_URL_FILE'')"
    "usable_secrets h at"
  shows "is_ok (parseRedis h v name n)"
proof -
  from assms(4) obtain secret u where uri: "ReadURISecret h ''REDIS_URL_FILE'' (at ''REDIS_URL_FILE'') (4 * 1024) [''redis'', ''rediss''] = Inr (secret, u)"
    unfolding usable_secrets_def by blast
  then have "Host u \<noteq> []" by (simp add: ReadURISecret_ok)
  moreover have "\<exists>m. integer v name n 1 10000 = Inr m"
    using assms(1,2) by (auto simp: parseRedis_def reader_local [of v _ w] result_simps is_ok_iff)
  ultimately show ?thesis
    using assms(3) uri by (auto simp: parseRedis_def placed_value result_simps)
qed

lemma parseSessionPolicy_moved:
  assumes "agree plain_session_names v w" "parseSessionPolicy g w = Inr s" "usable_secrets h at"
    "placed v at [''SESSION_SECRET_FILE'', ''CSRF_SECRET_RING_FILE'']"
  shows "\<exists>s'. parseSessionPolicy h v = Inr s' \<and> sp_CookieName s' = sp_CookieName s"
proof -
  obtain key ring where "ReadBase64Key h ''SESSION_SECRET_FILE'' (at ''SESSION_SECRET_FILE'') (4 * 1024) = Inr key"
    "ReadKeyRing h ''CSRF_SECRET_RING_FILE'' (at ''CSRF_SECRET_RING_FILE'') = Inr ring"
    using assms(3) unfolding usable_secrets_def is_ok_iff by blast
  with assms(1,2,4) parsePasswordPolicy_local [of v w] show ?thesis
    by (auto simp: parseSessionPolicy_def plain_session_names_def reader_local [of v _ w] placed_value Let_def result_simps)
qed

lemma parseRedisDeployment_moved:
  assumes "usable_secrets h at" "placed v at [''REDIS_PASSWORD_FILE'', ''REDIS_URL_FILE'']"
  shows "is_ok (parseRedisDeployment h v)"
proof -
  from assms(1) obtain password secret u user where
    "ReadSimpleSecret h ''REDIS_PASSWORD_FILE'' (at ''REDIS_PASSWORD_FILE'') (4 * 1024) = Inr password" "redis_password_pattern (Reveal password)"
    "ReadURISecret h ''REDIS_URL_FILE'' (at ''REDIS_URL_FILE'') (4 * 1024) [''redis'', ''rediss''] = Inr (secret, u)"
    "User u = Some user" "ui_username user \<in> {[], ''default''}" "ui_password user = Some (Reveal password)"
    unfolding usable_secrets_def by blast
  then show ?thesis using assms(2) by (auto simp: parseRedisDeployment_def placed_value result_simps)
qed

lemma password_files_placed:
  assumes "placed v at database_settings"
  shows "password_files v = map (\<lambda>x. (x, at x)) database_settings"
  using assms by (simp add: password_files_def database_settings_def placed_value)

lemma parseDatabaseInventory_moved:
  assumes "range_order_ok g" "range_order_ok h" "same_plain v w" "is_ok (parseDatabaseInventory g w e)"
    "usable_secrets h at" "placed v at database_settings" "\<forall>x\<in>set database_settings. at x \<noteq> []"
    "inj_on (\<lambda>x. filepath_Clean (at x)) (set database_settings)"
  shows "is_ok (parseDatabaseInventory h v e)"
proof -
  note parts = plain_parts [OF assms(3)]
  have names: "map_of v ''POSTGRES_DB'' = map_of w ''POSTGRES_DB''" "map_of v ''DATABASE_NAME'' = map_of w ''DATABASE_NAME''"
    "map_of v ''DATABASE_SSLMODE'' = map_of w ''DATABASE_SSLMODE''"
    using parts(11,12) by (simp_all add: plain_database_names_def database_names_def)
  have users: "value_of v n x = value_of w n x" if "(n, x) \<in> set fixed_users" for n x
    using parts(10) that by (force simp: agree_def intro: value_of_local)
  have "distinct database_settings" by code_simp
  then have "is_ok (check_passwords h [] [] (password_files v))"
    using assms(5,7,8) unfolding password_files_placed [OF assms(6)] check_passwords_ok usable_secrets_def
    by (simp add: distinct_map inj_on_def)
  moreover obtain d where "parseDatabaseInventory g w e = Inr d" using assms(4) by (auto simp: is_ok_iff)
  note d = this [unfolded parseDatabaseInventory_ok [OF assms(1)]]
  ultimately show ?thesis
    using users names parseDatabaseSSLMode_local [OF names(3)] unfolding is_ok_iff parseDatabaseInventory_ok [OF assms(2)]
    by (fastforce simp: value_of_local [of v _ w])
qed

section \<open>The processes\<close>

lemma ParseGateway_moved:
  assumes same: "same_plain v w" and ok: "is_ok (ParseGateway g w)" and usable: "usable_secrets h at"
    and pre: "preflight v ProcessGateway = Inr ()"
    and at: "placed v at [''DATABASE_GATEWAY_PASSWORD_FILE'', ''REDIS_URL_FILE'', ''MASTER_KEYRING_FILE'', ''API_KEY_PEPPER_RING_FILE'']"
  shows "is_ok (ParseGateway h v)"
proof -
  note parts = plain_parts [OF same]
  have "is_ok (parseDatabase g w gatewayDatabaseSettings)" "is_ok (parseRedis g w ''REDIS_MAX_CONNECTIONS_GATEWAY'' 50)"
    using ok by (auto simp: ParseGateway_def result_simps is_ok_iff)
  then have "is_ok (parseDatabase h v gatewayDatabaseSettings)" "is_ok (parseRedis h v ''REDIS_MAX_CONNECTIONS_GATEWAY'' 50)"
    using parseDatabase_moved [OF parts(12), where h = h and at = at] parseRedis_moved [of v _ w, OF _ _ _ usable] parts(11) at usable
    by (simp_all add: usable_secrets_def database_settings_def gatewayDatabaseSettings_def)
  then show ?thesis
    using ok at usable parseServiceCommon_local [OF parts(1)] parseGatewayEndpoints_local [OF parts(2)]
      parseDependencyReadiness_local [OF parts(4)] parseGatewayPolicy_local [OF parts(7)]
    by (auto simp: ParseGateway_def pre placed_value usable_secrets_def result_simps is_ok_iff)
qed

lemma ParseWorker_moved:
  assumes same: "same_plain v w" and ok: "is_ok (ParseWorker g w)" and usable: "usable_secrets h at"
    and pre: "preflight v ProcessWorker = Inr ()"
    and at: "placed v at [''DATABASE_WORKER_PASSWORD_FILE'', ''REDIS_URL_FILE'', ''MASTER_KEYRING_FILE'']"
  shows "is_ok (ParseWorker h v)"
proof -
  note parts = plain_parts [OF same]
  have "is_ok (parseDatabase g w workerDatabaseSettings)" "is_ok (parseRedis g w ''REDIS_MAX_CONNECTIONS_WORKER'' 20)"
    using ok by (auto simp: ParseWorker_def result_simps is_ok_iff)
  then have "is_ok (parseDatabase h v workerDatabaseSettings)" "is_ok (parseRedis h v ''REDIS_MAX_CONNECTIONS_WORKER'' 20)"
    using parseDatabase_moved [OF parts(14), where h = h and at = at] parseRedis_moved [of v _ w, OF _ _ _ usable] parts(11) at usable
    by (simp_all add: usable_secrets_def database_settings_def workerDatabaseSettings_def)
  then show ?thesis
    using ok at usable parseServiceCommon_local [OF parts(1)] parseDependencyReadiness_local [OF parts(4)] parseWorkerPolicy_local [OF parts(8)]
    by (auto simp: ParseWorker_def pre placed_value usable_secrets_def result_simps is_ok_iff)
qed

lemma ParseControlPlane_moved:
  assumes same: "same_plain v w" and ok: "is_ok (ParseControlPlane g w)" and usable: "usable_secrets h at"
    and pre: "preflight v ProcessControlPlane = Inr ()"
    and at: "placed v at [''DATABASE_CONTROL_PLANE_PASSWORD_FILE'', ''REDIS_URL_FILE'', ''MASTER_KEYRING_FILE'', ''API_KEY_PEPPER_RING_FILE'',
      ''SESSION_SECRET_FILE'', ''CSRF_SECRET_RING_FILE'']"
  shows "is_ok (ParseControlPlane h v)"
proof -
  note parts = plain_parts [OF same]
  have "is_ok (parseDatabase g w controlPlaneDatabaseSettings)" "is_ok (parseRedis g w ''REDIS_MAX_CONNECTIONS_CONTROL_PLANE'' 20)"
    using ok by (auto simp: ParseControlPlane_def result_simps is_ok_iff)
  then have "is_ok (parseDatabase h v controlPlaneDatabaseSettings)" "is_ok (parseRedis h v ''REDIS_MAX_CONNECTIONS_CONTROL_PLANE'' 20)"
    using parseDatabase_moved [OF parts(13), where h = h and at = at] parseRedis_moved [of v _ w, OF _ _ _ usable] parts(11) at usable
    by (simp_all add: usable_secrets_def database_settings_def controlPlaneDatabaseSettings_def)
  moreover obtain s where "parseSessionPolicy g w = Inr s" using ok by (auto simp: ParseControlPlane_def result_simps is_ok_iff)
  moreover from parseSessionPolicy_moved [OF parts(5) this usable] at obtain s' where
    "parseSessionPolicy h v = Inr s'" "sp_CookieName s' = sp_CookieName s" by auto
  ultimately show ?thesis
    using ok at usable parseServiceCommon_local [OF parts(1)] parseControlPlaneEndpoints_local [OF parts(2,3)]
      parseDependencyReadiness_local [OF parts(4)] parseAgent_local [OF parts(6)]
    by (auto simp: ParseControlPlane_def pre placed_value usable_secrets_def result_simps is_ok_iff)
qed

lemma parseEndpoints_host: "SimpleFold_orbit g = SimpleFold_orbit h \<Longrightarrow> parseEndpoints g = parseEndpoints h"
  by (intro ext) (simp only: parseEndpoints_def)

text \<open>No certificates and no tunnel: the optional secrets are not read.\<close>

definition core_settings :: "env \<Rightarrow> bool" where
  "core_settings v \<longleftrightarrow> value_of v ''TLS_MODE'' ''disabled'' = ''disabled'' \<and> boolean v ''ENABLE_CLOUDFLARE_TUNNEL'' False = Inr False"

lemma ParseDeployment_moved:
  assumes same: "same_plain v w" and ok: "is_ok (ParseDeployment g w)" and usable: "usable_secrets h at"
    and pre: "preflight v ProcessDeployment = Inr ()" and core: "core_settings w"
    and hosts: "range_order_ok g" "range_order_ok h" "SimpleFold_orbit g = SimpleFold_orbit h"
    and at: "placed v at (database_settings @ [''REDIS_PASSWORD_FILE'', ''REDIS_URL_FILE''])"
    and files: "\<forall>x\<in>set database_settings. at x \<noteq> []" "inj_on (\<lambda>x. filepath_Clean (at x)) (set database_settings)"
  shows "is_ok (ParseDeployment h v)"
proof -
  note parts = plain_parts [OF same]
  have listener: "agree listener_names v w" using parts(1) by (simp add: common_names_def)
  have hosts_names: "agree [''PUBLIC_API_HOST'', ''ADMIN_HOST'', ''ADMIN_EXPOSURE_MODE''] v w"
    using parts(9) by (simp add: ingress_names_def)
  have plain: "value_of v ''NEXUSRELAY_ENV'' d = value_of w ''NEXUSRELAY_ENV'' d"
    "value_of v ''NEXUSRELAY_VERSION'' d = value_of w ''NEXUSRELAY_VERSION'' d" "value_of v ''TLS_MODE'' d = value_of w ''TLS_MODE'' d"
    "integer v ''HTTPS_PORT'' n lo hi = integer w ''HTTPS_PORT'' n lo hi"
    "boolean v ''ENABLE_CLOUDFLARE_TUNNEL'' b = boolean w ''ENABLE_CLOUDFLARE_TUNNEL'' b" "parseTailscale v = parseTailscale w" for d n lo hi b
    using parts(1,9) parseTailscale_local [of v w] by (simp_all add: common_names_def ingress_names_def reader_local [of v _ w])
  let ?e = "value_of w ''NEXUSRELAY_ENV'' ''development''"
  from ok obtain ep http port tls tail where checked: "validateEnvironment ?e = Inr ()"
    "cleanNonempty ''NEXUSRELAY_VERSION'' (value_of w ''NEXUSRELAY_VERSION'' ''dev'') = Inr ()" "parseEndpoints g w ?e = Inr ep"
    "parseHTTP w = Inr http" "integer w ''HTTPS_PORT'' 8443 1 65535 = Inr port" "parseTLS g w ?e ep = Inr tls"
    and database: "is_ok (parseDatabaseInventory g w ?e)" and tail: "parseTailscale w = Inr tail"
    by (auto simp: ParseDeployment_def Let_def result_simps is_ok_iff)
  have mode: "value_of w ''TLS_MODE'' ''disabled'' = ''disabled''" using core by (simp add: core_settings_def)
  obtain tls' where tls': "parseTLS h v ?e ep = Inr tls'"
    using checked(6) by (auto simp: parseTLS_def tls_files_def tls_acme_def plain mode Let_def result_simps)
  obtain db where db: "parseDatabaseInventory h v ?e = Inr db"
    using parseDatabaseInventory_moved [OF hosts(1,2) same database usable _ files] at by (auto simp: placed_def is_ok_iff)
  obtain redis where redis: "parseRedisDeployment h v = Inr redis"
    using parseRedisDeployment_moved [OF usable] at by (auto simp: placed_def is_ok_iff)
  obtain cloud where cloud: "parseCloudflare h v ep tls' = Inr cloud"
    using core by (fastforce simp: parseCloudflare_def plain core_settings_def Let_def)
  have here: "parseEndpoints h v ?e = Inr ep" "parseHTTP v = Inr http"
    using checked(3,4) parseEndpoints_host [OF hosts(3)] parseEndpoints_local [OF parts(2,3) hosts_names] parseHTTP_local [OF listener] by simp_all
  show ?thesis
    unfolding ParseDeployment_def pre Let_def bindE.simps SharedDeployment.simps plain checked(1,2,5) here tls' db redis cloud tail by simp
qed

section \<open>A checked source directory\<close>

text \<open>The user name of the Redis URI is the one thing the inventory check leaves open.\<close>

definition default_redis_user :: "host \<Rightarrow> string \<Rightarrow> bool" where
  "default_redis_user h path \<longleftrightarrow>
     (case ReadURISecret h ''REDIS_URL_FILE'' path (4 * 1024) [''redis''] of
        Inl e \<Rightarrow> False
      | Inr (secret, u) \<Rightarrow> (case User u of None \<Rightarrow> False | Some user \<Rightarrow> ui_username user = [] \<or> ui_username user = ''default''))"

lemma Trim_empty: "Trim s cutset = [] \<longleftrightarrow> list_all (\<lambda>c. c \<in> set cutset) s"
proof
  assume "Trim s cutset = []"
  then have "\<forall>c\<in>set (dropWhile (\<lambda>c. c \<in> set cutset) s). c \<in> set cutset"
    by (simp only: Trim_def rev_is_Nil_conv dropWhile_eq_Nil_conv set_rev)
  then have "dropWhile (\<lambda>c. c \<in> set cutset) s = []"
    by (metis hd_dropWhile hd_in_set)
  then show "list_all (\<lambda>c. c \<in> set cutset) s" by (simp add: dropWhile_eq_Nil_conv list_all_iff)
next
  assume "list_all (\<lambda>c. c \<in> set cutset) s"
  then have "dropWhile (\<lambda>c. c \<in> set cutset) s = []" by (simp only: dropWhile_eq_Nil_conv list_all_iff)
  then show "Trim s cutset = []" by (simp only: Trim_def rev.simps dropWhile.simps)
qed

lemma checked_redis_password:
  assumes "\<not> length s < 32" "Trim s base64url_cutset = []"
  shows "redis_password_pattern s"
proof -
  have "list_all (\<lambda>c. is_alnum c \<or> c = CHR ''_'' \<or> c = CHR ''-'') base64url_cutset" by code_simp
  then show ?thesis using assms by (auto simp: redis_password_pattern_def Trim_empty list_all_iff)
qed

lemma checked_usable:
  assumes "check_files h at = Inr ()" "range_order_ok h" "default_redis_user h (at ''redis_url'')"
  shows "usable_secrets h (\<lambda>x. at (secret_file x))"
proof -
  obtain pw where pw: "\<forall>x\<in>set database_settings. ReadSimpleSecret h x (at (secret_file x)) (4 * 1024) = Inr (pw x)"
    "inj_on (\<lambda>x. Reveal (pw x)) (set database_settings)" using checked_passwords [OF assms(1,2)] by blast
  have settings: "secret_file ''REDIS_PASSWORD_FILE'' = ''redis_password''" "secret_file ''REDIS_URL_FILE'' = ''redis_url''"
    "secret_file ''MASTER_KEYRING_FILE'' = ''provider_master_keyring''" "secret_file ''API_KEY_PEPPER_RING_FILE'' = ''api_key_pepper_ring''"
    "secret_file ''SESSION_SECRET_FILE'' = ''session_secret''" "secret_file ''CSRF_SECRET_RING_FILE'' = ''csrf_secret_ring''" by code_simp+
  obtain password secret u where redis: "ReadSimpleSecret h ''REDIS_PASSWORD_FILE'' (at ''redis_password'') (4 * 1024) = Inr password"
    "\<not> length (Reveal password) < 32" "Trim (Reveal password) base64url_cutset = []"
    "ReadURISecret h ''REDIS_URL_FILE'' (at ''redis_url'') (4 * 1024) [''redis''] = Inr (secret, u)"
    "\<exists>user. User u = Some user \<and> ui_password user = Some (Reveal password)"
    using assms(1) by (auto simp: check_files_def result_simps split: option.splits)
  then have "ReadURISecret h ''REDIS_URL_FILE'' (at ''redis_url'') (4 * 1024) [''redis'', ''rediss''] = Inr (secret, u)"
    by (auto simp: ReadURISecret_ok)
  moreover have "\<exists>user. User u = Some user \<and> ui_username user \<in> {[], ''default''} \<and> ui_password user = Some (Reveal password)"
    using redis(4,5) assms(3) by (auto simp: default_redis_user_def)
  moreover have "is_ok (ReadProviderKeyRing h (at ''provider_master_keyring''))" "is_ok (ReadKeyRing h ''API_KEY_PEPPER_RING_FILE'' (at ''api_key_pepper_ring''))"
    "is_ok (ReadBase64Key h ''SESSION_SECRET_FILE'' (at ''session_secret'') (4 * 1024))" "is_ok (ReadKeyRing h ''CSRF_SECRET_RING_FILE'' (at ''csrf_secret_ring''))"
    using assms(1) by (auto simp: check_files_def result_simps is_ok_iff)
  moreover have "inj_on (\<lambda>x. secret_text h (x, at (secret_file x))) (set database_settings)"
    using pw by (auto simp: inj_on_def secret_text_def)
  ultimately show ?thesis
    using pw(1) redis(1) checked_redis_password [OF redis(2,3)] unfolding usable_secrets_def settings is_ok_iff by blast
qed

lemma resolved_settings:
  assumes "ResolveDeploymentSecretRoot h os_ReadDir given root = Inr resolved" "range_order_ok h"
  shows "same_plain resolved given" "placed resolved (\<lambda>x. filepath_Join root (secret_file x)) secret_settings"
    "check_files h (filepath_Join root) = Inr ()"
proof -
  have valid: "ValidateDevSecrets h os_ReadDir root = Inr ()"
    and res: "resolve_secrets root (range_order h (map fst deploymentSecretFiles)) given = Inr resolved"
    using assms(1) by (auto simp: ResolveDeploymentSecretRoot_def result_simps)
  note effect = resolve_effect [OF res setting_order(1) [OF assms(2)]]
  show "same_plain resolved given"
    using effect by (simp add: same_plain_def secret_settings_def setting_order(2) [OF assms(2)])
  show "placed resolved (\<lambda>x. filepath_Join root (secret_file x)) secret_settings"
    using effect by (simp add: placed_def secret_settings_def setting_order(2) [OF assms(2)] list_all_iff)
  show "check_files h (filepath_Join root) = Inr ()"
    using valid by (auto simp: ValidateDevSecrets_def result_simps split: option.splits)
qed

lemma placed_view:
  assumes "placed v at secret_settings" "list_all (\<lambda>x. x \<in> set secret_settings \<and> consumed_by p x) names"
  shows "placed (ValuesForProcess v p) at names"
  using assms by (auto simp: placed_def list_all_iff view_lookup)

lemma database_files_apart:
  assumes "proper_dir root"
  shows "inj_on (\<lambda>x. filepath_Clean (filepath_Join root (secret_file x))) (set database_settings)"
proof -
  have "list_all (\<lambda>x. simple_name (secret_file x)) database_settings" by code_simp
  then have names: "simple_name (secret_file x)" if "x \<in> set database_settings" for x
    using that by (simp add: list_all_iff)
  have "distinct (map secret_file database_settings)" by code_simp
  then have "inj_on secret_file (set database_settings)" by (simp add: distinct_map)
  then show ?thesis using Join_inject [OF assms assms names names] by (auto simp: inj_on_def)
qed

lemma moved_complete:
  assumes ok: "ValidateComplete g given = Inr ()" and res: "ResolveDeploymentSecretRoot h os_ReadDir given root = Inr resolved"
    and hosts: "range_order_ok g" "range_order_ok h" "SimpleFold_orbit g = SimpleFold_orbit h"
    and core: "core_settings given" and root: "proper_dir root" "default_redis_user h (filepath_Join root ''redis_url'')"
  shows "ValidateComplete h resolved = Inr ()"
proof -
  let ?at = "\<lambda>x. filepath_Join root (secret_file x)"
  note moved = resolved_settings [OF res hosts(2)]
  note usable = checked_usable [OF moved(3) hosts(2) root(2)]
  have placed: "placed (ValuesForProcess resolved ProcessGateway) ?at [''DATABASE_GATEWAY_PASSWORD_FILE'', ''REDIS_URL_FILE'', ''MASTER_KEYRING_FILE'', ''API_KEY_PEPPER_RING_FILE'']"
    "placed (ValuesForProcess resolved ProcessWorker) ?at [''DATABASE_WORKER_PASSWORD_FILE'', ''REDIS_URL_FILE'', ''MASTER_KEYRING_FILE'']"
    "placed (ValuesForProcess resolved ProcessControlPlane) ?at [''DATABASE_CONTROL_PLANE_PASSWORD_FILE'', ''REDIS_URL_FILE'', ''MASTER_KEYRING_FILE'',
      ''API_KEY_PEPPER_RING_FILE'', ''SESSION_SECRET_FILE'', ''CSRF_SECRET_RING_FILE'']"
    "placed (ValuesForProcess resolved ProcessDeployment) ?at (database_settings @ [''REDIS_PASSWORD_FILE'', ''REDIS_URL_FILE''])"
    by (rule placed_view [OF moved(2)], code_simp)+
  have "consumed_by ProcessDeployment ''TLS_MODE''" "consumed_by ProcessDeployment ''ENABLE_CLOUDFLARE_TUNNEL''" by code_simp+
  then have "map_of (ValuesForProcess given ProcessDeployment) ''TLS_MODE'' = map_of given ''TLS_MODE''"
    "map_of (ValuesForProcess given ProcessDeployment) ''ENABLE_CLOUDFLARE_TUNNEL'' = map_of given ''ENABLE_CLOUDFLARE_TUNNEL''"
    by (simp_all only: view_lookup if_True)
  note core = core [unfolded core_settings_def, folded value_of_local [OF this(1)] boolean_local [OF this(2)], folded core_settings_def]
  note deployed = ParseDeployment_moved [OF same_plain_view [OF moved(1)] _ usable deployment.view_preflight core hosts placed(4) _ database_files_apart [OF root(1)]]
  note serviced = ParseGateway_moved [OF same_plain_view [OF moved(1)] _ usable gateway.view_preflight placed(1)]
    ParseControlPlane_moved [OF same_plain_view [OF moved(1)] _ usable control_plane.view_preflight placed(3)]
    ParseWorker_moved [OF same_plain_view [OF moved(1)] _ usable worker.view_preflight placed(2)]
  have "is_ok (ParseDeployment g (ValuesForProcess given ProcessDeployment))" "is_ok (ParseGateway g (ValuesForProcess given ProcessGateway))"
    "is_ok (ParseControlPlane g (ValuesForProcess given ProcessControlPlane))" "is_ok (ParseWorker g (ValuesForProcess given ProcessWorker))"
    using ok by (auto simp: ValidateComplete_def result_simps is_ok_iff)
  then have "is_ok (ParseDeployment h (ValuesForProcess resolved ProcessDeployment))" "is_ok (ParseGateway h (ValuesForProcess resolved ProcessGateway))"
    "is_ok (ParseControlPlane h (ValuesForProcess resolved ProcessControlPlane))" "is_ok (ParseWorker h (ValuesForProcess resolved ProcessWorker))"
    using deployed serviced by simp_all
  then show ?thesis by (auto simp: ValidateComplete_def is_ok_iff)
qed

end
