(* ===== verification/Generator.thy ===== *)
theory Generator
  imports Secret_Texts Relocation
begin

text \<open>
  The development generator on a machine that works: when no system call fails and the random
  source delivers, it succeeds, and the directory holds the secrets it drew.
\<close>

section \<open>What is written\<close>

text \<open>The eleven files, from the ten random strings.\<close>

definition generated :: "(nat \<Rightarrow> string) \<Rightarrow> (string \<times> string) list" where
  "generated b = map (\<lambda>(k, name). (name, RawURLEncoding (b k))) Dev_Secrets.password_names @
     [(''redis_url'', redis_dev_url (RawURLEncoding (b 5))),
      (''provider_master_keyring'', provider_json (EncodeToString (b 6))),
      (''api_key_pepper_ring'', ring_json ''api-pepper-dev-1'' (EncodeToString (b 7))),
      (''csrf_secret_ring'', ring_json ''csrf-dev-1'' (EncodeToString (b 8))),
      (''session_secret'', EncodeToString (b 9))]"

lemma generated_names: "map fst (generated b) = map snd Dev_Secrets.password_names @
    [''redis_url'', ''provider_master_keyring'', ''api_key_pepper_ring'', ''csrf_secret_ring'', ''session_secret'']"
  by (simp add: generated_def case_prod_beta)

lemma generated_keys: "distinct (map fst (generated b))" "set (map fst (generated b)) = set devSecretFiles"
  unfolding generated_names by code_simp+

lemma generated_at:
  "map_of (generated b) ''postgres_cluster_admin_password'' = Some (RawURLEncoding (b 0))"
  "map_of (generated b) ''postgres_migration_password'' = Some (RawURLEncoding (b 1))"
  "map_of (generated b) ''postgres_gateway_password'' = Some (RawURLEncoding (b 2))"
  "map_of (generated b) ''postgres_control_plane_password'' = Some (RawURLEncoding (b 3))"
  "map_of (generated b) ''postgres_worker_password'' = Some (RawURLEncoding (b 4))"
  "map_of (generated b) ''redis_password'' = Some (RawURLEncoding (b 5))"
  "map_of (generated b) ''redis_url'' = Some (redis_dev_url (RawURLEncoding (b 5)))"
  "map_of (generated b) ''provider_master_keyring'' = Some (provider_json (EncodeToString (b 6)))"
  "map_of (generated b) ''api_key_pepper_ring'' = Some (ring_json ''api-pepper-dev-1'' (EncodeToString (b 7)))"
  "map_of (generated b) ''csrf_secret_ring'' = Some (ring_json ''csrf-dev-1'' (EncodeToString (b 8)))"
  "map_of (generated b) ''session_secret'' = Some (EncodeToString (b 9))"
  by (simp_all add: generated_def Dev_Secrets.password_names_def)

text \<open>Files as they lie in a directory.\<close>

definition holds :: "fs \<Rightarrow> string \<Rightarrow> (string \<times> string) list \<Rightarrow> bool" where
  "holds s dir files \<longleftrightarrow> (\<forall>(n, c)\<in>set files. fs_at s (filepath_Join dir n) = Some (FileNode perm_0600 c))"

lemma holds_at: "holds s dir files \<Longrightarrow> map_of files n = Some c \<Longrightarrow> fs_at s (filepath_Join dir n) = Some (FileNode perm_0600 c)"
  by (auto simp: holds_def dest: map_of_SomeD)

section \<open>The checks accept what is written\<close>

lemma passwords_accepted:
  assumes "\<And>x. x \<in> set database_settings \<Longrightarrow> ReadSimpleSecret h x (at (secret_file x)) (4 * 1024) = Inr (pw x)"
    "inj_on (\<lambda>x. Reveal (pw x)) (set database_settings)"
  shows "distinct settings \<Longrightarrow> (\<forall>x\<in>set settings \<inter> set database_settings. Reveal (pw x) \<notin> set seen) \<Longrightarrow>
    set seen \<subseteq> (\<lambda>x. Reveal (pw x)) ` set database_settings \<Longrightarrow> database_passwords h at seen settings = Inr ()"
proof (induction settings arbitrary: seen)
  case (Cons z settings)
  show ?case
  proof (cases "z \<in> set database_settings")
    case True
    have "Reveal (pw x) \<noteq> Reveal (pw z)" if "x \<in> set settings \<inter> set database_settings" for x
      using inj_onD [OF assms(2), of x z] True that Cons.prems(1) by auto
    then have "\<forall>x\<in>set settings \<inter> set database_settings. Reveal (pw x) \<notin> set (Reveal (pw z) # seen)"
      using Cons.prems(2) by (simp only: list.set) blast
    moreover have "set (Reveal (pw z) # seen) \<subseteq> (\<lambda>x. Reveal (pw x)) ` set database_settings"
      using True Cons.prems(3) by (simp only: list.set) blast
    ultimately have "database_passwords h at (Reveal (pw z) # seen) settings = Inr ()"
      using Cons.prems(1) by (intro Cons.IH) simp_all
    moreover have "Reveal (pw z) \<notin> set seen" using Cons.prems(2) True by (simp only: list.set) blast
    ultimately show ?thesis using True assms(1) [OF True]
      by (simp only: database_passwords.simps not_True_eq_False if_False bindE.simps guardE_def)
  next
    case False
    then show ?thesis using Cons by (simp only: database_passwords.simps if_True not_False_eq_True) (simp del: database_passwords.simps)
  qed
qed simp

definition drawn :: "(nat \<Rightarrow> string) \<Rightarrow> bool" where
  "drawn b \<longleftrightarrow> list_all (\<lambda>k. length (b k) = 32) [0..<10] \<and> distinct (map b [0..<5])"

lemma drawn_length: "drawn b \<Longrightarrow> k < 10 \<Longrightarrow> length (b k) = 32"
  by (simp add: drawn_def list_all_iff)

text \<open>Which random string is the password behind a database setting.\<close>

definition drawn_for :: "string \<Rightarrow> nat" where
  "drawn_for setting = (case map_of (zip database_settings [0..<5]) setting of None \<Rightarrow> 0 | Some k \<Rightarrow> k)"

lemma drawn_for_settings:
  assumes "x \<in> set database_settings"
  shows "drawn_for x < 5" "map_of (generated b) (secret_file x) = Some (RawURLEncoding (b (drawn_for x)))" "x \<noteq> []"
proof -
  have "list_all (\<lambda>x. drawn_for x < 5 \<and> x \<noteq> []) database_settings" by code_simp
  then show "drawn_for x < 5" "x \<noteq> []" using assms by (simp_all add: list_all_iff)
  have "map secret_file database_settings = [''postgres_cluster_admin_password'', ''postgres_migration_password'', ''postgres_gateway_password'',
     ''postgres_control_plane_password'', ''postgres_worker_password'']" "map drawn_for database_settings = [0, 1, 2, 3, 4]" by code_simp+
  then have "map (\<lambda>x. map_of (generated b) (secret_file x)) database_settings = map (\<lambda>x. Some (RawURLEncoding (b (drawn_for x)))) database_settings"
    using generated_at(1-5) [of b] by (simp add: database_settings_def)
  then show "map_of (generated b) (secret_file x) = Some (RawURLEncoding (b (drawn_for x)))" using assms by simp
qed

lemma files_accepted:
  assumes files: "holds s dir (generated b)" and b: "drawn b" and order: "range_order_ok h"
  shows "check_files (fs_host h s) (filepath_Join dir) = Inr ()"
proof -
  note at = generated_at [THEN holds_at [OF files]]
  note len = drawn_length [OF b]
  have url: "length (RawURLEncoding (b k)) = 43" if "k < 10" for k using len [OF that] by (simp add: RawURL_length)
  have simple: "ReadSimpleSecret (fs_host h s) setting (filepath_Join dir n) (4 * 1024) = Inr (Secret (RawURLEncoding (b k)))"
    if "map_of (generated b) n = Some (RawURLEncoding (b k))" "k < 10" "setting \<noteq> []" for setting n k
    by (rule written_simple [OF holds_at [OF files that(1)] Join_nonempty encodings_printable(1) _ _ that(3)]) (use url [OF that(2)] in auto)
  have modes: "check_modes (fs_host h s) (filepath_Join dir) devSecretFiles = Inr ()"
  proof -
    have "\<exists>c. fs_at s (filepath_Join dir n) = Some (FileNode perm_0600 c)" if "n \<in> set devSecretFiles" for n
      using files that generated_keys(2) [of b] unfolding holds_def by fastforce
    then have "is_ok (check_modes (fs_host h s) (filepath_Join dir) devSecretFiles)"
      unfolding modes_ok by (fastforce simp: IsRegular_def)
    then show ?thesis by (auto simp: is_ok_iff)
  qed
  have passwords: "database_passwords (fs_host h s) (filepath_Join dir) [] (range_order (fs_host h s) (map fst deploymentSecretFiles)) = Inr ()"
  proof (rule passwords_accepted [where pw = "\<lambda>x. Secret (RawURLEncoding (b (drawn_for x)))"])
    show "ReadSimpleSecret (fs_host h s) x (filepath_Join dir (secret_file x)) (4 * 1024) = Inr (Secret (RawURLEncoding (b (drawn_for x))))"
      if "x \<in> set database_settings" for x
      using simple [OF drawn_for_settings(2) [OF that] _ drawn_for_settings(3) [OF that]] drawn_for_settings(1) [OF that] by simp
    have eq: "map drawn_for database_settings = [0..<5]" by code_simp
    have "distinct (map (\<lambda>x. b (drawn_for x)) database_settings)"
      using b by (simp only: drawn_def eq [symmetric] map_map comp_def)
    then have "inj_on (\<lambda>x. b (drawn_for x)) (set database_settings)" by (simp add: distinct_map)
    moreover have "b (drawn_for x) = b (drawn_for y)" if "RawURLEncoding (b (drawn_for x)) = RawURLEncoding (b (drawn_for y))"
      "x \<in> set database_settings" "y \<in> set database_settings" for x y
      using RawURL_inject [OF that(1)] len [of "drawn_for x"] len [of "drawn_for y"] drawn_for_settings(1) [OF that(2)] drawn_for_settings(1) [OF that(3)] by simp
    ultimately show "inj_on (\<lambda>x. Reveal (Secret (RawURLEncoding (b (drawn_for x))))) (set database_settings)"
      unfolding inj_on_def Secret.sel by blast
  qed (use setting_order(1) [OF order] in simp_all)
  have redis: "ReadSimpleSecret (fs_host h s) ''REDIS_PASSWORD_FILE'' (filepath_Join dir ''redis_password'') (4 * 1024) = Inr (Secret (RawURLEncoding (b 5)))"
    by (rule simple [OF generated_at(6)]) simp_all
  have trimmed: "Trim (RawURLEncoding (b 5)) base64url_cutset = []" unfolding Trim_empty by (rule RawURL_alphabet)
  obtain raw where uri: "ReadURISecret (fs_host h s) ''REDIS_URL_FILE'' (filepath_Join dir ''redis_url'') (4 * 1024) [''redis''] =
      Inr (Secret (redis_dev_url (RawURLEncoding (b 5))), empty_URL\<lparr>Scheme := ''redis'',
       User := Some \<lparr>ui_username = [], ui_password = Some (RawURLEncoding (b 5))\<rparr>, Host := ''redis:6379'', Path := ''/0'', RawPath := raw, RawQuery := []\<rparr>)"
    using written_redis_url [OF at(7) Join_nonempty, of h] url [of 5] by auto
  have ids: "keyIDPattern ''api-pepper-dev-1''" "keyIDPattern ''csrf-dev-1''" by code_simp+
  have "is_ok (ReadProviderKeyRing (fs_host h s) (filepath_Join dir ''provider_master_keyring''))"
    "is_ok (ReadKeyRing (fs_host h s) ''API_KEY_PEPPER_RING_FILE'' (filepath_Join dir ''api_key_pepper_ring''))"
    "is_ok (ReadBase64Key (fs_host h s) ''SESSION_SECRET_FILE'' (filepath_Join dir ''session_secret'') (4 * 1024))"
    "is_ok (ReadKeyRing (fs_host h s) ''CSRF_SECRET_RING_FILE'' (filepath_Join dir ''csrf_secret_ring''))"
    using written_provider [OF at(8) Join_nonempty] written_ring [OF at(9) Join_nonempty ids(1)] written_ring [OF at(10) Join_nonempty ids(2)]
      written_key [OF at(11) Join_nonempty] len [of 6] len [of 7] len [of 8] len [of 9] by simp_all
  then obtain pr kr bk cr where rest: "ReadProviderKeyRing (fs_host h s) (filepath_Join dir ''provider_master_keyring'') = Inr pr"
    "ReadKeyRing (fs_host h s) ''API_KEY_PEPPER_RING_FILE'' (filepath_Join dir ''api_key_pepper_ring'') = Inr kr"
    "ReadBase64Key (fs_host h s) ''SESSION_SECRET_FILE'' (filepath_Join dir ''session_secret'') (4 * 1024) = Inr bk"
    "ReadKeyRing (fs_host h s) ''CSRF_SECRET_RING_FILE'' (filepath_Join dir ''csrf_secret_ring'') = Inr cr"
    unfolding is_ok_iff by blast
  show ?thesis unfolding check_files_def modes passwords redis uri rest bindE.simps
    using url [of 5] by (simp add: trimmed empty_URL_def)
qed

section \<open>Writing\<close>

lemma io_laws: "ioBind (ioPure (Inr x)) f = f x" "ioBind (ioBind m g) k = ioBind m (\<lambda>y. ioBind (g y) k)"
  by (rule ext, simp add: ioBind_def ioPure_def split: prod.splits sum.splits)+

lemma populate_writes:
  assumes "\<And>k. k < 10 \<Longrightarrow> w_random w k = Some (b k)"
  shows "populate h w t = ioBind (ioEach (\<lambda>(name, contents). writeNewSecret w t name contents) (generated b)) (\<lambda>_ s.
     (case ValidateDevSecrets (fs_host h s) (fs_ReadDir s) t of
        Inl e \<Rightarrow> Inl (''validate generated development secret inventory: '' @ e)
      | Inr u \<Rightarrow> Inr (), s))"
proof -
  have url: "randomBase64URL w k = Inr (RawURLEncoding (b k))" "randomBase64 w k = Inr (EncodeToString (b k))" if "k < 10" for k
    using assms [OF that] by (simp_all add: randomBase64URL_def randomBase64_def)
  show ?thesis unfolding populate_def generated_def Dev_Secrets.password_names_def writeJSONSecret_def
    by (simp add: url io_laws)
qed

definition put_all :: "string \<Rightarrow> (string \<times> string) list \<Rightarrow> fs \<Rightarrow> fs" where
  "put_all dir = fold (\<lambda>(name, contents). fs_put (filepath_Join dir name) (FileNode perm_0600 contents))"

lemma put_all_simps [simp]: "put_all dir [] s = s"
  "put_all dir ((n, c) # files) s = put_all dir files (fs_put (filepath_Join dir n) (FileNode perm_0600 c) s)"
  by (simp_all add: put_all_def)

lemma writes_succeed:
  assumes works: "\<And>call. \<not> w_fails w call" and t: "proper_dir t"
  shows "distinct (map fst files) \<Longrightarrow> \<forall>n\<in>fst ` set files. simple_name n \<and> fs_at s (filepath_Join t n) = None \<Longrightarrow> fs_at s t \<noteq> None \<Longrightarrow>
    ioEach (\<lambda>(name, contents). writeNewSecret w t name contents) files s = (Inr (), put_all t files s)"
proof (induction files arbitrary: s)
  case (Cons nc files)
  obtain n c where nc: "nc = (n, c)" by (cases nc)
  have n: "simple_name n" "fs_at s (filepath_Join t n) = None" using Cons.prems(2) nc by simp_all
  have "filepath_Join t m \<noteq> filepath_Join t n" if "m \<in> fst ` set files" for m
  proof -
    have "m \<noteq> n" "simple_name m" using that Cons.prems(1,2) nc by auto
    then show ?thesis using Join_inject [OF t t _ n(1)] by simp
  qed
  then have "\<forall>m\<in>fst ` set files. simple_name m \<and> fs_at (fs_put (filepath_Join t n) (FileNode perm_0600 c) s) (filepath_Join t m) = None"
    using Cons.prems(2) by (simp add: fs_at_put)
  then have "ioEach (\<lambda>(name, contents). writeNewSecret w t name contents) files (fs_put (filepath_Join t n) (FileNode perm_0600 c) s) =
      (Inr (), put_all t files (fs_put (filepath_Join t n) (FileNode perm_0600 c) s))"
    using Cons.prems(1,3) by (intro Cons.IH) (simp_all add: fs_at_put)
  moreover have "writeNewSecret w t n c s = (Inr (), fs_put (filepath_Join t n) (FileNode perm_0600 c) s)"
    using works n(2) Cons.prems(3) by (auto simp: writeNewSecret_def Let_def)
  ultimately show ?case by (simp add: nc ioBind_def)
qed (simp add: ioPure_def)

lemma put_all_other: "\<forall>n\<in>fst ` set files. filepath_Clean q \<noteq> filepath_Join t n \<Longrightarrow> fs_at (put_all t files s) q = fs_at s q"
  by (induction files arbitrary: s) (auto simp: fs_at_put)

lemma put_all_holds:
  assumes t: "proper_dir t"
  shows "distinct (map fst files) \<Longrightarrow> \<forall>n\<in>fst ` set files. simple_name n \<Longrightarrow> holds (put_all t files s) t files"
proof (induction files arbitrary: s)
  case (Cons nc files)
  obtain n c where nc: "nc = (n, c)" by (cases nc)
  let ?s = "fs_put (filepath_Join t n) (FileNode perm_0600 c) s"
  have "filepath_Clean (filepath_Join t n) \<noteq> filepath_Join t m" if "m \<in> fst ` set files" for m
  proof -
    have "n \<noteq> m" "simple_name m" "simple_name n" using that Cons.prems nc by auto
    then show ?thesis using Join_inject [OF t t, of n m] by simp
  qed
  then have "fs_at (put_all t files ?s) (filepath_Join t n) = Some (FileNode perm_0600 c)"
    using put_all_other [of files "filepath_Join t n" t ?s] by (simp add: fs_at_put)
  moreover have "holds (put_all t files ?s) t files" using Cons by simp
  ultimately show ?case by (auto simp: nc holds_def)
qed (simp add: holds_def)

lemma put_all_keys: "fst ` set (put_all t files s) = fst ` set s \<union> filepath_Join t ` fst ` set files"
proof (induction files arbitrary: s)
  case (Cons nc files)
  then show ?case by (cases nc) (simp add: fs_put_def dom_update)
qed simp

lemma put_all_distinct: "distinct (map fst s) \<Longrightarrow> distinct (map fst (put_all t files s))"
  by (induction files arbitrary: s) (auto simp: fs_distinct)

section \<open>Publishing\<close>

lemma renames_succeed:
  assumes works: "\<And>call. \<not> w_fails w call" and t: "proper_dir t" and d: "proper_dir d" and ne: "filepath_Clean t \<noteq> filepath_Clean d"
  shows "distinct names \<Longrightarrow> \<forall>n\<in>set names. simple_name n \<and> fs_at s (filepath_Join t n) \<noteq> None \<Longrightarrow>
    \<exists>s'. ioEach (rename_one w t d) names s = (Inr (), s') \<and>
      fst ` set s' = fst ` set s - filepath_Join t ` set names \<union> filepath_Join d ` set names"
proof (induction names arbitrary: s)
  case (Cons n names)
  obtain node where node: "fs_at s (filepath_Join t n) = Some node" using Cons.prems(2) by auto
  let ?s = "fs_put (filepath_Join d n) node (fs_del (filepath_Join t n) s)"
  have n: "simple_name n" using Cons.prems(2) by simp
  have apart: "filepath_Join t m \<noteq> filepath_Join t n" "filepath_Join t m \<noteq> filepath_Join d n" "filepath_Join t n \<noteq> filepath_Join d m" "filepath_Join d m \<noteq> filepath_Join t n"
    if "m \<in> set names" for m
    using that Cons.prems Join_inject [OF t t _ n, of m] Join_inject [OF t d _ n, of m] Join_inject [OF t d n, of m] Join_inject [OF d t _ n, of m] ne by auto
  have "\<forall>m\<in>set names. simple_name m \<and> fs_at ?s (filepath_Join t m) \<noteq> None"
    using Cons.prems(2) apart by (simp add: fs_at_put fs_at_del)
  then obtain s' where s': "ioEach (rename_one w t d) names ?s = (Inr (), s')"
    "fst ` set s' = fst ` set ?s - filepath_Join t ` set names \<union> filepath_Join d ` set names"
    using Cons.IH [of ?s] Cons.prems(1) by auto
  have "rename_one w t d n s = (Inr (), ?s)" using node works by (simp add: rename_one_def)
  moreover have "fst ` set ?s = insert (filepath_Join d n) (fst ` set s - {filepath_Join t n})"
    by (simp add: fs_put_def fs_del_def dom_update) (simp only: set_map [symmetric] delete_keys set_removeAll)
  ultimately show ?case using s' apart by (auto simp: ioBind_def)
qed (simp add: ioPure_def)

lemma publish_succeeds:
  assumes works: "\<And>call. \<not> w_fails w call" and t: "proper_dir t" and d: "proper_dir d" and ne: "filepath_Clean t \<noteq> filepath_Clean d"
    and free: "fs_at s d = None" and files: "\<forall>n\<in>set devSecretFiles. fs_at s (filepath_Join t n) \<noteq> None"
    and only: "\<forall>p\<in>fst ` set s. below (filepath_Clean t) p \<longrightarrow> p = filepath_Clean t \<or> p \<in> filepath_Join t ` set devSecretFiles"
    and apart: "\<not> below (filepath_Clean t) (filepath_Clean d)" "\<And>x. simple_name x \<Longrightarrow> \<not> below (filepath_Clean t) (filepath_Join d x)"
  shows "\<exists>s'. publish w t d s = (Inr (), s')"
proof -
  let ?s = "fs_put d (DirNode perm_0700) s"
  have keys: "fst ` set ?s = insert (filepath_Clean d) (fst ` set s)" by (simp add: fs_put_def dom_update)
  have "filepath_Join t n \<noteq> filepath_Clean d" if "n \<in> set devSecretFiles" for n
    using below_Join [OF t dev_simple [OF that]] apart(1) by auto
  then have "\<forall>n\<in>set devSecretFiles. simple_name n \<and> fs_at ?s (filepath_Join t n) \<noteq> None" using files dev_simple by (simp add: fs_at_put)
  from renames_succeed [OF works t d ne dev_names(2) this] obtain s1 where s1: "ioEach (rename_one w t d) devSecretFiles ?s = (Inr (), s1)"
    "fst ` set s1 = fst ` set ?s - filepath_Join t ` set devSecretFiles \<union> filepath_Join d ` set devSecretFiles" by blast
  have "p = filepath_Clean t \<or> \<not> below (filepath_Clean t) p" if "p \<in> fst ` set s1" for p
    using that only apart dev_simple unfolding s1(2) keys by blast
  then have "fs_empty_dir s1 t" by (force simp: fs_empty_dir_def list_all_iff)
  then show ?thesis using works free s1(1) by (simp add: publish_def ioBind_def)
qed

section \<open>The whole run\<close>

lemma closed_below:
  assumes "fs_closed s" "fs_at s t = None"
  shows "p \<in> fst ` set s \<Longrightarrow> \<not> below (filepath_Clean t) p"
proof (induction "length p" arbitrary: p rule: less_induct)
  case less
  show ?case
  proof
    assume b: "below (filepath_Clean t) p"
    have "p \<noteq> filepath_Clean t" using less.prems assms(2) unfolding fs_at_def map_of_eq_None_iff by blast
    with b obtain x where x: "p = filepath_Clean t @ CHR ''/'' # x" by (auto simp: below_def HasPrefix_iff)
    then obtain d n where d: "p = d @ CHR ''/'' # n" "CHR ''/'' \<notin> set n" using split_list_last [of "CHR ''/''" p] by auto
    from x d have "below (filepath_Clean t) d"
      by (auto simp: below_def HasPrefix_iff append_eq_append_conv2 Cons_eq_append_conv append_eq_Cons_conv)
    moreover have "d \<noteq> []" using calculation by (metis Clean_nonempty HasPrefix_iff append_is_Nil_conv below_def)
    moreover have "d = [] \<or> map_of s d \<noteq> None"
      using assms(1) less.prems from_last_append [OF d(2), of d] d(1) by (force simp: fs_closed_def list_all_iff)
    ultimately show False using less.hyps [of d] d(1) by (force dest: map_of_SomeD)
  qed
qed

lemma written_valid:
  assumes "proper_dir dir" "fs_at s dir = Some (DirNode perm_0700)" "distinct (map fst s)" "holds s dir (generated b)"
    "\<And>x. simple_name x \<Longrightarrow> fs_at s (filepath_Join dir x) \<noteq> None \<Longrightarrow> x \<in> set devSecretFiles" "drawn b" "range_order_ok h"
  shows "ValidateDevSecrets (fs_host h s) (fs_ReadDir s) dir = Inr ()"
proof -
  have "fs_at s (filepath_Join dir x) \<noteq> None" if "x \<in> set devSecretFiles" for x
    using assms(4) that generated_keys(2) [of b] unfolding holds_def by fastforce
  then obtain entries where "fs_ReadDir s dir = Some entries" "sort entries = devSecretFiles"
    using ReadDir_exact [OF assms(1-3)] assms(5) by blast
  then show ?thesis using assms(2) files_accepted [OF assms(4,6,7)] by (simp add: ValidateDevSecrets_def)
qed

lemma staged_succeeds:
  assumes works: "\<And>call. \<not> w_fails w call" and random: "\<And>k. k < 10 \<Longrightarrow> w_random w k = Some (b k)" "drawn b" "range_order_ok h"
    and t: "proper_dir t" and d: "proper_dir d" and ne: "filepath_Clean t \<noteq> filepath_Clean d"
    and s: "distinct (map fst s)" "fs_at s d = None" "\<And>p. p \<in> fst ` set s \<Longrightarrow> \<not> below (filepath_Clean t) p"
    and apart: "\<not> below (filepath_Clean t) (filepath_Clean d)" "\<And>x. simple_name x \<Longrightarrow> \<not> below (filepath_Clean t) (filepath_Join d x)"
  shows "\<exists>s'. staged h w t d s = (Inr (), s') \<and> holds s' d (generated b)"
proof -
  let ?s0 = "fs_put t (DirNode perm_0700) (fs_put t (DirNode perm_0700) s)"
  let ?s1 = "put_all t (generated b) ?s0"
  have keys0: "fst ` set ?s0 = insert (filepath_Clean t) (fst ` set s)" by (simp add: fs_put_def dom_update)
  have names: "\<forall>n\<in>fst ` set (generated b). simple_name n" using generated_keys(2) [of b] dev_simple by auto
  have none: "fs_at ?s0 (filepath_Join t n) = None" if "simple_name n" for n
  proof -
    have "filepath_Join t n \<notin> fst ` set ?s0" unfolding keys0 using below_Join [OF t that] Join_not_dir [OF t that] s(3) by blast
    then show ?thesis unfolding fs_at_def Clean_Join map_of_eq_None_iff .
  qed
  have dir: "fs_at ?s1 t = Some (DirNode perm_0700)"
    using put_all_other [of "generated b" t t ?s0] names Join_not_dir [OF t] by (force simp: fs_at_put)
  have written: "holds ?s1 t (generated b)" by (rule put_all_holds [OF t generated_keys(1) names])
  have exact: "x \<in> set devSecretFiles" if "simple_name x" "fs_at ?s1 (filepath_Join t x) \<noteq> None" for x
  proof (rule ccontr)
    assume "x \<notin> set devSecretFiles"
    then have "\<forall>n\<in>fst ` set (generated b). filepath_Clean (filepath_Join t x) \<noteq> filepath_Join t n"
      unfolding set_map [symmetric] generated_keys(2) using dev_simple Join_inject [OF t t that(1)] by auto
    then show False using put_all_other [of "generated b" "filepath_Join t x" t ?s0] none [OF that(1)] that(2) by simp
  qed
  have "distinct (map fst ?s1)" using s(1) by (simp add: put_all_distinct fs_distinct)
  from written_valid [OF t dir this written exact random(2,3)] have valid: "ValidateDevSecrets (fs_host h ?s1) (fs_ReadDir ?s1) t = Inr ()" by blast
  have "ioEach (\<lambda>(name, contents). writeNewSecret w t name contents) (generated b) ?s0 = (Inr (), ?s1)"
    using names none by (intro writes_succeed [OF works t generated_keys(1)]) (simp_all add: fs_at_put)
  then have populated: "populate h w t ?s0 = (Inr (), ?s1)"
    using populate_writes [where w = w and b = b and h = h and t = t] random(1) valid by (simp add: ioBind_def)
  have d1: "fs_at ?s1 d = None"
    using put_all_other [of "generated b" d t ?s0] names below_Join [OF t] apart(1) ne s(2) by (force simp: fs_at_put)
  have files: "\<forall>n\<in>set devSecretFiles. fs_at ?s1 (filepath_Join t n) \<noteq> None"
    using written generated_keys(2) [of b] unfolding holds_def by fastforce
  have only: "\<forall>p\<in>fst ` set ?s1. below (filepath_Clean t) p \<longrightarrow> p = filepath_Clean t \<or> p \<in> filepath_Join t ` set devSecretFiles"
    using s(3) generated_keys(2) [of b] unfolding put_all_keys keys0 by auto
  obtain s' where pub: "publish w t d ?s1 = (Inr (), s')"
    using publish_succeeds [OF works t d ne d1 files only apart] by blast
  from publish_parts [OF pub] obtain s2 where moved: "ioEach (rename_one w t d) devSecretFiles (fs_put d (DirNode perm_0700) ?s1) = (Inr (), s2)"
    and s': "s' = fs_del t s2" by blast
  have simple: "\<forall>n\<in>set devSecretFiles. simple_name n" using dev_simple by blast
  have "fs_at s' (filepath_Join d n) = fs_at ?s1 (filepath_Join t n)" if n: "n \<in> set devSecretFiles" for n
  proof -
    have "fs_at s2 (filepath_Join d n) = fs_at (fs_put d (DirNode perm_0700) ?s1) (filepath_Join t n)"
      using rename_effect [OF t d ne dev_names(2) simple moved] n by blast
    moreover have "filepath_Join t n \<noteq> filepath_Clean d" "filepath_Join d n \<noteq> filepath_Clean t"
      using below_Join [OF t dev_simple [OF n]] apart(1) apart(2) [OF dev_simple [OF n]] by (auto simp: below_def)
    ultimately show ?thesis by (simp add: s' fs_at_del fs_at_put)
  qed
  then have "holds s' d (generated b)" using written generated_keys(2) [of b] unfolding holds_def by force
  moreover have "staged h w t d s = (Inr (), s')" using works populated pub by (simp add: staged_def chmod_0700_def ioBind_def)
  ultimately show ?thesis by blast
qed

text \<open>A machine on which the generator can run: nothing fails, and the directory is new.\<close>

definition fresh_run :: "world \<Rightarrow> string \<Rightarrow> fs \<Rightarrow> bool" where
  "fresh_run w directory s \<longleftrightarrow> distinct (map fst s) \<and> fs_closed s \<and>
     simple_name (last_part directory) \<and> proper_dir directory \<and> simple_name (temporary_name w) \<and> temporary_name w \<noteq> last_part directory \<and>
     fs_at s directory = None \<and> fs_at s (temporary_path w (filepath_Dir directory)) = None \<and>
     (case fs_at s (filepath_Dir directory) of Some (DirNode perm) \<Rightarrow> True | _ \<Rightarrow> False)"

lemma generator_succeeds:
  assumes works: "\<And>call. \<not> w_fails w call" and random: "\<And>k. k < 10 \<Longrightarrow> w_random w k = Some (b k)" "drawn b" "range_order_ok h"
    and fresh: "fresh_run w directory s"
  obtains s' where "GenerateDevSecrets h w directory s = (Inr (), s')" "holds s' directory (generated b)"
    "ValidateDevSecrets (fs_host h s') (fs_ReadDir s') directory = Inr ()"
    "\<And>q. \<not> below (filepath_Clean (temporary_path w (filepath_Dir directory))) (filepath_Clean q) \<Longrightarrow> \<not> below (filepath_Clean directory) (filepath_Clean q) \<Longrightarrow> fs_at s' q = fs_at s q"
proof -
  let ?t = "temporary_path w (filepath_Dir directory)"
  have s: "distinct (map fst s)" "fs_closed s" "fs_at s directory = None" "fs_at s ?t = None" and d: "proper_dir directory"
    and n: "simple_name (last_part directory)" "simple_name (temporary_name w)" "temporary_name w \<noteq> last_part directory"
    using fresh by (simp_all add: fresh_run_def)
  obtain perm where parent: "fs_at s (filepath_Dir directory) = Some (DirNode perm)"
    using fresh by (auto simp: fresh_run_def split: option.splits fs_node.splits)
  obtain u where "?t = u @ ''/'' @ temporary_name w" using temporary_slash by blast
  then have t: "proper_dir ?t" using slash_proper [OF n(2)] by simp
  have clean: "filepath_Clean directory = lead (filepath_Dir directory) @ last_part directory"
    "filepath_Clean ?t = lead (filepath_Dir directory) @ temporary_name w"
    using Clean_dir [OF n(1)] Clean_temporary [OF n(2)] unfolding filepath_Dir_def by blast+
  have apart: "\<not> below (filepath_Clean ?t) (filepath_Clean directory)" "\<And>x. simple_name x \<Longrightarrow> \<not> below (filepath_Clean ?t) (filepath_Join directory x)"
    unfolding Join_proper [OF d] clean using sibling_not_below [OF simple_no_slash [OF n(2)] simple_no_slash [OF n(1)] n(3)] by blast+
  have ne: "filepath_Clean ?t \<noteq> filepath_Clean directory" unfolding clean using n(3) by simp
  obtain s' where run: "staged h w ?t directory s = (Inr (), s')" and files: "holds s' directory (generated b)"
    using staged_succeeds [OF works random t d ne s(1,3) closed_below [OF s(2,4)] apart] by blast
  have "GenerateDevSecrets h w directory s = (Inr (), s')"
    using works s(3,4) d parent run by (simp add: GenerateDevSecrets_def proper_dir_def)
  moreover have "ValidateDevSecrets (fs_host h s') (fs_ReadDir s') directory = Inr ()"
    using staged_valid [OF t d s(1) run apart(2) closed_fresh [OF s(2) d s(3)]] by blast
  moreover have "fs_at s' q = fs_at s q" if "\<not> below (filepath_Clean ?t) (filepath_Clean q)" "\<not> below (filepath_Clean directory) (filepath_Clean q)" for q
    using in_both.keeps_at [OF staged_keeps [OF t d] run] that by blast
  ultimately show ?thesis using files that by blast
qed

lemma generated_user:
  assumes "holds s dir (generated b)" "drawn b"
  shows "default_redis_user (fs_host h s) (filepath_Join dir ''redis_url'')"
  using written_redis_url [OF holds_at [OF assms(1) generated_at(7)] Join_nonempty, of h] drawn_length [OF assms(2), of 5]
  by (auto simp: default_redis_user_def RawURL_length empty_URL_def)

section \<open>Source directories\<close>

text \<open>Settings that name no secret, or the logical path of it.\<close>

definition logical_secrets :: "env \<Rightarrow> bool" where
  "logical_secrets given \<longleftrightarrow> list_all (\<lambda>(x, f). map_of given x = None \<or> map_of given x = Some (logical_path f)) deploymentSecretFiles"

lemma logical_secret_file:
  assumes "logical_secrets given" "x \<in> set (map fst deploymentSecretFiles)"
  shows "map_of given x = None \<or> map_of given x = Some (logical_path (secret_file x))"
proof -
  obtain f where f: "map_of deploymentSecretFiles x = Some f" using assms(2) by (auto simp: map_of_eq_None_iff dest: weak_map_of_SomeI)
  then show ?thesis using assms(1) map_of_SomeD [OF f] unfolding logical_secrets_def list_all_iff by (auto simp: secret_file_def)
qed

lemma resolve_succeeds:
  "distinct settings \<Longrightarrow> \<forall>x\<in>set settings. map_of env x = None \<or> map_of env x = Some (logical_path (secret_file x)) \<Longrightarrow>
    is_ok (resolve_secrets root settings env)"
proof (induction settings arbitrary: env)
  case (Cons z settings)
  have "is_ok (resolve_secrets root settings (AList.update z (filepath_Join root (secret_file z)) env))"
    using Cons.prems by (intro Cons.IH) (auto simp: update_conv')
  moreover have "map_of env z = None \<or> map_of env z = Some (logical_path (secret_file z))" using Cons.prems(2) by simp
  ultimately show ?case by (auto simp: Let_def)
qed simp

lemma valid_root_resolves:
  assumes "ValidateDevSecrets h os_ReadDir root = Inr ()" "logical_secrets given" "range_order_ok h"
  shows "\<exists>resolved. ResolveDeploymentSecretRoot h os_ReadDir given root = Inr resolved"
proof -
  have "is_ok (resolve_secrets root (range_order h (map fst deploymentSecretFiles)) given)"
    using setting_order [OF assms(3)] logical_secret_file [OF assms(2)] by (intro resolve_succeeds) auto
  then show ?thesis using assms(1) by (auto simp: ResolveDeploymentSecretRoot_def is_ok_iff)
qed

section \<open>Properties\<close>

text \<open>C18. On a machine where no system call fails and the random source delivers ten strings of 32 bytes, the
  first five of them different, the generator succeeds in every new directory whose parent exists:
  the directory then holds exactly the passwords, the Redis URL and the key rings made from these
  strings, and the program's own validation accepts it.\<close>

theorem GenerateDevSecrets_complete:
  assumes "\<forall>call. \<not> w_fails w call" "\<forall>k<10. w_random w k = Some (b k)" "drawn b" "range_order_ok h" "fresh_run w directory s"
  shows "\<exists>s'. GenerateDevSecrets h w directory s = (Inr (), s') \<and> holds s' directory (generated b) \<and>
    ValidateDevSecrets (fs_host h s') (fs_ReadDir s') directory = Inr ()"
proof -
  have "\<not> w_fails w call" "k < 10 \<Longrightarrow> w_random w k = Some (b k)" for call k using assms(1,2) by simp_all
  from generator_succeeds [OF this assms(3-5)] show ?thesis by blast
qed

text \<open>A working machine: the \<open>k\<close>-th string repeats the \<open>k\<close>-th letter.\<close>

definition letters :: "nat \<Rightarrow> string" where
  "letters k = replicate 32 (''abcdefghij'' ! k)"

definition working_world :: world where
  "working_world = \<lparr>w_fails = (\<lambda>call. False), w_random = (\<lambda>k. if k < 10 then Some (letters k) else None), w_suffix = ''1'', w_partial = 0\<rparr>"

theorem GenerateDevSecrets_complete_witness:
  "\<exists>s'. GenerateDevSecrets (memory_host []) working_world ''/work/secrets'' work_fs = (Inr (), s') \<and>
     fs_at s' ''/work/secrets/session_secret'' = Some (FileNode 384 ''ampqampqampqampqampqampqampqampqampqampqamo='')"
proof -
  have works: "\<forall>call. \<not> w_fails working_world call" "\<forall>k<10. w_random working_world k = Some (letters k)" by (simp_all add: working_world_def)
  have b: "drawn letters" by code_simp
  have order: "range_order_ok (memory_host [])" by (simp add: range_order_ok_def memory_host_def)
  have fresh: "fresh_run working_world ''/work/secrets'' work_fs" by code_simp
  from GenerateDevSecrets_complete [OF works b order fresh] obtain s' where
    s': "GenerateDevSecrets (memory_host []) working_world ''/work/secrets'' work_fs = (Inr (), s')" "holds s' ''/work/secrets'' (generated letters)" by blast
  have "map_of (generated letters) ''session_secret'' = Some ''ampqampqampqampqampqampqampqampqampqampqamo=''"
    "filepath_Join ''/work/secrets'' ''session_secret'' = ''/work/secrets/session_secret''" "perm_0600 = 384" by code_simp+
  then show ?thesis using s'(1) holds_at [OF s'(2), of "''session_secret''"] by auto
qed

end
