(* ===== verification/Spec2Isabelle.thy ===== *)
theory Spec2Isabelle
  imports Process Config_Views Config_Production Generator
begin

text \<open>
  NexusRelay in Isabelle/HOL: a verification library of the Go implementation under
  \<^verbatim>\<open>src/internal\<close> and \<^verbatim>\<open>src/apps\<close>.

  \<^bold>\<open>The program.\<close>  NexusRelay is deployed as three long-running services (gateway, control plane, worker)
  and four commands (bootstrap, health probe, development secret generator, deployment check).  A
  service reads its settings from the environment and its secrets from protected files, builds the
  telemetry runtime, opens its PostgreSQL and Redis clients, and then runs an operational HTTP
  server whose readiness is decided by periodic probes of the two dependencies.  The deployment
  check reads an environment file and runs the parsers of all processes on it before anything is
  started; the generator creates the secret files a development deployment needs.

  \<^bold>\<open>Conventions.\<close>  A Go function that returns \<^verbatim>\<open>(T, error)\<close> is a function into a sum type (\<open>Relay_Prelude\<close>); a
  string is the list of its bytes; a Go \<^verbatim>\<open>int\<close>, \<^verbatim>\<open>int64\<close> or duration is an \<open>int\<close> with its range
  or its wrap-around written out where it matters; a panic is an outer \<open>None\<close>.  The random iteration
  order of a Go map is a parameter of the host that permutes the keys.  Concurrent code is a step
  relation whose steps are the atomic actions of the goroutines, and theorems about it hold for
  every interleaving.

  \<^bold>\<open>Theories, from the language up.\<close>
  \<^item> \<open>Relay_Prelude\<close>: results, guards, loops that stop at an error, the named collections.
  \<^item> \<open>Go_Text\<close>, \<open>Go_Duration\<close>, \<open>Go_Net\<close>, \<open>Go_Base64\<close>, \<open>Go_Json\<close>, \<open>Go_Files\<close>: the parts of the standard
    library the sources use (strings, UTF-8, integers, \<^verbatim>\<open>time.ParseDuration\<close>, \<^verbatim>\<open>net/url\<close>, \<^verbatim>\<open>net/netip\<close>,
    base64, the JSON decoder and its tokens, path cleaning and a file system state).
  \<^item> \<open>Go_Host\<close>: what a process sees of its machine, as a record of functions.
  \<^item> \<open>Settings\<close>: the inventory of \<^verbatim>\<open>config.go\<close>, \<^verbatim>\<open>preflight\<close>, \<^verbatim>\<open>ValuesForProcess\<close>, and the typed readers.
    One locale states the contract of a bounded setting and is interpreted for integers and durations.
  \<^item> \<open>Secrets\<close> and \<open>Strict_Json\<close>: \<^verbatim>\<open>secret.go\<close>.  A file is read only when it is a private regular file
    that was not exchanged between inspection and opening; the two passes of \<^verbatim>\<open>strictJSON\<close> read the
    same document; accepted key rings are well formed; the errors of the plain readers come from a
    closed list.  The contract of a secret reader is a locale with an interpretation per reader.
    \<open>Json_Exact\<close> adds the converse: \<^verbatim>\<open>strictJSON\<close> accepts exactly the conforming documents.
  \<^item> \<open>Envfile\<close>: \<^verbatim>\<open>envfile.go\<close>, exact acceptance and the round trip with a writer.
  \<^item> \<open>Config_Parts\<close>, \<open>Config_Process\<close>: the parsers of \<^verbatim>\<open>config.go\<close>, part by part and process by process.
    \<open>Config_Facts\<close> and \<open>Config_Production\<close> show what an accepted configuration guarantees;
    \<open>Config_Views\<close> computes which settings each process reads and shows that a process needs no other.
  \<^item> \<open>Transition\<close>: reachable states, inductive invariants and simulations, as locales.
  \<^item> \<open>Readiness\<close>: \<^verbatim>\<open>dependency/readiness.go\<close>.  \<^verbatim>\<open>Run\<close> is a machine over its phase, the server goroutine, the
    startup deadline and cancellation; it refines an abstract readiness contract of four modes, its
    retry delay is bounded and cannot overflow, its shutdown is bounded and can always finish.
  \<^item> \<open>Clients\<close>: \<^verbatim>\<open>dependency/dependency.go\<close>.  The connection URL loses nothing of the configuration.
  \<^item> \<open>Http_Server\<close>: \<^verbatim>\<open>httpserver\<close>.  The health endpoints and the server as a machine.
  \<^item> \<open>Lifecycle\<close>: \<^verbatim>\<open>runtime/runtime.go\<close>, a second refinement of the readiness contract.
  \<^item> \<open>Logging\<close>, \<open>Telemetry\<close>: \<^verbatim>\<open>observability\<close>.  What a line can show, when the logger panics, what redaction
    misses; the middleware is transparent and the metrics are bounded; the exporter of the traces is
    made with fixed options.
  \<^item> \<open>Dev_Secrets\<close>: \<^verbatim>\<open>devsecrets.go\<close> over a file system state in which every system call may fail.  One
    locale carries the frame of an operation and is interpreted for the temporary directory alone
    and for both directories.
  \<^item> \<open>Secret_Texts\<close>, \<open>Generator\<close>: what the generator writes is read back by every reader, so on a machine
    where nothing fails it succeeds.
  \<^item> \<open>Relocation\<close>: an accepted environment stays accepted when its secret files are exchanged for others that
    are readable, distinct and matching.
  \<^item> \<open>Commands\<close>: \<^verbatim>\<open>buildinfo\<close>, \<^verbatim>\<open>apps/bootstrap\<close>, \<^verbatim>\<open>apps/health-probe\<close>, \<^verbatim>\<open>config/cmd\<close>, with \<^verbatim>\<open>flag.FlagSet\<close> and the exit status.
  \<^item> \<open>Process\<close>: \<^verbatim>\<open>apps/gateway\<close>, \<^verbatim>\<open>apps/control-plane\<close>, \<^verbatim>\<open>apps/worker\<close>.  The running service is the product of
    the machines above; it simulates the dependency machine, and its readiness endpoint and gauge
    agree with it.  \<^verbatim>\<open>main\<close> and \<^verbatim>\<open>run\<close> are modelled with their deferred calls, so that what was opened is
    shown to be closed and every error to be logged once.
  \<^item> This theory: the deployment check and the services it clears, and the initialisation of a local
    deployment by the two commands.

  \<^bold>\<open>Bounds and fuel.\<close>  The JSON decoder recurses with fuel \<open>2 * length s + 1\<close>, which suffices for every
  input (\<open>Go_Json\<close>, enough-fuel lemmas).  \<open>Resolve\<close> has the limit of 100 calls that \<^verbatim>\<open>slog\<close> has.  All other
  recursions are structural or have a measure.

  \<^bold>\<open>Parameters and what is assumed of them.\<close>  The pgx and go-redis parsers and constructors, the chi router
  (\<open>router_ok\<close>: a registered static path is dispatched to its handler), the OTLP exporter and
  resource (their errors), case folding and lower-casing beyond ASCII, \<^verbatim>\<open>mail.ParseAddress\<close>,
  \<^verbatim>\<open>strconv.Quote\<close>, the texts of JSON errors, the random source, and the result of every system call.
  No theorem assumes more of them than its statement says.

  \<^bold>\<open>Not modelled.\<close>  \<^verbatim>\<open>internal/transport/controlplane/generated\<close> is generated from the OpenAPI document and no
  service calls it.  Real time is not measured: a timer is a step that may happen, so the theorems
  bound the number of steps and the configured durations, not seconds.  The exposition format of
  Prometheus, the span exporter, and the wire protocols of PostgreSQL and Redis belong to their
  libraries.  The web console, the deployment scripts and the migrations are not Go.
\<close>

section \<open>What the deployment check promises\<close>

text \<open>
  The environment of a process supplies the checked values when it passes the preflight of the
  process and agrees with them on the settings the inventory assigns to the process; what else is
  in it (\<^verbatim>\<open>PATH\<close> and the like) does not matter.
\<close>

definition supplies :: "process \<Rightarrow> env \<Rightarrow> string list \<Rightarrow> bool" where
  "supplies p given environ \<longleftrightarrow> preflight (environment environ) p = Inr () \<and>
     list_all (\<lambda>(name, class). p \<in> set (class_Consumers class) \<longrightarrow> map_of (environment environ) name = map_of given name) inventory"

lemma supplies_agree:
  assumes "supplies p given environ" "\<forall>name\<in>set names. consumed_by p name"
  shows "agree names (environment environ) (ValuesForProcess given p)"
proof -
  have "map_of (environment environ) name = map_of given name" if name: "name \<in> set names" for name
  proof -
    from assms(2) name obtain c where "(name, c) \<in> set inventory" "p \<in> set (class_Consumers c)"
      by (auto simp: consumed_by_def dest: map_of_SomeD split: option.splits)
    then show ?thesis using assms(1) by (auto simp: supplies_def list_all_iff)
  qed
  then show ?thesis using assms(2) by (simp add: agree_def view_lookup)
qed

lemma supplies_settled:
  assumes "process_parser parse p names" "supplies p given environ"
  shows "parse (environment environ) = parse (ValuesForProcess given p)"
proof -
  have "\<forall>name\<in>set names. consumed_by p name" by (rule process_parser.consumed [OF assms(1)])
  from process_parser.settled [OF assms(1) _ process_parser.view_preflight [OF assms(1)] supplies_agree [OF assms(2) this]]
  show ?thesis using assms(2) by (simp add: supplies_def)
qed

lemmas supplied_parsers =
  supplies_settled [OF gateway.process_parser_axioms] supplies_settled [OF control_plane.process_parser_axioms]
  supplies_settled [OF worker.process_parser_axioms] supplies_settled [OF deployment.process_parser_axioms]

lemma ValidateComplete_loads:
  assumes "ValidateComplete h given = Inr ()"
  shows "(supplies ProcessDeployment given environ \<longrightarrow> is_ok (LoadDeployment h environ)) \<and>
    (supplies ProcessGateway given environ \<longrightarrow> is_ok (LoadGateway h environ)) \<and>
    (supplies ProcessControlPlane given environ \<longrightarrow> is_ok (LoadControlPlane h environ)) \<and>
    (supplies ProcessWorker given environ \<longrightarrow> is_ok (LoadWorker h environ))"
  using assms supplied_parsers [of given environ]
  by (auto simp: ValidateComplete_def LoadDeployment_def LoadGateway_def LoadControlPlane_def LoadWorker_def result_simps is_ok_iff)

text \<open>The arguments of the check: environment file, core only, and the two secret roots.\<close>

definition deployment_args :: "(string \<times> string) list \<Rightarrow> string \<times> bool \<times> string \<times> string" where
  "deployment_args actual = (flag_value actual ''env-file'' [], ParseBool (flag_value actual ''core-only'' ''false'') = Some True,
     flag_value actual ''secret-root'' [], flag_value actual ''cloudflare-secret-root'' [])"

text \<open>C8. A deployment that was checked starts: when the deployment check reports no error, the values it
  read, reduced and resolved are such that every process whose environment supplies them loads
  its configuration; this holds for the deployment itself, the gateway, the control plane and the
  worker.\<close>

theorem validated_deployment_loads:
  assumes "co_error (validate_deployment_run h os_ReadDir flag_text arguments) = None"
  shows "\<exists>actual env_file core secrets cloudflare given.
    flag_parse validate_flags arguments [] = Inr (actual, []) \<and>
    deployment_args actual = (env_file, core, secrets, cloudflare) \<and>
    deployment_values h os_ReadDir env_file core secrets cloudflare = Inr given \<and>
    (\<forall>environ. (supplies ProcessDeployment given environ \<longrightarrow> is_ok (LoadDeployment h environ)) \<and>
      (supplies ProcessGateway given environ \<longrightarrow> is_ok (LoadGateway h environ)) \<and>
      (supplies ProcessControlPlane given environ \<longrightarrow> is_ok (LoadControlPlane h environ)) \<and>
      (supplies ProcessWorker given environ \<longrightarrow> is_ok (LoadWorker h environ)))"
proof -
  from assms obtain actual given where parsed: "flag_parse validate_flags arguments [] = Inr (actual, [])"
    and vals: "deployment_values h os_ReadDir (flag_value actual ''env-file'' []) (ParseBool (flag_value actual ''core-only'' ''false'') = Some True)
      (flag_value actual ''secret-root'' []) (flag_value actual ''cloudflare-secret-root'' []) = Inr given"
    and ok: "ValidateComplete h given = Inr ()"
    unfolding validate_deployment_run_def
    by (auto simp: invalid_deployment_def bindE_Inr split: sum.splits if_splits)
  then show ?thesis using ValidateComplete_loads [OF ok] unfolding deployment_args_def by blast
qed

definition deployed_files :: "(string \<times> string) list" where
  "deployed_files = (''.env'', ''NEXUSRELAY_ENV=development'' @ [CHR 10]) # redis_files @ production_files"

lemma deployed_deployment: "is_ok (ParseDeployment (memory_host deployed_files) (ValuesForProcess [(''NEXUSRELAY_ENV'', ''development'')] ProcessDeployment))"
  by code_simp

lemma deployed_gateway: "is_ok (ParseGateway (memory_host deployed_files) (ValuesForProcess [(''NEXUSRELAY_ENV'', ''development'')] ProcessGateway))"
  by code_simp

lemma deployed_control_plane: "is_ok (ParseControlPlane (memory_host deployed_files) (ValuesForProcess [(''NEXUSRELAY_ENV'', ''development'')] ProcessControlPlane))"
  by code_simp

lemma deployed_worker: "is_ok (ParseWorker (memory_host deployed_files) (ValuesForProcess [(''NEXUSRELAY_ENV'', ''development'')] ProcessWorker))"
  by code_simp

lemma deployed_complete: "ValidateComplete (memory_host deployed_files) [(''NEXUSRELAY_ENV'', ''development'')] = Inr ()"
  using deployed_deployment deployed_gateway deployed_control_plane deployed_worker by (auto simp: ValidateComplete_def is_ok_iff)

theorem validated_deployment_loads_witness:
  "is_ok (LoadWorker (memory_host deployed_files) [''PATH=/bin'', ''NEXUSRELAY_ENV=development''])"
proof -
  let ?args = "[''--env-file'', ''.env'']" and ?given = "[(''NEXUSRELAY_ENV'', ''development'')]"
  have parsed: "flag_parse validate_flags ?args [] = Inr ([(''env-file'', ''.env'')], [])" by code_simp
  have args: "deployment_args [(''env-file'', ''.env'')] = (''.env'', False, [], [])" by code_simp
  have vals: "deployment_values (memory_host deployed_files) (\<lambda>_. None) ''.env'' False [] [] = Inr ?given" by code_simp
  have run: "co_error (validate_deployment_run (memory_host deployed_files) (\<lambda>_. None) (\<lambda>_. []) ?args) = None"
    using args by (simp add: validate_deployment_run_def parsed deployment_args_def vals deployed_complete)
  have "supplies ProcessWorker ?given [''PATH=/bin'', ''NEXUSRELAY_ENV=development'']" by code_simp
  then show ?thesis using validated_deployment_loads [OF run] by (auto simp: parsed args vals)
qed

section \<open>Initialising a local deployment\<close>

text \<open>The environment file is read through \<^verbatim>\<open>os.Open\<close> alone.\<close>

lemma environment_file_same:
  assumes "fs_at s' path = fs_at s path"
  shows "ReadEnvironmentFile (fs_host h s') path = ReadEnvironmentFile (fs_host h s) path"
proof -
  have quote: "strconv_Quote (fs_host h s') = strconv_Quote (fs_host h s)" by (simp add: fs_host_def)
  have "parse_lines (fs_host h s') n v ls = parse_lines (fs_host h s) n v ls" for n v ls
    by (induction ls arbitrary: n v) (simp_all only: parse_lines.simps quote)
  then have "parseEnvironmentFile (fs_host h s') r = parseEnvironmentFile (fs_host h s) r" for r
    by (simp only: parseEnvironmentFile_def)
  then show ?thesis unfolding ReadEnvironmentFile_def fs_host_fields assms by (simp only:)
qed

lemma flag_one_text:
  assumes "map_of formal name = Some StringFlag" "name \<noteq> []" "hd name \<noteq> CHR ''-''" "CHR ''='' \<notin> set name"
  shows "flag_one formal ((''--'' @ name) # v # rest) = FlagSeen name v rest"
proof -
  have "flag_name (''--'' @ name) = name" by (simp add: flag_name_def HasPrefix_def)
  moreover have "flag_split name = (name, None)" "hd name \<noteq> CHR ''=''"
    using assms(2,4) by (cases name; auto simp: flag_split_def Cut_def)+
  ultimately show ?thesis using assms by (simp add: flag_one_def flag_known_def flag_set_def)
qed

lemma init_flags:
  "flag_parse [(''output-dir'', StringFlag)] [''--output-dir'', directory] [] = Inr ([(''output-dir'', directory)], [])"
  "flag_parse validate_flags [''--env-file'', env_file, ''--secret-root'', directory] [] =
     Inr ([(''secret-root'', directory), (''env-file'', env_file)], [])"
proof -
  have stop: "flag_parse formal [] actual = Inr (actual, [])" for formal actual by (simp add: flag_parse.simps flag_one_def)
  have "flag_one [(''output-dir'', StringFlag)] [''--output-dir'', directory] = FlagSeen ''output-dir'' directory []"
    "flag_one validate_flags [''--env-file'', env_file, ''--secret-root'', directory] = FlagSeen ''env-file'' env_file [''--secret-root'', directory]"
    "flag_one validate_flags [''--secret-root'', directory] = FlagSeen ''secret-root'' directory []"
    using flag_one_text [of "[(''output-dir'', StringFlag)]" "''output-dir''"] flag_one_text [of validate_flags "''env-file''"]
      flag_one_text [of validate_flags "''secret-root''"] by (simp_all add: validate_flags_def)
  then show "flag_parse [(''output-dir'', StringFlag)] [''--output-dir'', directory] [] = Inr ([(''output-dir'', directory)], [])"
    "flag_parse validate_flags [''--env-file'', env_file, ''--secret-root'', directory] [] = Inr ([(''secret-root'', directory), (''env-file'', env_file)], [])"
    by (simp_all add: flag_parse.simps [of _ "_ # _"] stop)
qed

text \<open>C9. Initialising a local deployment works, as \<^verbatim>\<open>deploy/local-core.sh init\<close> does it: on a machine where nothing fails,
  the generator command succeeds in a new directory, and the deployment check with that directory
  as secret root then accepts the environment file, provided the same settings are accepted where
  the secrets are mounted under \<^verbatim>\<open>/run/secrets\<close>, leave the secret settings at those paths, and use
  neither TLS files nor the tunnel.  So the generated secrets satisfy every parser of the program.\<close>

theorem local_init_succeeds:
  assumes "\<forall>call. \<not> w_fails w call" "\<forall>k<10. w_random w k = Some (b k)" "drawn b" "fresh_run w directory s"
    and "range_order_ok h" "range_order_ok mounted" "SimpleFold_orbit mounted = SimpleFold_orbit h"
    and "ReadEnvironmentFile (fs_host h s) env_file = Inr given"
    and "\<not> below (filepath_Clean (temporary_path w (filepath_Dir directory))) (filepath_Clean env_file)"
    and "\<not> below (filepath_Clean directory) (filepath_Clean env_file)"
    and "ValidateComplete mounted given = Inr ()" "logical_secrets given" "core_settings given"
  shows "\<exists>s'. generate_dev_secrets_run h w flag_text True stderr_ok write_error [''--output-dir'', directory] s =
      (\<lparr>co_error = None, co_stdout = line (''development secret inventory ready at '' @ directory), co_stderr = []\<rparr>, s') \<and>
    validate_deployment_run (fs_host h s') (fs_ReadDir s') flag_text [''--env-file'', env_file, ''--secret-root'', directory] =
      \<lparr>co_error = None, co_stdout = line ''deployment configuration valid'', co_stderr = []\<rparr>"
proof -
  have machine: "\<not> w_fails w call" "k < 10 \<Longrightarrow> w_random w k = Some (b k)" for call k using assms(1,2) by simp_all
  from generator_succeeds [OF machine assms(3,5,4)] obtain s' where
    run: "GenerateDevSecrets h w directory s = (Inr (), s')" and files: "holds s' directory (generated b)"
    and valid: "ValidateDevSecrets (fs_host h s') (fs_ReadDir s') directory = Inr ()"
    and kept: "fs_at s' env_file = fs_at s env_file" using assms(9,10) by metis
  have order: "range_order_ok (fs_host h s')" using assms(5) by (simp add: range_order_ok_def)
  have orbit: "SimpleFold_orbit mounted = SimpleFold_orbit (fs_host h s')" using assms(7) by (simp add: fs_host_def)
  have dir: "proper_dir directory" "directory \<noteq> []" using assms(4) by (auto simp: fresh_run_def proper_dir_def)
  obtain resolved where resolved: "ResolveDeploymentSecretRoot (fs_host h s') (fs_ReadDir s') given directory = Inr resolved"
    using valid_root_resolves [OF valid assms(12) order] by blast
  have complete: "ValidateComplete (fs_host h s') resolved = Inr ()"
    using moved_complete [OF assms(11) resolved assms(6) order orbit assms(13) dir(1) generated_user [OF files assms(3)]] .
  have "ReadEnvironmentFile (fs_host h s') env_file = Inr given" using environment_file_same [OF kept] assms(8) by simp
  moreover have "ParseBool ''false'' \<noteq> Some True" by code_simp
  ultimately have "validate_deployment_run (fs_host h s') (fs_ReadDir s') flag_text [''--env-file'', env_file, ''--secret-root'', directory] =
      \<lparr>co_error = None, co_stdout = line ''deployment configuration valid'', co_stderr = []\<rparr>"
    using resolved complete dir(2) by (simp add: validate_deployment_run_def init_flags deployment_values_def flag_value_def)
  moreover have "generate_dev_secrets_run h w flag_text True stderr_ok write_error [''--output-dir'', directory] s =
      (\<lparr>co_error = None, co_stdout = line (''development secret inventory ready at '' @ directory), co_stderr = []\<rparr>, s')"
    using run by (simp add: generate_dev_secrets_run_def init_flags flag_value_def)
  ultimately show ?thesis by blast
qed

definition checkout_fs :: fs where
  "checkout_fs = [(''/work'', DirNode 493), (''/work/.env'', FileNode 384 (''NEXUSRELAY_ENV=development'' @ [CHR 10]))]"

theorem local_init_succeeds_witness:
  "\<exists>s'. snd (generate_dev_secrets_run (memory_host []) working_world (\<lambda>_. []) True True [] [''--output-dir'', ''/work/.local-secrets''] checkout_fs) = s' \<and>
     co_error (validate_deployment_run (fs_host (memory_host []) s') (fs_ReadDir s') (\<lambda>_. [])
       [''--env-file'', ''/work/.env'', ''--secret-root'', ''/work/.local-secrets'']) = None"
proof -
  let ?given = "[(''NEXUSRELAY_ENV'', ''development'')]"
  have machine: "\<forall>call. \<not> w_fails working_world call" "\<forall>k<10. w_random working_world k = Some (letters k)" by (simp_all add: working_world_def)
  have b: "drawn letters" by code_simp
  have fresh: "fresh_run working_world ''/work/.local-secrets'' checkout_fs" by code_simp
  have hosts: "range_order_ok (memory_host [])" "range_order_ok (memory_host deployed_files)"
    "SimpleFold_orbit (memory_host deployed_files) = SimpleFold_orbit (memory_host [])" by (simp_all add: range_order_ok_def memory_host_def)
  have read: "ReadEnvironmentFile (fs_host (memory_host []) checkout_fs) ''/work/.env'' = Inr ?given" by code_simp
  have apart: "\<not> below (filepath_Clean (temporary_path working_world (filepath_Dir ''/work/.local-secrets''))) (filepath_Clean ''/work/.env'')"
    "\<not> below (filepath_Clean ''/work/.local-secrets'') (filepath_Clean ''/work/.env'')" by code_simp+
  have plain: "logical_secrets ?given" "core_settings ?given" by code_simp+
  from local_init_succeeds [OF machine b fresh hosts read apart deployed_complete plain, of "\<lambda>_. []" True "[]"] obtain s' where
    "generate_dev_secrets_run (memory_host []) working_world (\<lambda>_. []) True True [] [''--output-dir'', ''/work/.local-secrets''] checkout_fs =
      (\<lparr>co_error = None, co_stdout = line (''development secret inventory ready at '' @ ''/work/.local-secrets''), co_stderr = []\<rparr>, s')"
    "validate_deployment_run (fs_host (memory_host []) s') (fs_ReadDir s') (\<lambda>_. []) [''--env-file'', ''/work/.env'', ''--secret-root'', ''/work/.local-secrets''] =
      \<lparr>co_error = None, co_stdout = line ''deployment configuration valid'', co_stderr = []\<rparr>" by blast
  then show ?thesis by (intro exI [of _ s'] conjI) (simp_all only: snd_conv outcome_of.select_convs)
qed

end
